theory Spec2Isabelle
  imports Complex_Main "HOL-Library.AList"
begin

section \<open>Data model\<close>

text \<open>
  A shallow embedding of \<^verbatim>\<open>include/vigra/random_forest_new/random_forest.hxx\<close>:
  the class \<^verbatim>\<open>RandomForest\<close> with \<^verbatim>\<open>merge\<close>, \<^verbatim>\<open>predict\<close>,
  \<^verbatim>\<open>predict_proba\<close>, \<^verbatim>\<open>leaf_ids\<close> and \<^verbatim>\<open>leaf_ids_impl\<close>.
  Every operation takes the caller's output array and returns it together with the
  outcome, so that a failed call still shows what the array holds afterwards; a call
  that does not return is \<open>None\<close>.
\<close>

type_synonym node = nat

text \<open>
  \<open>PreconditionViolation\<close> is what \<^verbatim>\<open>vigra_precondition(cond, message)\<close> throws; it
  carries the message of the call site. \<open>OutOfRange\<close> is the \<^verbatim>\<open>std::out_of_range\<close> of
  \<^verbatim>\<open>PropertyMap::at\<close> on a missing key. \<open>InvalidChild\<close> and \<open>OutOfBounds\<close> stand for
  the two places where the C++ has no defined behaviour: a child index other than 0 or 1,
  and an unchecked \<^verbatim>\<open>std::vector\<close> read past the end.
\<close>

datatype error = PreconditionViolation string | OutOfRange | InvalidChild | OutOfBounds

text \<open>
  A \<^verbatim>\<open>MultiArray<2, T>\<close>: its shape and its cells. The shape is kept apart from the
  cells because a matrix with no rows still has a column count. Cells outside the shape
  carry no meaning.
\<close>

record 'a matrix =
  shape0 :: nat
  shape1 :: nat
  cell :: "nat \<Rightarrow> nat \<Rightarrow> 'a"

type_synonym 'a row = "nat \<Rightarrow> 'a"

definition new_matrix :: "nat \<Rightarrow> nat \<Rightarrow> ('a::zero) matrix" where
  \<comment> \<open>\<^verbatim>\<open>MultiArray<2, T> m(Shape2(r, c))\<close>: value-initialised.\<close>
  "new_matrix r c = \<lparr>shape0 = r, shape1 = c, cell = (\<lambda>i j. 0)\<rparr>"

definition bind0 :: "'a matrix \<Rightarrow> nat \<Rightarrow> 'a row" where
  \<comment> \<open>\<^verbatim>\<open>m.template bind<0>(i)\<close>: the view of row \<open>i\<close>.\<close>
  "bind0 m i = cell m i"

definition fill :: "'a matrix \<Rightarrow> 'a \<Rightarrow> 'a matrix" where
  \<comment> \<open>\<^verbatim>\<open>std::fill(m.begin(), m.end(), v)\<close>: every cell inside the shape.\<close>
  "fill m v = m\<lparr>cell := (\<lambda>i j. if i < shape0 m \<and> j < shape1 m then v else cell m i j)\<rparr>"

definition set_cell :: "'a matrix \<Rightarrow> nat \<Rightarrow> nat \<Rightarrow> 'a \<Rightarrow> 'a matrix" where
  \<comment> \<open>\<^verbatim>\<open>m(i, j) = v\<close>\<close>
  "set_cell m i j v = m\<lparr>cell := (cell m)(i := (cell m i)(j := v))\<rparr>"

definition set_row :: "'a matrix \<Rightarrow> nat \<Rightarrow> 'a row \<Rightarrow> 'a matrix" where
  \<comment> \<open>Writing through the view \<^verbatim>\<open>m.template bind<0>(i)\<close>.\<close>
  "set_row m i r = m\<lparr>cell := (cell m)(i := r)\<rparr>"

subsection \<open>The forest graph\<close>

text \<open>
  Modelled from the spec: \<^verbatim>\<open>BinaryForest\<close> (\<^verbatim>\<open>binary_forest.hxx\<close>) is not part of the
  sources at hand. Section 6 of the specification gives its contract: nodes are integer
  ids, every node has out-degree 0 or 2 with children indexed 0 and 1, there is one root
  per tree, and \<^verbatim>\<open>merge\<close> appends the other graph's nodes, arcs and roots with the ids
  shifted by the node count.
\<close>

record graph =
  node_count :: nat
  children :: "node \<Rightarrow> (node \<times> node) option"
  roots :: "node list"

definition numNodes :: "graph \<Rightarrow> nat" where
  "numNodes g = node_count g"

definition numRoots :: "graph \<Rightarrow> nat" where
  "numRoots g = length (roots g)"

definition getRoot :: "graph \<Rightarrow> nat \<Rightarrow> node" where
  \<comment> \<open>Only called with \<open>k < numRoots g\<close>: \<^verbatim>\<open>leaf_ids\<close> checks every tree index first.\<close>
  "getRoot g k = roots g ! k"

definition outDegree :: "graph \<Rightarrow> node \<Rightarrow> nat" where
  "outDegree g n = (case children g n of None \<Rightarrow> 0 | Some c \<Rightarrow> 2)"

definition getChild :: "graph \<Rightarrow> node \<Rightarrow> nat \<Rightarrow> node option" where
  "getChild g n i =
     (case children g n of
        None \<Rightarrow> None
      | Some (l, r) \<Rightarrow> if i = 0 then Some l else if i = 1 then Some r else None)"

definition graph_merge :: "graph \<Rightarrow> graph \<Rightarrow> graph" where
  "graph_merge g h =
     \<lparr>node_count = node_count g + node_count h,
      children = (\<lambda>n. if n < node_count g then children g n
                      else map_option (\<lambda>(l, r). (l + node_count g, r + node_count g))
                             (children h (n - node_count g))),
      roots = roots g @ map (\<lambda>r. r + node_count g) (roots h)\<rparr>"

subsection \<open>Property maps, problem specification, forest\<close>

text \<open>
  Modelled from the spec: \<^verbatim>\<open>PropertyMap<Node, T, MapTag>\<close> is not part of the sources
  at hand. It is a finite map keyed by node id: \<^verbatim>\<open>insert\<close> overwrites an existing
  key, \<^verbatim>\<open>at\<close> fails on a missing key, and the entries can be enumerated. The entries
  are kept as an association list so that the enumeration in \<^verbatim>\<open>merge\<close> is a loop.
\<close>

type_synonym 'v property_map = "(node \<times> 'v) list"

definition pm_insert :: "node \<Rightarrow> 'v \<Rightarrow> 'v property_map \<Rightarrow> 'v property_map" where
  "pm_insert k v m = AList.update k v m"

definition pm_at :: "'v property_map \<Rightarrow> node \<Rightarrow> error + 'v" where
  "pm_at m k = (case map_of m k of None \<Rightarrow> Inl OutOfRange | Some v \<Rightarrow> Inr v)"

text \<open>
  Modelled from the spec: \<^verbatim>\<open>ProblemSpecNew\<close> (\<^verbatim>\<open>random_forest_common.hxx\<close>) is not
  part of the sources at hand. Section 3: the feature count, the class count and the
  ordered list of distinct labels; two specifications are equal iff all three match.
\<close>

record 'l problem_spec =
  num_features :: nat
  num_classes :: nat
  distinct_classes :: "'l list"

text \<open>
  The four members of \<^verbatim>\<open>RandomForest\<close> (the trailing underscore of the C++ names is
  dropped). A split test maps a feature row to a child index (\<^verbatim>\<open>size_t\<close>).
\<close>

record ('f, 'r, 'l) forest =
  graph :: graph
  split_tests :: "('f row \<Rightarrow> nat) property_map"
  node_responses :: "'r property_map"
  problem_spec :: "'l problem_spec"

definition num_nodes :: "('f, 'r, 'l) forest \<Rightarrow> nat" where
  "num_nodes F = numNodes (graph F)"

definition num_trees :: "('f, 'r, 'l) forest \<Rightarrow> nat" where
  "num_trees F = numRoots (graph F)"

section \<open>Leaf ids\<close>

subsection \<open>\<^verbatim>\<open>leaf_ids_impl\<close>\<close>

text \<open>
  The \<^verbatim>\<open>while\<close> loop of \<^verbatim>\<open>leaf_ids_impl\<close> (lines 345 to 351), for one feature row and
  one start node. \<open>sc\<close> is the running \<^verbatim>\<open>split_comparisons\<close>; it is a \<^verbatim>\<open>double\<close> that
  only ever grows by \<open>1.0\<close>, modelled as a natural number. The loop has no bound, so the
  function is partial.
\<close>

partial_function (option) traverse ::
  "graph \<Rightarrow> ('f row \<Rightarrow> nat) property_map \<Rightarrow> 'f row \<Rightarrow> node \<Rightarrow> nat \<Rightarrow> (error + node \<times> nat) option"
where
  "traverse g tests sub_features n sc =
     (if outDegree g n > 0 then
        (case pm_at tests n of
           Inl e \<Rightarrow> Some (Inl e)
         | Inr test \<Rightarrow>
             (case getChild g n (test sub_features) of
                None \<Rightarrow> Some (Inl InvalidChild)
              | Some c \<Rightarrow> traverse g tests sub_features c (sc + 1)))
      else Some (Inr (n, sc)))"

text \<open>
  The cell type of the id matrix \<^verbatim>\<open>IDS\<close> is a template parameter. The code stores
  two integers in a cell: \<^verbatim>\<open>node.id()\<close> in \<^verbatim>\<open>leaf_ids_impl\<close> and the literal \<open>-1\<close> in
  \<^verbatim>\<open>leaf_ids\<close>. The implicit conversion of an integer to the cell type is the
  parameter \<open>to_cell\<close> of the functions below. Two instances: cells of a signed type
  hold the value itself; cells of type \<^verbatim>\<open>size_t\<close> (the matrix that \<^verbatim>\<open>predict_proba\<close>
  builds, line 255) hold a negative value modulo \<open>2 ^ 64\<close>, so that \<open>-1\<close> becomes the
  largest \<^verbatim>\<open>size_t\<close>, and hold a node id, which is not negative, unchanged. Node ids and
  \<^verbatim>\<open>size_t\<close> values are natural numbers here.
\<close>

definition signed_cell :: "int \<Rightarrow> int" where
  "signed_cell v = v"

definition size_t_cell :: "int \<Rightarrow> nat" where
  "size_t_cell v = (if v < 0 then nat (v mod 2 ^ 64) else nat v)"

text \<open>
  The loop over \<^verbatim>\<open>tree_indices\<close> for sample \<open>i\<close>: \<^verbatim>\<open>ids(i, k) = node.id()\<close>.
\<close>

fun tree_loop ::
  "(int \<Rightarrow> 'c) \<Rightarrow> ('f, 'r, 'l) forest \<Rightarrow> 'f row \<Rightarrow> nat \<Rightarrow> nat list \<Rightarrow> 'c matrix \<Rightarrow> nat
     \<Rightarrow> ('c matrix \<times> (error + nat)) option"
where
  "tree_loop to_cell F sub_features i [] ids sc = Some (ids, Inr sc)"
| "tree_loop to_cell F sub_features i (k # ks) ids sc =
     (case traverse (graph F) (split_tests F) sub_features (getRoot (graph F) k) sc of
        None \<Rightarrow> None
      | Some (Inl e) \<Rightarrow> Some (ids, Inl e)
      | Some (Inr (n, sc')) \<Rightarrow>
          tree_loop to_cell F sub_features i ks (set_cell ids i k (to_cell (int n))) sc')"

text \<open>The loop over the samples \<open>from \<le> i < to\<close>.\<close>

fun sample_loop ::
  "(int \<Rightarrow> 'c) \<Rightarrow> ('f, 'r, 'l) forest \<Rightarrow> 'f matrix \<Rightarrow> nat list \<Rightarrow> nat list \<Rightarrow> 'c matrix \<Rightarrow> nat
     \<Rightarrow> ('c matrix \<times> (error + nat)) option"
where
  "sample_loop to_cell F features tree_indices [] ids sc = Some (ids, Inr sc)"
| "sample_loop to_cell F features tree_indices (i # rest) ids sc =
     (case tree_loop to_cell F (bind0 features i) i tree_indices ids sc of
        None \<Rightarrow> None
      | Some (ids', Inl e) \<Rightarrow> Some (ids', Inl e)
      | Some (ids', Inr sc') \<Rightarrow> sample_loop to_cell F features tree_indices rest ids' sc')"

definition leaf_ids_impl ::
  "(int \<Rightarrow> 'c) \<Rightarrow> ('f, 'r, 'l) forest \<Rightarrow> 'f matrix \<Rightarrow> 'c matrix \<Rightarrow> nat \<Rightarrow> nat \<Rightarrow> nat list
     \<Rightarrow> ('c matrix \<times> (error + nat)) option"
where
  "leaf_ids_impl to_cell F features ids from to tree_indices =
     (if shape0 features \<noteq> shape0 ids then
        Some (ids, Inl (PreconditionViolation
          ''RandomForest::leaf_ids_impl(): Shape mismatch between features and labels.''))
      else if shape1 features \<noteq> num_features (problem_spec F) then
        Some (ids, Inl (PreconditionViolation
          ''RandomForest::leaf_ids_impl(): Number of Features in prediction differs from training.''))
      else if \<not> (from \<le> to \<and> to \<le> shape0 features) then
        Some (ids, Inl (PreconditionViolation
          ''RandomForest::leaf_ids_impl(): Indices out of range.''))
      else if shape1 ids \<noteq> numRoots (graph F) then
        Some (ids, Inl (PreconditionViolation
          ''RandomForest::leaf_ids_impl(): Leaf array has wrong shape.''))
      else sample_loop to_cell F features tree_indices [from..<to] ids 0)"

subsection \<open>\<^verbatim>\<open>leaf_ids\<close>\<close>

text \<open>
  \<^verbatim>\<open>std::set<size_t>(tree_indices.begin(), tree_indices.end())\<close>: the distinct indices
  in ascending order, which is the order in which a \<^verbatim>\<open>std::set\<close> is iterated.
\<close>

definition std_set :: "nat list \<Rightarrow> nat list" where
  "std_set xs = sort (remdups xs)"

text \<open>
  Modelled from the spec: \<^verbatim>\<open>parallel_foreach\<close> (\<^verbatim>\<open>threadpool.hxx\<close>) is not part of the
  sources at hand. Section 6: \<^verbatim>\<open>run(workerCount, itemCount, fn(workerId, itemIndex))\<close>
  calls \<open>fn\<close> once for every item, on some worker, and returns when all items are done.
  Which worker takes which item, and in what order the calls take effect, is the
  executor's choice; it is the parameter \<open>sched\<close>, a list of (worker, item) pairs. A call
  that throws ends the run with the state reached so far.
\<close>

fun parallel_foreach ::
  "(nat \<times> nat) list \<Rightarrow> (nat \<Rightarrow> nat \<Rightarrow> 's \<Rightarrow> ('s \<times> (error + unit)) option) \<Rightarrow> 's
     \<Rightarrow> ('s \<times> (error + unit)) option"
where
  "parallel_foreach [] f s = Some (s, Inr ())"
| "parallel_foreach ((thread_id, i) # rest) f s =
     (case f thread_id i s of
        None \<Rightarrow> None
      | Some (s', Inl e) \<Rightarrow> Some (s', Inl e)
      | Some (s', Inr u) \<Rightarrow> parallel_foreach rest f s')"

definition valid_schedule :: "nat \<Rightarrow> nat \<Rightarrow> (nat \<times> nat) list \<Rightarrow> bool" where
  \<comment> \<open>Every item \<open>0 \<le> i < n\<close> once, each on a worker \<open>< n_threads\<close>.\<close>
  "valid_schedule n_threads n sched \<longleftrightarrow>
     list_all (\<lambda>p. fst p < n_threads) sched \<and>
     distinct (map snd sched) \<and> set (map snd sched) = {..<n}"

text \<open>
  The lambda passed to \<^verbatim>\<open>parallel_foreach\<close> (line 313):
  \<^verbatim>\<open>split_comparisons[thread_id] += leaf_ids_impl(features, ids, i, i+1, actual_tree_indices)\<close>.
\<close>

definition leaf_ids_worker ::
  "(int \<Rightarrow> 'c) \<Rightarrow> ('f, 'r, 'l) forest \<Rightarrow> 'f matrix \<Rightarrow> nat list \<Rightarrow> nat \<Rightarrow> nat
     \<Rightarrow> 'c matrix \<times> nat list \<Rightarrow> (('c matrix \<times> nat list) \<times> (error + unit)) option"
where
  "leaf_ids_worker to_cell F features actual_tree_indices thread_id i s =
     (case leaf_ids_impl to_cell F features (fst s) i (i + 1) actual_tree_indices of
        None \<Rightarrow> None
      | Some (ids', Inl e) \<Rightarrow> Some ((ids', snd s), Inl e)
      | Some (ids', Inr c) \<Rightarrow>
          Some ((ids', (snd s)[thread_id := snd s ! thread_id + c]), Inr ()))"

text \<open>
  The worker count: \<open>-1\<close> asks for \<^verbatim>\<open>std::thread::hardware_concurrency()\<close> (the
  parameter \<open>hw\<close>), and anything below 1 becomes 1.
\<close>

definition resolve_threads :: "nat \<Rightarrow> int \<Rightarrow> nat" where
  "resolve_threads hw n_threads =
     (let n = (if n_threads = - 1 then int hw else n_threads)
      in if n < 1 then 1 else nat n)"

text \<open>
  The returned \<^verbatim>\<open>double\<close> is \<^verbatim>\<open>sum_split_comparisons / features.shape()[0]\<close>. It is
  kept as the pair of its operands: the floating-point quotient is a function of the
  two, and the divisor is not tested against zero.
\<close>

datatype average = Quotient nat nat

definition leaf_ids ::
  "(int \<Rightarrow> 'c) \<Rightarrow> ('f, 'r, 'l) forest \<Rightarrow> nat \<Rightarrow> (nat \<times> nat) list \<Rightarrow> 'f matrix \<Rightarrow> 'c matrix \<Rightarrow> int
     \<Rightarrow> nat list \<Rightarrow> ('c matrix \<times> (error + average)) option"
where
  "leaf_ids to_cell F hw sched features ids n_threads tree_indices =
     (if shape0 features \<noteq> shape0 ids then
        Some (ids, Inl (PreconditionViolation
          ''RandomForest::leaf_ids(): Shape mismatch between features and probabilities.''))
      else if shape1 features \<noteq> num_features (problem_spec F) then
        Some (ids, Inl (PreconditionViolation
          ''RandomForest::leaf_ids(): Number of features in prediction differs from training.''))
      else if shape1 ids \<noteq> numRoots (graph F) then
        Some (ids, Inl (PreconditionViolation
          ''RandomForest::leaf_ids(): Leaf array has wrong shape.''))
      else if \<not> list_all (\<lambda>i. i < numRoots (graph F)) (std_set tree_indices) then
        Some (ids, Inl (PreconditionViolation
          ''RandomForest::leaf_ids(): Tree index out of range.''))
      else
        (let actual_tree_indices =
               (if std_set tree_indices = [] then [0..<numRoots (graph F)]
                else std_set tree_indices);
             num_instances = shape0 features;
             split_comparisons = replicate (resolve_threads hw n_threads) 0
         in case parallel_foreach sched
                   (leaf_ids_worker to_cell F features actual_tree_indices)
                   (fill ids (to_cell (- 1)), split_comparisons) of
              None \<Rightarrow> None
            | Some ((ids', scs), Inl e) \<Rightarrow> Some (ids', Inl e)
            | Some ((ids', scs), Inr u) \<Rightarrow>
                Some (ids', Inr (Quotient (sum_list scs) (shape0 features)))))"

section \<open>Probabilities and labels\<close>

subsection \<open>\<^verbatim>\<open>predict_proba\<close>\<close>

text \<open>
  The accumulator \<^verbatim>\<open>ACC\<close> is a template parameter. One object is default-constructed
  before the loop over the samples and called once per sample as
  \<^verbatim>\<open>acc(tree_results.begin(), tree_results.end(), sub_probs.begin())\<close>: the call sees
  the object's state, the responses and the row it writes to, and leaves a new state
  and a new row. The probabilities are \<^verbatim>\<open>double\<close>s; the model only compares them, so
  any linear order stands for them.

  The id matrix of \<^verbatim>\<open>predict_proba\<close> is a \<^verbatim>\<open>MultiArray<2, size_t>\<close>; a \<^verbatim>\<open>size_t\<close> is
  a natural number here, as a node id is.
\<close>

record ('s, 'r, 'p) accumulator =
  acc_init :: 's
  acc_call :: "'s \<Rightarrow> 'r list \<Rightarrow> 'p row \<Rightarrow> 's \<times> 'p row"

text \<open>
  The inner loop of \<^verbatim>\<open>predict_proba\<close> (lines 263 to 266):
  \<^verbatim>\<open>tree_results.push_back(node_responses_.at(Node(ids(i, k))))\<close>; \<^verbatim>\<open>Node(n)\<close> is the
  node with id \<open>n\<close>.
\<close>

fun tree_results_loop ::
  "'r property_map \<Rightarrow> nat matrix \<Rightarrow> nat \<Rightarrow> nat list \<Rightarrow> 'r list \<Rightarrow> error + 'r list"
where
  "tree_results_loop responses ids i [] tree_results = Inr tree_results"
| "tree_results_loop responses ids i (k # ks) tree_results =
     (case pm_at responses (cell ids i k) of
        Inl e \<Rightarrow> Inl e
      | Inr v \<Rightarrow> tree_results_loop responses ids i ks (tree_results @ [v]))"

text \<open>The loop over the samples (lines 260 to 269).\<close>

fun proba_loop ::
  "('s \<Rightarrow> 'r list \<Rightarrow> 'p row \<Rightarrow> 's \<times> 'p row) \<Rightarrow> 'r property_map \<Rightarrow> nat matrix \<Rightarrow> nat list
     \<Rightarrow> nat list \<Rightarrow> 's \<Rightarrow> 'p matrix \<Rightarrow> 'p matrix \<times> (error + unit)"
where
  "proba_loop acc responses ids actual_tree_indices [] st probs = (probs, Inr ())"
| "proba_loop acc responses ids actual_tree_indices (i # rest) st probs =
     (case tree_results_loop responses ids i actual_tree_indices [] of
        Inl e \<Rightarrow> (probs, Inl e)
      | Inr tree_results \<Rightarrow>
          (case acc st tree_results (bind0 probs i) of
             (st', sub_probs) \<Rightarrow>
               proba_loop acc responses ids actual_tree_indices rest st'
                 (set_row probs i sub_probs)))"

definition predict_proba ::
  "('f, 'r, 'l) forest \<Rightarrow> ('s, 'r, 'p) accumulator \<Rightarrow> nat \<Rightarrow> (nat \<times> nat) list
     \<Rightarrow> 'f matrix \<Rightarrow> 'p matrix \<Rightarrow> int \<Rightarrow> nat list
     \<Rightarrow> ('p matrix \<times> (error + average)) option"
where
  "predict_proba F A hw sched features probs n_threads tree_indices =
     (if shape0 features \<noteq> shape0 probs then
        Some (probs, Inl (PreconditionViolation
          ''RandomForest::predict_proba(): Shape mismatch between features and probabilities.''))
      else if shape1 features \<noteq> num_features (problem_spec F) then
        Some (probs, Inl (PreconditionViolation
          ''RandomForest::predict_proba(): Number of features in prediction differs from training.''))
      else if shape1 probs \<noteq> num_classes (problem_spec F) then
        Some (probs, Inl (PreconditionViolation
          ''RandomForest::predict_proba(): Number of labels in probabilities differs from training.''))
      else if \<not> list_all (\<lambda>i. i < numRoots (graph F)) (std_set tree_indices) then
        Some (probs, Inl (PreconditionViolation
          ''RandomForest::predict_proba(): Tree index out of range.''))
      else
        (let actual_tree_indices =
               (if std_set tree_indices = [] then [0..<numRoots (graph F)]
                else std_set tree_indices);
             num_roots = numRoots (graph F)
         in case leaf_ids size_t_cell F hw sched features
                   (new_matrix (shape0 features) num_roots) n_threads actual_tree_indices of
              None \<Rightarrow> None
            | Some (ids, Inl e) \<Rightarrow> Some (probs, Inl e)
            | Some (ids, Inr average_split_counts) \<Rightarrow>
                (case proba_loop (acc_call A) (node_responses F) ids actual_tree_indices
                        [0..<shape0 features] (acc_init A) probs of
                   (probs', Inl e) \<Rightarrow> Some (probs', Inl e)
                 | (probs', Inr u) \<Rightarrow> Some (probs', Inr average_split_counts))))"

subsection \<open>\<^verbatim>\<open>predict\<close>\<close>

text \<open>
  \<^verbatim>\<open>std::distance(b, std::max_element(b, e))\<close> on a row of \<open>n\<close> cells: the candidate
  moves only to a strictly larger cell, and an empty range gives \<open>e = b\<close>.
\<close>

definition max_element :: "('p::linorder) row \<Rightarrow> nat \<Rightarrow> nat" where
  "max_element sub_probs n =
     (if n = 0 then 0
      else fold (\<lambda>j largest. if sub_probs largest < sub_probs j then j else largest) [1..<n] 0)"

text \<open>
  The loop over the samples (lines 218 to 224). The label vector is a list; the read
  \<^verbatim>\<open>distinct_classes_[label]\<close> is unchecked in the C++.
\<close>

fun label_loop ::
  "'l problem_spec \<Rightarrow> ('p::linorder) matrix \<Rightarrow> nat list \<Rightarrow> 'l list \<Rightarrow> 'l list \<times> (error + unit)"
where
  "label_loop spec probs [] labels = (labels, Inr ())"
| "label_loop spec probs (i # rest) labels =
     (let label = max_element (bind0 probs i) (shape1 probs)
      in if label < length (distinct_classes spec)
         then label_loop spec probs rest (labels[i := distinct_classes spec ! label])
         else (labels, Inl OutOfBounds))"

definition predict ::
  "('f, 'r, 'l) forest \<Rightarrow> ('s, 'r, 'p::{linorder,zero}) accumulator \<Rightarrow> nat \<Rightarrow> (nat \<times> nat) list
     \<Rightarrow> 'f matrix \<Rightarrow> 'l list \<Rightarrow> int \<Rightarrow> nat list
     \<Rightarrow> ('l list \<times> (error + average)) option"
where
  "predict F A hw sched features labels n_threads tree_indices =
     (if shape0 features \<noteq> length labels then
        Some (labels, Inl (PreconditionViolation
          ''RandomForest::predict(): Shape mismatch between features and labels.''))
      else if shape1 features \<noteq> num_features (problem_spec F) then
        Some (labels, Inl (PreconditionViolation
          ''RandomForest::predict(): Number of features in prediction differs from training.''))
      else
        (case predict_proba F A hw sched features
                (new_matrix (shape0 features) (num_classes (problem_spec F)))
                n_threads tree_indices of
           None \<Rightarrow> None
         | Some (probs, Inl e) \<Rightarrow> Some (labels, Inl e)
         | Some (probs, Inr average_split_counts) \<Rightarrow>
             (case label_loop (problem_spec F) probs [0..<shape0 features] labels of
                (labels', Inl e) \<Rightarrow> Some (labels', Inl e)
              | (labels', Inr u) \<Rightarrow> Some (labels', Inr average_split_counts))))"

section \<open>Merging two forests\<close>

definition merge ::
  "('f, 'r, 'l) forest \<Rightarrow> ('f, 'r, 'l) forest \<Rightarrow> ('f, 'r, 'l) forest \<times> (error + unit)"
where
  "merge F other =
     (if problem_spec F \<noteq> problem_spec other then
        (F, Inl (PreconditionViolation
          ''RandomForest::merge(): You cannot merge with different problem specs.''))
      else
        (let offset = num_nodes F
         in (F\<lparr>graph := graph_merge (graph F) (graph other),
               split_tests :=
                 fold (\<lambda>p m. pm_insert (fst p + offset) (snd p) m)
                   (split_tests other) (split_tests F),
               node_responses :=
                 fold (\<lambda>p m. pm_insert (fst p + offset) (snd p) m)
                   (node_responses other) (node_responses F)\<rparr>,
             Inr ())))"

section \<open>Notions used to state the properties\<close>

subsection \<open>Walks and well-formed trees\<close>

text \<open>
  The walk the specification describes (section 4.1): from a node with two children the
  split test gives a child index 0 or 1 and the walk moves to that child; \<open>c\<close> counts
  the moves. \<open>descends g tests x n c leaf\<close>: the walk from \<open>n\<close> is at \<open>leaf\<close> after
  \<open>c\<close> moves.
\<close>

inductive descends :: "graph \<Rightarrow> ('f row \<Rightarrow> nat) property_map \<Rightarrow> 'f row \<Rightarrow> node \<Rightarrow> nat \<Rightarrow> node \<Rightarrow> bool"
  for g tests sub_features
where
  descends_stop: "descends g tests sub_features n 0 n"
| descends_step:
    "outDegree g n = 2 \<Longrightarrow> map_of tests n = Some t \<Longrightarrow> t sub_features < 2 \<Longrightarrow>
     getChild g n (t sub_features) = Some m \<Longrightarrow> descends g tests sub_features m c leaf \<Longrightarrow>
     descends g tests sub_features n (Suc c) leaf"

code_pred descends .

text \<open>
  The invariants of section 3 for the subtree below a node, for one feature row: the
  subtree is a finite binary tree (no path longer than \<open>d\<close> nodes, hence no cycle), and
  every node with children has a split test that answers 0 or 1 on the row.
\<close>

fun tree_below :: "nat \<Rightarrow> graph \<Rightarrow> ('f row \<Rightarrow> nat) property_map \<Rightarrow> 'f row \<Rightarrow> node \<Rightarrow> bool" where
  "tree_below 0 g tests sub_features n = False"
| "tree_below (Suc d) g tests sub_features n =
     (case children g n of
        None \<Rightarrow> True
      | Some (l, r) \<Rightarrow>
          (case map_of tests n of None \<Rightarrow> False | Some t \<Rightarrow> t sub_features < 2) \<and>
          tree_below d g tests sub_features l \<and> tree_below d g tests sub_features r)"

definition walkable :: "('f, 'r, 'l) forest \<Rightarrow> 'f row \<Rightarrow> nat \<Rightarrow> bool" where
  "walkable F sub_features k \<longleftrightarrow>
     tree_below (num_nodes F) (graph F) (split_tests F) sub_features (getRoot (graph F) k)"

definition all_walkable :: "('f, 'r, 'l) forest \<Rightarrow> 'f matrix \<Rightarrow> nat list \<Rightarrow> bool" where
  "all_walkable F features ks \<longleftrightarrow>
     list_all (\<lambda>i. list_all (\<lambda>k. walkable F (bind0 features i) k) ks) [0..<shape0 features]"

text \<open>
  What one traversal returns, read off \<open>traverse\<close> itself: the leaf id and the number
  of comparisons of sample row \<open>sub_features\<close> in tree \<open>k\<close>.
\<close>

definition returns_leaf :: "('f, 'r, 'l) forest \<Rightarrow> 'f row \<Rightarrow> nat \<Rightarrow> bool" where
  "returns_leaf F sub_features k \<longleftrightarrow>
     (case traverse (graph F) (split_tests F) sub_features (getRoot (graph F) k) 0 of
        Some (Inr r) \<Rightarrow> True
      | _ \<Rightarrow> False)"

definition reached :: "('f, 'r, 'l) forest \<Rightarrow> 'f row \<Rightarrow> nat \<Rightarrow> node \<times> nat" where
  "reached F sub_features k =
     (case traverse (graph F) (split_tests F) sub_features (getRoot (graph F) k) 0 of
        Some (Inr r) \<Rightarrow> r
      | _ \<Rightarrow> (0, 0))"

definition leaf_of :: "('f, 'r, 'l) forest \<Rightarrow> 'f row \<Rightarrow> nat \<Rightarrow> node" where
  "leaf_of F sub_features k = fst (reached F sub_features k)"

definition comparisons :: "('f, 'r, 'l) forest \<Rightarrow> 'f row \<Rightarrow> nat \<Rightarrow> nat" where
  "comparisons F sub_features k = snd (reached F sub_features k)"

definition all_returning :: "('f, 'r, 'l) forest \<Rightarrow> 'f matrix \<Rightarrow> nat list \<Rightarrow> bool" where
  "all_returning F features ks \<longleftrightarrow>
     list_all (\<lambda>i. list_all (\<lambda>k. returns_leaf F (bind0 features i) k) ks) [0..<shape0 features]"

subsection \<open>Preconditions and results of \<^verbatim>\<open>leaf_ids\<close>\<close>

text \<open>
  The tree-index set after the default is resolved (lines 289 to 296, and again lines
  244 to 251): the distinct indices in ascending order, or all trees when none is given.
\<close>

definition resolved_tree_indices :: "graph \<Rightarrow> nat list \<Rightarrow> nat list" where
  "resolved_tree_indices g tree_indices =
     (if std_set tree_indices = [] then [0..<numRoots g] else std_set tree_indices)"

text \<open>
  The shape and range preconditions of \<^verbatim>\<open>leaf_ids\<close> (section 7, class (a)).
\<close>

definition leaf_ids_pre ::
  "('f, 'r, 'l) forest \<Rightarrow> 'f matrix \<Rightarrow> 'c matrix \<Rightarrow> nat list \<Rightarrow> bool" where
  "leaf_ids_pre F features ids tree_indices \<longleftrightarrow>
     shape0 features = shape0 ids \<and>
     shape1 features = num_features (problem_spec F) \<and>
     shape1 ids = numRoots (graph F) \<and>
     list_all (\<lambda>k. k < numRoots (graph F)) tree_indices"

text \<open>
  The id matrix after a successful call: inside the shape, the leaf id for a requested
  tree and \<open>-1\<close> otherwise, each as a cell value. The total of the comparison counts
  over all samples and requested trees.
\<close>

definition leaf_id_matrix ::
  "(int \<Rightarrow> 'c) \<Rightarrow> ('f, 'r, 'l) forest \<Rightarrow> 'f matrix \<Rightarrow> 'c matrix \<Rightarrow> nat list \<Rightarrow> 'c matrix" where
  "leaf_id_matrix to_cell F features ids ks =
     ids\<lparr>cell := (\<lambda>i k. if i < shape0 ids \<and> k < shape1 ids
                        then (if k \<in> set ks then to_cell (int (leaf_of F (bind0 features i) k))
                              else to_cell (- 1))
                        else cell ids i k)\<rparr>"

definition total_comparisons :: "('f, 'r, 'l) forest \<Rightarrow> 'f matrix \<Rightarrow> nat list \<Rightarrow> nat" where
  "total_comparisons F features ks =
     sum_list (map (\<lambda>i. sum_list (map (comparisons F (bind0 features i)) ks))
                 [0..<shape0 features])"

subsection \<open>Preconditions and failure messages of the other operations\<close>

text \<open>
  The shape and range preconditions of \<^verbatim>\<open>predict_proba\<close> and \<^verbatim>\<open>predict\<close>; for
  \<^verbatim>\<open>predict\<close> the range of the tree indices is checked by the \<^verbatim>\<open>predict_proba\<close> it
  calls.
\<close>

definition predict_proba_pre ::
  "('f, 'r, 'l) forest \<Rightarrow> 'f matrix \<Rightarrow> 'p matrix \<Rightarrow> nat list \<Rightarrow> bool" where
  "predict_proba_pre F features probs tree_indices \<longleftrightarrow>
     shape0 features = shape0 probs \<and>
     shape1 features = num_features (problem_spec F) \<and>
     shape1 probs = num_classes (problem_spec F) \<and>
     list_all (\<lambda>k. k < numRoots (graph F)) tree_indices"

definition predict_pre ::
  "('f, 'r, 'l) forest \<Rightarrow> 'f matrix \<Rightarrow> 'l list \<Rightarrow> nat list \<Rightarrow> bool" where
  "predict_pre F features labels tree_indices \<longleftrightarrow>
     shape0 features = length labels \<and>
     shape1 features = num_features (problem_spec F) \<and>
     list_all (\<lambda>k. k < numRoots (graph F)) tree_indices"

text \<open>
  The message texts of the \<^verbatim>\<open>vigra_precondition\<close> calls of each operation, in the
  order of the checks.
\<close>

definition leaf_ids_messages :: "string list" where
  "leaf_ids_messages =
     [''RandomForest::leaf_ids(): Shape mismatch between features and probabilities.'',
      ''RandomForest::leaf_ids(): Number of features in prediction differs from training.'',
      ''RandomForest::leaf_ids(): Leaf array has wrong shape.'',
      ''RandomForest::leaf_ids(): Tree index out of range.'']"

definition predict_proba_messages :: "string list" where
  "predict_proba_messages =
     [''RandomForest::predict_proba(): Shape mismatch between features and probabilities.'',
      ''RandomForest::predict_proba(): Number of features in prediction differs from training.'',
      ''RandomForest::predict_proba(): Number of labels in probabilities differs from training.'',
      ''RandomForest::predict_proba(): Tree index out of range.'']"

definition predict_messages :: "string list" where
  "predict_messages =
     [''RandomForest::predict(): Shape mismatch between features and labels.'',
      ''RandomForest::predict(): Number of features in prediction differs from training.'']"

definition merge_messages :: "string list" where
  "merge_messages =
     [''RandomForest::merge(): You cannot merge with different problem specs.'']"

subsection \<open>Results of \<^verbatim>\<open>predict_proba\<close> and \<^verbatim>\<open>predict\<close>\<close>

text \<open>
  Every reached leaf has a response. The responses of sample \<open>i\<close>, one per tree of
  \<open>ks\<close> in the order of \<open>ks\<close>.
\<close>

definition responses_defined :: "('f, 'r, 'l) forest \<Rightarrow> 'f matrix \<Rightarrow> nat list \<Rightarrow> bool" where
  "responses_defined F features ks \<longleftrightarrow>
     list_all (\<lambda>i. list_all (\<lambda>k.
         map_of (node_responses F) (leaf_of F (bind0 features i) k) \<noteq> None) ks)
       [0..<shape0 features]"

definition tree_responses :: "('f, 'r, 'l) forest \<Rightarrow> 'f matrix \<Rightarrow> nat list \<Rightarrow> nat \<Rightarrow> 'r list" where
  "tree_responses F features ks i =
     map (\<lambda>k. the (map_of (node_responses F) (leaf_of F (bind0 features i) k))) ks"

text \<open>
  The accumulator object lives across the samples: its state before sample \<open>i\<close>, when
  sample \<open>j\<close> was called with the responses \<open>rs j\<close> and the row \<open>j\<close> of the caller's
  matrix. The probability matrix after \<open>n\<close> samples: row \<open>i\<close> is what the call for sample
  \<open>i\<close> left in it.
\<close>

fun acc_state_before ::
  "('s, 'r, 'p) accumulator \<Rightarrow> (nat \<Rightarrow> 'r list) \<Rightarrow> 'p matrix \<Rightarrow> nat \<Rightarrow> 's" where
  "acc_state_before A rs probs 0 = acc_init A"
| "acc_state_before A rs probs (Suc i) =
     fst (acc_call A (acc_state_before A rs probs i) (rs i) (bind0 probs i))"

definition proba_matrix ::
  "('s, 'r, 'p) accumulator \<Rightarrow> (nat \<Rightarrow> 'r list) \<Rightarrow> 'p matrix \<Rightarrow> nat \<Rightarrow> 'p matrix" where
  "proba_matrix A rs probs n =
     probs\<lparr>cell := (\<lambda>i. if i < n
                        then snd (acc_call A (acc_state_before A rs probs i) (rs i) (bind0 probs i))
                        else cell probs i)\<rparr>"

text \<open>
  \<open>j\<close> is the first index of a maximum among the first \<open>n\<close> cells of a row.
\<close>

definition first_max :: "('p::linorder) row \<Rightarrow> nat \<Rightarrow> nat \<Rightarrow> bool" where
  "first_max sub_probs n j \<longleftrightarrow>
     j < n \<and> (\<forall>j'<n. sub_probs j' \<le> sub_probs j) \<and> (\<forall>j'<j. sub_probs j' < sub_probs j)"

subsection \<open>The merged forest\<close>

text \<open>
  The forest that \<^verbatim>\<open>merge\<close> leaves behind, and the tree indices of the second forest
  as they are counted in it: after the \<open>offset\<close> trees of the first.
\<close>

definition merged :: "('f, 'r, 'l) forest \<Rightarrow> ('f, 'r, 'l) forest \<Rightarrow> ('f, 'r, 'l) forest" where
  "merged A B = fst (merge A B)"

definition shift_tree_indices :: "nat \<Rightarrow> nat list \<Rightarrow> nat list" where
  "shift_tree_indices offset tree_indices = map (\<lambda>k. offset + k) tree_indices"

section \<open>The forest of the unit test\<close>

text \<open>
  Modelled from the spec: \<^verbatim>\<open>LessEqualSplitTest\<close> (\<^verbatim>\<open>random_forest_common.hxx\<close>) is
  not part of the sources at hand. Section 8: a node splits on one feature at a
  threshold, values up to the threshold go to child 0.
\<close>

definition LessEqualSplitTest :: "nat \<Rightarrow> ('f::linorder) \<Rightarrow> 'f row \<Rightarrow> nat" where
  "LessEqualSplitTest dimension val features = (if features dimension \<le> val then 0 else 1)"

text \<open>
  \<^verbatim>\<open>test_base_class\<close> of \<^verbatim>\<open>test/random_forest_new/test.cxx\<close>: seven nodes, one
  tree, the eight test points. A forest whose only tree is a single leaf is the boundary
  case of section 8.
\<close>

definition test_graph :: graph where
  "test_graph =
     \<lparr>node_count = 7,
      children = [0 \<mapsto> (1, 2), 1 \<mapsto> (3, 4), 2 \<mapsto> (5, 6)],
      roots = [0]\<rparr>"

definition test_forest :: "(real, nat, int) forest" where
  "test_forest =
     \<lparr>graph = test_graph,
      split_tests =
        [(0, LessEqualSplitTest 0 0.6), (1, LessEqualSplitTest 1 0.25),
         (2, LessEqualSplitTest 1 0.75)],
      node_responses = [(3, 0), (4, 1), (5, 2), (6, 3)],
      problem_spec = \<lparr>num_features = 2, num_classes = 4, distinct_classes = [0, 1, - 7, 3]\<rparr>\<rparr>"

definition matrix_of :: "nat \<Rightarrow> nat \<Rightarrow> 'a list list \<Rightarrow> 'a matrix" where
  "matrix_of r c rows = \<lparr>shape0 = r, shape1 = c, cell = (\<lambda>i j. rows ! i ! j)\<rparr>"

definition test_x :: "real matrix" where
  "test_x = matrix_of 8 2
     [[0.2, 0.2], [0.4, 0.2], [0.2, 0.7], [0.4, 0.7],
      [0.7, 0.2], [0.8, 0.2], [0.7, 0.8], [0.8, 0.8]]"

definition single_leaf_forest :: "(real, nat, int) forest" where
  "single_leaf_forest =
     \<lparr>graph = \<lparr>node_count = 1, children = Map.empty, roots = [0]\<rparr>,
      split_tests = [],
      node_responses = [(0, 2)],
      problem_spec = \<lparr>num_features = 2, num_classes = 4, distinct_classes = [0, 1, - 7, 3]\<rparr>\<rparr>"

subsection \<open>More inputs for the examples\<close>

text \<open>
  An accumulator for the examples: the share of the trees that answer class \<open>j\<close>. A
  forest with another problem specification, two executor schedules for the eight test
  points (one worker; two workers taking turns), and two feature matrices with the wrong
  number of columns. A forest of two trees, the tree of the unit test followed by a
  single leaf (node 7), and an \<open>8 \<times> 2\<close> id matrix that holds 99 in every cell from
  an earlier use.
\<close>

definition vote_acc :: "(unit, nat, real) accumulator" where
  "vote_acc =
     \<lparr>acc_init = (),
      acc_call = (\<lambda>st tree_results out.
        ((), \<lambda>j. real (count_list tree_results j) / real (length tree_results)))\<rparr>"

definition other_spec_forest :: "(real, nat, int) forest" where
  "other_spec_forest =
     single_leaf_forest\<lparr>problem_spec :=
       \<lparr>num_features = 3, num_classes = 4, distinct_classes = [0, 1, - 7, 3]\<rparr>\<rparr>"

definition one_worker_schedule :: "(nat \<times> nat) list" where
  "one_worker_schedule = [(0, 0), (0, 1), (0, 2), (0, 3), (0, 4), (0, 5), (0, 6), (0, 7)]"

definition two_worker_schedule :: "(nat \<times> nat) list" where
  "two_worker_schedule = [(0, 0), (1, 4), (0, 1), (1, 5), (0, 2), (1, 6), (0, 3), (1, 7)]"

definition wide_x :: "real matrix" where
  "wide_x = new_matrix 8 3"

definition wider_x :: "real matrix" where
  "wider_x = new_matrix 8 5"

definition two_tree_forest :: "(real, nat, int) forest" where
  "two_tree_forest =
     \<lparr>graph = \<lparr>node_count = 8,
               children = [0 \<mapsto> (1, 2), 1 \<mapsto> (3, 4), 2 \<mapsto> (5, 6)],
               roots = [0, 7]\<rparr>,
      split_tests =
        [(0, LessEqualSplitTest 0 0.6), (1, LessEqualSplitTest 1 0.25),
         (2, LessEqualSplitTest 1 0.75)],
      node_responses = [(3, 0), (4, 1), (5, 2), (6, 3), (7, 2)],
      problem_spec = \<lparr>num_features = 2, num_classes = 4, distinct_classes = [0, 1, - 7, 3]\<rparr>\<rparr>"

definition stale_ids :: "('c::numeral) matrix" where
  "stale_ids = \<lparr>shape0 = 8, shape1 = 2, cell = (\<lambda>i k. 99)\<rparr>"

section \<open>Lemmas about the traversal and the parallel loop\<close>

lemma signed_cell_id [simp]: "signed_cell v = v"
  by (simp add: signed_cell_def)

lemma size_t_cell_id [simp]: "size_t_cell (int n) = n"
  by (simp add: size_t_cell_def)

lemma size_t_cell_nonneg [simp]: "0 \<le> v \<Longrightarrow> size_t_cell v = nat v"
  by (simp add: size_t_cell_def)

lemma size_t_cell_minus_one [simp]: "size_t_cell (- 1) = 18446744073709551615"
  by (simp add: size_t_cell_def)

lemma traverse_counter_Some:
  "traverse g tests row n sc = Some y \<Longrightarrow>
   (case y of
      Inl e \<Rightarrow> \<forall>sc'. traverse g tests row n sc' = Some (Inl e)
    | Inr (leaf, c) \<Rightarrow> sc \<le> c \<and> (\<forall>sc'. traverse g tests row n sc' = Some (Inr (leaf, sc' + (c - sc)))))"
proof (induction g tests row n sc y rule: traverse.raw_induct[rotated 1, consumes 1, case_names step])
  case (step trav g tests row n sc y)
  note 1 = step
  show ?case
  proof (cases "outDegree g n > 0")
    case False
    with 1(2) have y: "y = Inr (n, sc)" by simp
    have "traverse g tests row n sc' = Some (Inr (n, sc'))" for sc'
      using False by (subst traverse.simps) simp
    then show ?thesis by (simp add: y)
  next
    case True
    show ?thesis
    proof (cases "pm_at tests n")
      case (Inl e)
      with 1(2) True have y: "y = Inl e" by simp
      have "traverse g tests row n sc' = Some (Inl e)" for sc'
        using True Inl by (subst traverse.simps) simp
      then show ?thesis by (simp add: y)
    next
      case (Inr test)
      show ?thesis
      proof (cases "getChild g n (test row)")
        case None
        with 1(2) True Inr have y: "y = Inl InvalidChild" by simp
        have "traverse g tests row n sc' = Some (Inl InvalidChild)" for sc'
          using True Inr None by (subst traverse.simps) simp
        then show ?thesis by (simp add: y)
      next
        case (Some m)
        with 1(2) True Inr have rec: "trav g tests row m (sc + 1) = Some y" by simp
        have unfold: "traverse g tests row n sc' = traverse g tests row m (sc' + 1)" for sc'
          using True Inr Some by (subst traverse.simps) simp
        from 1(1)[OF rec] show ?thesis
          by (cases y) (auto simp: unfold split: prod.splits)
      qed
    qed
  qed
qed

lemma traverse_returns_leaf:
  assumes "returns_leaf F row k"
  shows "traverse (graph F) (split_tests F) row (getRoot (graph F) k) sc
           = Some (Inr (leaf_of F row k, sc + comparisons F row k))"
proof -
  from assms obtain leaf c where
    r: "traverse (graph F) (split_tests F) row (getRoot (graph F) k) 0 = Some (Inr (leaf, c))"
    by (auto simp: returns_leaf_def split: option.splits sum.splits)
  then have "reached F row k = (leaf, c)" by (simp add: reached_def)
  then have "leaf_of F row k = leaf" "comparisons F row k = c"
    by (simp_all add: leaf_of_def comparisons_def)
  then show ?thesis
    using traverse_counter_Some[OF r] by simp
qed

lemma traverse_Inr_returns_leaf:
  assumes "traverse (graph F) (split_tests F) row (getRoot (graph F) k) sc = Some (Inr r)"
  shows "returns_leaf F row k"
proof -
  obtain leaf c where "r = (leaf, c)" by (cases r)
  with traverse_counter_Some[OF assms] show ?thesis
    by (simp add: returns_leaf_def)
qed

lemma tree_loop_returns:
  "\<forall>k\<in>set ks. returns_leaf F row k \<Longrightarrow>
   tree_loop to_cell F row i ks ids sc =
     Some (fold (\<lambda>k m. set_cell m i k (to_cell (int (leaf_of F row k)))) ks ids,
           Inr (sc + sum_list (map (comparisons F row) ks)))"
proof (induction ks arbitrary: ids sc)
  case Nil
  then show ?case by simp
next
  case (Cons k ks)
  then show ?case
    by (simp add: traverse_returns_leaf add.assoc)
qed

lemma tree_loop_success:
  "tree_loop to_cell F row i ks ids sc = Some (ids', Inr c) \<Longrightarrow> \<forall>k\<in>set ks. returns_leaf F row k"
proof (induction ks arbitrary: ids sc)
  case Nil
  then show ?case by simp
next
  case (Cons k ks)
  from Cons.prems obtain leaf c1 where
    t: "traverse (graph F) (split_tests F) row (getRoot (graph F) k) sc = Some (Inr (leaf, c1))"
    and rest: "tree_loop to_cell F row i ks (set_cell ids i k (to_cell (int leaf))) c1 = Some (ids', Inr c)"
    by (auto split: option.splits sum.splits)
  show ?case
    using traverse_Inr_returns_leaf[OF t] Cons.IH[OF rest] by simp
qed

lemma tree_loop_shape:
  "tree_loop to_cell F row i ks ids sc = Some (ids', r) \<Longrightarrow>
     shape0 ids' = shape0 ids \<and> shape1 ids' = shape1 ids"
proof (induction ks arbitrary: ids sc)
  case Nil
  then show ?case by simp
next
  case (Cons k ks)
  show ?case
  proof (cases "traverse (graph F) (split_tests F) row (getRoot (graph F) k) sc")
    case None
    with Cons.prems show ?thesis by simp
  next
    case (Some y)
    show ?thesis
    proof (cases y)
      case (Inl e)
      with Cons.prems Some show ?thesis by simp
    next
      case (Inr p)
      obtain leaf c1 where p: "p = (leaf, c1)" by (cases p)
      from Cons.prems Some Inr p
      have "tree_loop to_cell F row i ks (set_cell ids i k (to_cell (int leaf))) c1 = Some (ids', r)" by simp
      from Cons.IH[OF this] show ?thesis by (simp add: set_cell_def)
    qed
  qed
qed

lemma set_std_set [simp]: "set (std_set xs) = set xs"
  by (simp add: std_set_def)

lemma distinct_std_set [simp]: "distinct (std_set xs)"
  by (simp add: std_set_def)

lemma sorted_std_set [simp]: "sorted (std_set xs)"
  by (simp add: std_set_def)

lemma std_set_Nil [simp]: "std_set xs = [] \<longleftrightarrow> xs = []"
  by (metis set_std_set set_empty)

lemma std_set_idem: "sorted xs \<Longrightarrow> distinct xs \<Longrightarrow> std_set xs = xs"
  by (simp add: std_set_def sorted_sort_id)

lemma std_set_resolved [simp]:
  "std_set (resolved_tree_indices g tis) = resolved_tree_indices g tis"
  by (simp add: resolved_tree_indices_def std_set_idem)

lemma resolved_idem [simp]:
  "resolved_tree_indices g (resolved_tree_indices g tis) = resolved_tree_indices g tis"
  by (simp add: resolved_tree_indices_def std_set_idem)

lemma resolved_in_range:
  "list_all (\<lambda>k. k < numRoots g) tis \<Longrightarrow> k \<in> set (resolved_tree_indices g tis) \<Longrightarrow> k < numRoots g"
  by (auto simp: resolved_tree_indices_def list_all_iff split: if_splits)

lemma set_resolved:
  "set (resolved_tree_indices g tis) = (if set tis = {} then {..<numRoots g} else set tis)"
  by (auto simp: resolved_tree_indices_def)

lemma cell_set_cell:
  "cell (set_cell m i k v) i' k' = (if i' = i \<and> k' = k then v else cell m i' k')"
  by (simp add: set_cell_def)

lemma shape_fold_set_cell:
  "shape0 (fold (\<lambda>k m. set_cell m i k (f k)) ks ids) = shape0 ids"
  "shape1 (fold (\<lambda>k m. set_cell m i k (f k)) ks ids) = shape1 ids"
  by (induction ks arbitrary: ids) (simp_all add: set_cell_def)

lemma cell_fold_set_cell:
  "cell (fold (\<lambda>k m. set_cell m i k (f k)) ks ids) i' k' =
     (if i' = i \<and> k' \<in> set ks then f k' else cell ids i' k')"
  by (induction ks arbitrary: ids) (auto simp: set_cell_def)

lemma leaf_ids_impl_unfold:
  assumes "shape0 features = shape0 ids" "shape1 features = num_features (problem_spec F)"
    "shape1 ids = numRoots (graph F)" "i < shape0 features"
  shows "leaf_ids_impl to_cell F features ids i (Suc i) ks =
           (case tree_loop to_cell F (bind0 features i) i ks ids 0 of
              None \<Rightarrow> None
            | Some (ids', Inl e) \<Rightarrow> Some (ids', Inl e)
            | Some (ids', Inr c) \<Rightarrow> Some (ids', Inr c))"
  using assms by (simp add: leaf_ids_impl_def split: option.splits sum.splits)

lemma leaf_ids_impl_single:
  assumes "shape0 features = shape0 ids" "shape1 features = num_features (problem_spec F)"
    "shape1 ids = numRoots (graph F)" "i < shape0 features"
    "\<forall>k\<in>set ks. returns_leaf F (bind0 features i) k"
  shows "leaf_ids_impl to_cell F features ids i (Suc i) ks =
     Some (fold (\<lambda>k m. set_cell m i k (to_cell (int (leaf_of F (bind0 features i) k)))) ks ids,
           Inr (sum_list (map (comparisons F (bind0 features i)) ks)))"
  using assms by (simp add: leaf_ids_impl_unfold tree_loop_returns)

lemma leaf_ids_impl_success:
  assumes "shape0 features = shape0 ids" "shape1 features = num_features (problem_spec F)"
    "shape1 ids = numRoots (graph F)" "i < shape0 features"
    "leaf_ids_impl to_cell F features ids i (Suc i) ks = Some (ids', Inr c)"
  shows "\<forall>k\<in>set ks. returns_leaf F (bind0 features i) k"
proof -
  from assms(5) have "tree_loop to_cell F (bind0 features i) i ks ids 0 = Some (ids', Inr c)"
    unfolding leaf_ids_impl_unfold[OF assms(1-4)]
    by (auto split: option.splits sum.splits)
  then show ?thesis by (rule tree_loop_success)
qed

lemma leaf_ids_worker_apply:
  "leaf_ids_worker to_cell F features ks t i (ids, scs) =
     (case leaf_ids_impl to_cell F features ids i (Suc i) ks of
        None \<Rightarrow> None
      | Some (ids', Inl e) \<Rightarrow> Some ((ids', scs), Inl e)
      | Some (ids', Inr c) \<Rightarrow> Some ((ids', scs[t := scs ! t + c]), Inr ()))"
  by (simp add: leaf_ids_worker_def split: option.splits sum.splits)

lemma sum_list_bump:
  "t < length (scs :: nat list) \<Longrightarrow> sum_list (scs[t := scs ! t + c]) = sum_list scs + c"
  by (induction scs arbitrary: t) (auto split: nat.splits)

lemma parallel_foreach_leaf_ids:
  assumes pre: "shape0 features = shape0 ids" "shape1 features = num_features (problem_spec F)"
    "shape1 ids = numRoots (graph F)"
  and sched: "\<forall>p\<in>set sched. fst p < length scs \<and> snd p < shape0 features"
  and walk: "\<forall>p\<in>set sched. \<forall>k\<in>set ks. returns_leaf F (bind0 features (snd p)) k"
  shows "\<exists>ids' scs'.
           parallel_foreach sched (leaf_ids_worker to_cell F features ks) (ids, scs)
             = Some ((ids', scs'), Inr ()) \<and>
           shape0 ids' = shape0 ids \<and> shape1 ids' = shape1 ids \<and>
           (\<forall>i k. cell ids' i k =
              (if i \<in> snd ` set sched \<and> k \<in> set ks
               then to_cell (int (leaf_of F (bind0 features i) k)) else cell ids i k)) \<and>
           length scs' = length scs \<and>
           sum_list scs' = sum_list scs +
             sum_list (map (\<lambda>p. sum_list (map (comparisons F (bind0 features (snd p))) ks)) sched)"
  using assms
proof (induction sched arbitrary: ids scs)
  case Nil
  then show ?case by simp
next
  case (Cons p sched)
  obtain t i where p: "p = (t, i)" by (cases p)
  define ids1 where "ids1 = fold (\<lambda>k m. set_cell m i k (to_cell (int (leaf_of F (bind0 features i) k)))) ks ids"
  define c where "c = sum_list (map (comparisons F (bind0 features i)) ks)"
  define scs1 where "scs1 = scs[t := scs ! t + c]"
  have ti: "t < length scs" "i < shape0 features" using Cons.prems(4) p by auto
  have wi: "\<forall>k\<in>set ks. returns_leaf F (bind0 features i) k" using Cons.prems(5) p by auto
  have step: "leaf_ids_worker to_cell F features ks t i (ids, scs) = Some ((ids1, scs1), Inr ())"
    using leaf_ids_impl_single[OF Cons.prems(1,2,3) ti(2) wi]
    by (simp add: leaf_ids_worker_apply ids1_def c_def scs1_def)
  have sh1: "shape0 ids1 = shape0 ids" "shape1 ids1 = shape1 ids"
    by (simp_all add: ids1_def shape_fold_set_cell)
  have pre1: "shape0 features = shape0 ids1" "shape1 ids1 = numRoots (graph F)"
    using Cons.prems(1,3) sh1 by simp_all
  have sched1: "\<forall>p\<in>set sched. fst p < length scs1 \<and> snd p < shape0 features"
    using Cons.prems(4) by (simp add: scs1_def)
  have walk1: "\<forall>p\<in>set sched. \<forall>k\<in>set ks. returns_leaf F (bind0 features (snd p)) k"
    using Cons.prems(5) by simp
  from Cons.IH[OF pre1(1) Cons.prems(2) pre1(2) sched1 walk1] obtain ids' scs' where
    r: "parallel_foreach sched (leaf_ids_worker to_cell F features ks) (ids1, scs1)
          = Some ((ids', scs'), Inr ())"
       "shape0 ids' = shape0 ids1" "shape1 ids' = shape1 ids1"
       "\<And>i k. cell ids' i k =
              (if i \<in> snd ` set sched \<and> k \<in> set ks
               then to_cell (int (leaf_of F (bind0 features i) k)) else cell ids1 i k)"
       "length scs' = length scs1"
       "sum_list scs' = sum_list scs1 +
             sum_list (map (\<lambda>p. sum_list (map (comparisons F (bind0 features (snd p))) ks)) sched)"
    by blast
  have run: "parallel_foreach (p # sched) (leaf_ids_worker to_cell F features ks) (ids, scs)
          = Some ((ids', scs'), Inr ())"
    using step r(1) by (simp add: p)
  have cells: "cell ids' i' k =
              (if i' \<in> snd ` set (p # sched) \<and> k \<in> set ks
               then to_cell (int (leaf_of F (bind0 features i') k)) else cell ids i' k)" for i' k
    using r(4)[of i' k] by (auto simp: p ids1_def cell_fold_set_cell)
  have sums: "sum_list scs' = sum_list scs +
             sum_list (map (\<lambda>p. sum_list (map (comparisons F (bind0 features (snd p))) ks)) (p # sched))"
    using r(6) sum_list_bump[OF ti(1), of c] by (simp add: scs1_def c_def p)
  show ?case
    using run r(2,3,5) sh1 cells sums by (intro exI[of _ ids'] exI[of _ scs']) (simp add: scs1_def)
qed

lemma leaf_ids_impl_shape:
  assumes "leaf_ids_impl to_cell F features ids i (Suc i) ks = Some (ids', r)"
  shows "shape0 ids' = shape0 ids \<and> shape1 ids' = shape1 ids"
proof (cases "shape0 features = shape0 ids \<and> shape1 features = num_features (problem_spec F) \<and>
    shape1 ids = numRoots (graph F) \<and> i < shape0 features")
  case True
  with assms obtain r' where "tree_loop to_cell F (bind0 features i) i ks ids 0 = Some (ids', r')"
    by (auto simp: leaf_ids_impl_unfold split: option.splits sum.splits)
  then show ?thesis by (rule tree_loop_shape)
next
  case False
  with assms show ?thesis
    by (auto simp: leaf_ids_impl_def split: if_splits)
qed

lemma parallel_foreach_success:
  assumes "parallel_foreach sched (leaf_ids_worker to_cell F features ks) (ids, scs)
             = Some (s', Inr u)"
    and "shape0 features = shape0 ids" "shape1 features = num_features (problem_spec F)"
    "shape1 ids = numRoots (graph F)"
    and "\<forall>p\<in>set sched. snd p < shape0 features"
  shows "\<forall>p\<in>set sched. \<forall>k\<in>set ks. returns_leaf F (bind0 features (snd p)) k"
  using assms
proof (induction sched arbitrary: ids scs)
  case Nil
  then show ?case by simp
next
  case (Cons p sched)
  obtain t i where p: "p = (t, i)" by (cases p)
  have i: "i < shape0 features" using Cons.prems(5) p by simp
  from Cons.prems(1) obtain ids1 c where
    impl: "leaf_ids_impl to_cell F features ids i (Suc i) ks = Some (ids1, Inr c)"
    and rest: "parallel_foreach sched (leaf_ids_worker to_cell F features ks)
                 (ids1, scs[t := scs ! t + c]) = Some (s', Inr u)"
    by (auto simp: p leaf_ids_worker_apply split: option.splits sum.splits)
  have here: "\<forall>k\<in>set ks. returns_leaf F (bind0 features i) k"
    using leaf_ids_impl_success[OF Cons.prems(2,3,4) i impl] .
  have sh: "shape0 features = shape0 ids1" "shape1 ids1 = numRoots (graph F)"
    using leaf_ids_impl_shape[OF impl] Cons.prems(2,4) by simp_all
  have "\<forall>p\<in>set sched. snd p < shape0 features" using Cons.prems(5) by simp
  from Cons.IH[OF rest sh(1) Cons.prems(3) sh(2) this] here
  show ?case by (simp add: p)
qed

lemma sum_list_schedule:
  assumes "distinct (map snd sched)" "set (map snd sched) = {..<n}"
  shows "sum_list (map (\<lambda>p. f (snd p)) sched) = sum_list (map (f :: nat \<Rightarrow> nat) [0..<n])"
proof -
  have "sum_list (map (\<lambda>p. f (snd p)) sched) = sum_list (map f (map snd sched))"
    by (simp add: comp_def)
  also have "\<dots> = sum f (set (map snd sched))"
    using assms(1) by (rule sum_list_distinct_conv_sum_set)
  also have "\<dots> = sum f (set [0..<n])"
    using assms(2) by (simp add: lessThan_atLeast0)
  also have "\<dots> = sum_list (map f [0..<n])"
    by (simp add: interv_sum_list_conv_sum_set_nat)
  finally show ?thesis .
qed

lemma leaf_ids_unfold:
  assumes "leaf_ids_pre F features ids tree_indices"
  shows "leaf_ids to_cell F hw sched features ids n_threads tree_indices =
      (case parallel_foreach sched
              (leaf_ids_worker to_cell F features (resolved_tree_indices (graph F) tree_indices))
              (fill ids (to_cell (- 1)), replicate (resolve_threads hw n_threads) 0) of
         None \<Rightarrow> None
       | Some ((ids', scs), Inl e) \<Rightarrow> Some (ids', Inl e)
       | Some ((ids', scs), Inr u) \<Rightarrow>
           Some (ids', Inr (Quotient (sum_list scs) (shape0 features))))"
proof -
  have "list_all (\<lambda>i. i < numRoots (graph F)) (std_set tree_indices)"
    using assms by (simp add: leaf_ids_pre_def list_all_iff)
  then show ?thesis
    using assms by (simp add: leaf_ids_def leaf_ids_pre_def resolved_tree_indices_def Let_def)
qed

lemma leaf_ids_failed_pre:
  assumes "\<not> leaf_ids_pre F features ids tree_indices"
  shows "\<exists>m. leaf_ids to_cell F hw sched features ids n_threads tree_indices =
           Some (ids, Inl (PreconditionViolation m))"
proof -
  have "list_all (\<lambda>i. i < numRoots (graph F)) (std_set tree_indices) \<longleftrightarrow>
        list_all (\<lambda>i. i < numRoots (graph F)) tree_indices"
    by (simp add: list_all_iff)
  then show ?thesis
    using assms by (auto simp: leaf_ids_def leaf_ids_pre_def)
qed

lemma leaf_ids_closed_form:
  assumes pre: "leaf_ids_pre F features ids tree_indices"
    and sched: "valid_schedule (resolve_threads hw n_threads) (shape0 features) sched"
    and walk: "all_returning F features (resolved_tree_indices (graph F) tree_indices)"
  shows "leaf_ids to_cell F hw sched features ids n_threads tree_indices =
           Some (leaf_id_matrix to_cell F features ids (resolved_tree_indices (graph F) tree_indices),
                 Inr (Quotient
                   (total_comparisons F features (resolved_tree_indices (graph F) tree_indices))
                   (shape0 features)))"
proof -
  define ks where "ks = resolved_tree_indices (graph F) tree_indices"
  define scs where "scs = replicate (resolve_threads hw n_threads) (0::nat)"
  have p: "shape0 features = shape0 ids" "shape1 features = num_features (problem_spec F)"
    "shape1 ids = numRoots (graph F)" "list_all (\<lambda>k. k < numRoots (graph F)) tree_indices"
    using pre by (simp_all add: leaf_ids_pre_def)
  have ks_range: "k \<in> set ks \<Longrightarrow> k < shape1 ids" for k
    using resolved_in_range[OF p(4)] p(3) by (simp add: ks_def)
  have s: "\<forall>p\<in>set sched. fst p < length scs \<and> snd p < shape0 features"
    using sched by (auto simp: valid_schedule_def list_all_iff scs_def)
  have w: "\<forall>p\<in>set sched. \<forall>k\<in>set ks. returns_leaf F (bind0 features (snd p)) k"
    using walk s by (auto simp: all_returning_def list_all_iff ks_def)
  have f: "shape0 features = shape0 (fill ids (to_cell (- 1)))" "shape1 (fill ids (to_cell (- 1))) = numRoots (graph F)"
    using p by (simp_all add: fill_def)
  from parallel_foreach_leaf_ids[OF f(1) p(2) f(2) s w] obtain ids' scs' where
    r: "parallel_foreach sched (leaf_ids_worker to_cell F features ks) (fill ids (to_cell (- 1)), scs)
          = Some ((ids', scs'), Inr ())"
       "shape0 ids' = shape0 (fill ids (to_cell (- 1)))" "shape1 ids' = shape1 (fill ids (to_cell (- 1)))"
       "\<And>i k. cell ids' i k =
              (if i \<in> snd ` set sched \<and> k \<in> set ks
               then to_cell (int (leaf_of F (bind0 features i) k)) else cell (fill ids (to_cell (- 1))) i k)"
       "sum_list scs' = sum_list scs +
             sum_list (map (\<lambda>p. sum_list (map (comparisons F (bind0 features (snd p))) ks)) sched)"
    by blast
  have items: "snd ` set sched = {..<shape0 ids}"
    using sched p(1) by (simp add: valid_schedule_def)
  have "cell ids' = cell (leaf_id_matrix to_cell F features ids ks)"
    using ks_range by (auto simp: fun_eq_iff r(4) items leaf_id_matrix_def fill_def)
  moreover have "shape0 ids' = shape0 (leaf_id_matrix to_cell F features ids ks)"
    "shape1 ids' = shape1 (leaf_id_matrix to_cell F features ids ks)"
    using r(2,3) by (simp_all add: leaf_id_matrix_def fill_def)
  ultimately have ids': "ids' = leaf_id_matrix to_cell F features ids ks"
    by (intro matrix.equality) simp_all
  have d: "distinct (map snd sched)" "set (map snd sched) = {..<shape0 features}"
    using sched by (simp_all add: valid_schedule_def)
  have "sum_list scs' = total_comparisons F features ks"
    unfolding r(5) total_comparisons_def
    by (subst sum_list_schedule[OF d]) (simp add: scs_def)
  then show ?thesis
    using r(1) ids' by (simp add: leaf_ids_unfold[OF pre] ks_def scs_def)
qed

lemma leaf_ids_success:
  assumes run: "leaf_ids to_cell F hw sched features ids n_threads tree_indices = Some (ids', Inr avg)"
    and sched: "valid_schedule (resolve_threads hw n_threads) (shape0 features) sched"
  shows "leaf_ids_pre F features ids tree_indices"
    and "all_returning F features (resolved_tree_indices (graph F) tree_indices)"
proof -
  show pre: "leaf_ids_pre F features ids tree_indices"
    using run leaf_ids_failed_pre[of F features ids tree_indices to_cell hw sched n_threads]
    by auto
  define ks where "ks = resolved_tree_indices (graph F) tree_indices"
  have p: "shape0 features = shape0 ids" "shape1 features = num_features (problem_spec F)"
    "shape1 ids = numRoots (graph F)"
    using pre by (simp_all add: leaf_ids_pre_def)
  have f: "shape0 features = shape0 (fill ids (to_cell (- 1)))" "shape1 (fill ids (to_cell (- 1))) = numRoots (graph F)"
    using p by (simp_all add: fill_def)
  from run obtain s' u where
    pf: "parallel_foreach sched (leaf_ids_worker to_cell F features ks)
           (fill ids (to_cell (- 1)), replicate (resolve_threads hw n_threads) 0) = Some (s', Inr u)"
    unfolding leaf_ids_unfold[OF pre] ks_def
    by (auto split: option.splits sum.splits)
  have items: "snd ` set sched = {..<shape0 features}"
    using sched by (simp add: valid_schedule_def)
  then have "\<forall>p\<in>set sched. snd p < shape0 features" by auto
  from parallel_foreach_success[OF pf f(1) p(2) f(2) this]
  have "\<forall>p\<in>set sched. \<forall>k\<in>set ks. returns_leaf F (bind0 features (snd p)) k" .
  then have "\<forall>i<shape0 features. \<forall>k\<in>set ks. returns_leaf F (bind0 features i) k"
    using items by (metis imageE lessThan_iff)
  then show "all_returning F features (resolved_tree_indices (graph F) tree_indices)"
    by (simp add: all_returning_def list_all_iff ks_def)
qed

lemma traverse_leaf:
  "children g n = None \<Longrightarrow> traverse g tests row n sc = Some (Inr (n, sc))"
  by (subst traverse.simps) (simp add: outDegree_def)

lemma traverse_inner:
  "children g n = Some (l, r) \<Longrightarrow> map_of tests n = Some t \<Longrightarrow> t row < 2 \<Longrightarrow>
   traverse g tests row n sc = traverse g tests row (if t row = 0 then l else r) (Suc sc)"
  by (subst traverse.simps) (auto simp: outDegree_def pm_at_def getChild_def)

lemma traverse_tree_below:
  "tree_below d g tests row n \<Longrightarrow>
   \<exists>leaf c. traverse g tests row n sc = Some (Inr (leaf, sc + c)) \<and>
            descends g tests row n c leaf \<and> children g leaf = None"
proof (induction d arbitrary: n sc)
  case 0
  then show ?case by simp
next
  case (Suc d)
  show ?case
  proof (cases "children g n")
    case None
    show ?thesis
      by (intro exI[of _ n] exI[of _ 0]) (simp add: traverse_leaf[OF None] descends_stop None)
  next
    case (Some lr)
    obtain l r where lr: "lr = (l, r)" by (cases lr)
    from Suc.prems Some lr obtain t where
      t: "map_of tests n = Some t" "t row < 2"
      and sub: "tree_below d g tests row l" "tree_below d g tests row r"
      by (auto split: option.splits)
    define m where "m = (if t row = 0 then l else r)"
    have "tree_below d g tests row m" using sub by (simp add: m_def)
    from Suc.IH[OF this, of "Suc sc"] obtain leaf c where
      r: "traverse g tests row m (Suc sc) = Some (Inr (leaf, Suc sc + c))"
         "descends g tests row m c leaf" "children g leaf = None"
      by blast
    have ch: "getChild g n (t row) = Some m"
      using Some lr t(2) by (auto simp: getChild_def m_def)
    have od: "outDegree g n = 2" using Some by (simp add: outDegree_def)
    have "traverse g tests row n sc = Some (Inr (leaf, sc + Suc c))"
      using traverse_inner[OF Some[unfolded lr] t, of sc] r(1) by (simp add: m_def)
    moreover have "descends g tests row n (Suc c) leaf"
      using descends_step[OF od t ch r(2)] .
    ultimately show ?thesis using r(3) by blast
  qed
qed

lemma walkable_returns_leaf:
  assumes "walkable F row k"
  shows "returns_leaf F row k"
    and "descends (graph F) (split_tests F) row (getRoot (graph F) k)
           (comparisons F row k) (leaf_of F row k)"
    and "children (graph F) (leaf_of F row k) = None"
proof -
  from traverse_tree_below[OF assms[unfolded walkable_def], of 0] obtain leaf c where
    r: "traverse (graph F) (split_tests F) row (getRoot (graph F) k) 0 = Some (Inr (leaf, c))"
       "descends (graph F) (split_tests F) row (getRoot (graph F) k) c leaf"
       "children (graph F) leaf = None"
    by auto
  have "reached F row k = (leaf, c)"
    using r(1) by (simp add: reached_def)
  then have eq: "leaf_of F row k = leaf" "comparisons F row k = c"
    by (simp_all add: leaf_of_def comparisons_def)
  show "returns_leaf F row k"
    using r(1) by (simp add: returns_leaf_def)
  show "descends (graph F) (split_tests F) row (getRoot (graph F) k)
           (comparisons F row k) (leaf_of F row k)"
    using r(2) eq by simp
  show "children (graph F) (leaf_of F row k) = None"
    using r(3) eq by simp
qed

lemma all_walkable_returning: "all_walkable F features ks \<Longrightarrow> all_returning F features ks"
  by (auto simp: all_walkable_def all_returning_def list_all_iff walkable_returns_leaf(1))

lemma valid_schedule_empty: "valid_schedule n_threads 0 sched \<Longrightarrow> sched = []"
  by (simp add: valid_schedule_def)

lemma fill_no_rows: "shape0 ids = 0 \<Longrightarrow> fill ids v = ids"
  by (simp add: fill_def)

lemma leaf_ids_impl_leaf_root:
  assumes "leaf_ids_pre F features ids [k]" "i < shape0 features"
    "outDegree (graph F) (getRoot (graph F) k) = 0"
  shows "leaf_ids_impl to_cell (F\<lparr>split_tests := tests\<rparr>) features ids i (i + 1) [k] =
           Some (set_cell ids i k (to_cell (int (getRoot (graph F) k))), Inr 0)"
proof -
  have "children (graph F) (getRoot (graph F) k) = None"
    using assms(3) by (simp add: outDegree_def split: option.splits)
  then show ?thesis
    using assms(1,2) by (simp add: leaf_ids_impl_def leaf_ids_pre_def traverse_leaf)
qed

section \<open>Lemmas about failures\<close>

lemma traverse_error_kind:
  "traverse g tests row n sc = Some y \<Longrightarrow> y = Inl e \<Longrightarrow> e = OutOfRange \<or> e = InvalidChild"
proof (induction g tests row n sc y rule: traverse.raw_induct[rotated 1, consumes 1, case_names step])
  case (step trav g tests row n sc y)
  then show ?case
    by (auto simp: pm_at_def split: if_splits sum.splits option.splits)
qed

lemma tree_loop_error_kind:
  "tree_loop to_cell F row i ks ids sc = Some (ids', Inl e) \<Longrightarrow> e = OutOfRange \<or> e = InvalidChild"
proof (induction ks arbitrary: ids sc)
  case Nil
  then show ?case by simp
next
  case (Cons k ks)
  show ?case
  proof (cases "traverse (graph F) (split_tests F) row (getRoot (graph F) k) sc")
    case None
    with Cons.prems show ?thesis by simp
  next
    case (Some y)
    show ?thesis
    proof (cases y)
      case (Inl e')
      with Cons.prems Some have "e' = e" by simp
      with traverse_error_kind[OF Some Inl] show ?thesis by simp
    next
      case (Inr p)
      obtain leaf c1 where p: "p = (leaf, c1)" by (cases p)
      from Cons.prems Some Inr p
      have "tree_loop to_cell F row i ks (set_cell ids i k (to_cell (int leaf))) c1 = Some (ids', Inl e)" by simp
      from Cons.IH[OF this] show ?thesis .
    qed
  qed
qed

lemma leaf_ids_impl_error_kind:
  assumes "shape0 features = shape0 ids" "shape1 features = num_features (problem_spec F)"
    "shape1 ids = numRoots (graph F)" "i < shape0 features"
    "leaf_ids_impl to_cell F features ids i (Suc i) ks = Some (ids', Inl e)"
  shows "e = OutOfRange \<or> e = InvalidChild"
proof -
  from assms(5) have "tree_loop to_cell F (bind0 features i) i ks ids 0 = Some (ids', Inl e)"
    unfolding leaf_ids_impl_unfold[OF assms(1-4)]
    by (auto split: option.splits sum.splits)
  then show ?thesis by (rule tree_loop_error_kind)
qed

lemma parallel_foreach_error_kind:
  assumes "parallel_foreach sched (leaf_ids_worker to_cell F features ks) (ids, scs)
             = Some (s', Inl e)"
    and "shape0 features = shape0 ids" "shape1 features = num_features (problem_spec F)"
    "shape1 ids = numRoots (graph F)"
    and "\<forall>p\<in>set sched. snd p < shape0 features"
  shows "e = OutOfRange \<or> e = InvalidChild"
  using assms
proof (induction sched arbitrary: ids scs)
  case Nil
  then show ?case by simp
next
  case (Cons p sched)
  obtain t i where p: "p = (t, i)" by (cases p)
  have i: "i < shape0 features" using Cons.prems(5) p by simp
  show ?case
  proof (cases "leaf_ids_impl to_cell F features ids i (Suc i) ks")
    case None
    with Cons.prems(1) show ?thesis by (simp add: p leaf_ids_worker_apply)
  next
    case (Some y)
    obtain ids1 r where y: "y = (ids1, r)" by (cases y)
    show ?thesis
    proof (cases r)
      case (Inl e')
      with Cons.prems(1) Some y have "e' = e" by (simp add: p leaf_ids_worker_apply)
      with leaf_ids_impl_error_kind[OF Cons.prems(2,3,4) i] Some y Inl show ?thesis by simp
    next
      case (Inr c)
      with Cons.prems(1) Some y
      have rest: "parallel_foreach sched (leaf_ids_worker to_cell F features ks)
                 (ids1, scs[t := scs ! t + c]) = Some (s', Inl e)"
        by (simp add: p leaf_ids_worker_apply)
      have sh: "shape0 features = shape0 ids1" "shape1 ids1 = numRoots (graph F)"
        using leaf_ids_impl_shape[of to_cell F features ids i ks ids1 r] Some y Cons.prems(2,4) by simp_all
      have "\<forall>p\<in>set sched. snd p < shape0 features" using Cons.prems(5) by simp
      from Cons.IH[OF rest sh(1) Cons.prems(3) sh(2) this] show ?thesis .
    qed
  qed
qed

lemma leaf_ids_error_kind:
  assumes "leaf_ids to_cell F hw sched features ids n_threads tree_indices = Some (ids', Inl e)"
    and "leaf_ids_pre F features ids tree_indices"
    and "valid_schedule (resolve_threads hw n_threads) (shape0 features) sched"
  shows "e = OutOfRange \<or> e = InvalidChild"
proof -
  have p: "shape0 features = shape0 ids" "shape1 features = num_features (problem_spec F)"
    "shape1 ids = numRoots (graph F)"
    using assms(2) by (simp_all add: leaf_ids_pre_def)
  have f: "shape0 features = shape0 (fill ids (to_cell (- 1)))" "shape1 (fill ids (to_cell (- 1))) = numRoots (graph F)"
    using p by (simp_all add: fill_def)
  from assms(1) obtain s' where
    pf: "parallel_foreach sched
           (leaf_ids_worker to_cell F features (resolved_tree_indices (graph F) tree_indices))
           (fill ids (to_cell (- 1)), replicate (resolve_threads hw n_threads) 0) = Some (s', Inl e)"
    unfolding leaf_ids_unfold[OF assms(2)]
    by (auto split: option.splits sum.splits)
  have "snd ` set sched = {..<shape0 features}"
    using assms(3) by (simp add: valid_schedule_def)
  then have "\<forall>p\<in>set sched. snd p < shape0 features" by auto
  from parallel_foreach_error_kind[OF pf f(1) p(2) f(2) this] show ?thesis .
qed

lemma leaf_ids_violation_untouched:
  assumes "leaf_ids to_cell F hw sched features ids n_threads tree_indices
             = Some (ids', Inl (PreconditionViolation m))"
    and "valid_schedule (resolve_threads hw n_threads) (shape0 features) sched"
  shows "ids' = ids"
proof (cases "leaf_ids_pre F features ids tree_indices")
  case True
  from leaf_ids_error_kind[OF assms(1) True assms(2)] show ?thesis by simp
next
  case False
  from leaf_ids_failed_pre[OF False, of to_cell hw sched n_threads] assms(1) show ?thesis by auto
qed

lemma list_all_std_set [simp]: "list_all P (std_set xs) \<longleftrightarrow> list_all P xs"
  by (simp add: list_all_iff)

lemma leaf_ids_failed_message:
  assumes "\<not> leaf_ids_pre F features ids tree_indices"
  shows "\<exists>m\<in>set leaf_ids_messages. leaf_ids to_cell F hw sched features ids n_threads tree_indices =
           Some (ids, Inl (PreconditionViolation m))"
proof -
  have len: "length leaf_ids_messages = 4" by (simp add: leaf_ids_messages_def)
  consider (a) "shape0 features \<noteq> shape0 ids"
    | (b) "shape0 features = shape0 ids" "shape1 features \<noteq> num_features (problem_spec F)"
    | (c) "shape0 features = shape0 ids" "shape1 features = num_features (problem_spec F)"
          "shape1 ids \<noteq> numRoots (graph F)"
    | (d) "shape0 features = shape0 ids" "shape1 features = num_features (problem_spec F)"
          "shape1 ids = numRoots (graph F)"
          "\<not> list_all (\<lambda>i. i < numRoots (graph F)) (std_set tree_indices)"
    using assms by (auto simp: leaf_ids_pre_def)
  then show ?thesis
  proof cases
    case a
    then have "leaf_ids to_cell F hw sched features ids n_threads tree_indices =
        Some (ids, Inl (PreconditionViolation (leaf_ids_messages ! 0)))"
      by (simp add: leaf_ids_def leaf_ids_messages_def)
    moreover have "leaf_ids_messages ! 0 \<in> set leaf_ids_messages"
      by (rule nth_mem) (simp add: len)
    ultimately show ?thesis by blast
  next
    case b
    then have "leaf_ids to_cell F hw sched features ids n_threads tree_indices =
        Some (ids, Inl (PreconditionViolation (leaf_ids_messages ! 1)))"
      by (simp add: leaf_ids_def leaf_ids_messages_def)
    moreover have "leaf_ids_messages ! 1 \<in> set leaf_ids_messages"
      by (rule nth_mem) (simp add: len)
    ultimately show ?thesis by blast
  next
    case c
    then have "leaf_ids to_cell F hw sched features ids n_threads tree_indices =
        Some (ids, Inl (PreconditionViolation (leaf_ids_messages ! 2)))"
      by (simp add: leaf_ids_def leaf_ids_messages_def)
    moreover have "leaf_ids_messages ! 2 \<in> set leaf_ids_messages"
      by (rule nth_mem) (simp add: len)
    ultimately show ?thesis by blast
  next
    case d
    then have "leaf_ids to_cell F hw sched features ids n_threads tree_indices =
        Some (ids, Inl (PreconditionViolation (leaf_ids_messages ! 3)))"
      by (simp add: leaf_ids_def leaf_ids_messages_def)
    moreover have "leaf_ids_messages ! 3 \<in> set leaf_ids_messages"
      by (rule nth_mem) (simp add: len)
    ultimately show ?thesis by blast
  qed
qed

lemma leaf_ids_pre_new_matrix:
  assumes "predict_proba_pre F features probs tree_indices"
  shows "leaf_ids_pre F features (new_matrix (shape0 features) (numRoots (graph F)))
           (resolved_tree_indices (graph F) tree_indices)"
proof -
  have r: "list_all (\<lambda>k. k < numRoots (graph F)) tree_indices"
    using assms by (simp add: predict_proba_pre_def)
  have "\<forall>k\<in>set (resolved_tree_indices (graph F) tree_indices). k < numRoots (graph F)"
    using resolved_in_range[OF r] by blast
  then have "list_all (\<lambda>k. k < numRoots (graph F)) (resolved_tree_indices (graph F) tree_indices)"
    by (simp only: list_all_iff)
  then show ?thesis
    using assms by (simp add: predict_proba_pre_def leaf_ids_pre_def new_matrix_def)
qed

lemma predict_proba_unfold:
  assumes "predict_proba_pre F features probs tree_indices"
  shows "predict_proba F A hw sched features probs n_threads tree_indices =
     (case leaf_ids size_t_cell F hw sched features (new_matrix (shape0 features) (numRoots (graph F)))
             n_threads (resolved_tree_indices (graph F) tree_indices) of
        None \<Rightarrow> None
      | Some (ids, Inl e) \<Rightarrow> Some (probs, Inl e)
      | Some (ids, Inr average_split_counts) \<Rightarrow>
          (case proba_loop (acc_call A) (node_responses F) ids
                  (resolved_tree_indices (graph F) tree_indices)
                  [0..<shape0 features] (acc_init A) probs of
             (probs', Inl e) \<Rightarrow> Some (probs', Inl e)
           | (probs', Inr u) \<Rightarrow> Some (probs', Inr average_split_counts)))"
proof -
  have p: "shape0 features = shape0 probs" "shape1 features = num_features (problem_spec F)"
    "shape1 probs = num_classes (problem_spec F)"
    "list_all (\<lambda>i. i < numRoots (graph F)) (std_set tree_indices)"
    using assms by (simp_all add: predict_proba_pre_def)
  show ?thesis
    unfolding predict_proba_def
    by (simp only: p Let_def resolved_tree_indices_def simp_thms if_False if_True)
qed

lemma predict_proba_failed_message:
  assumes "\<not> predict_proba_pre F features probs tree_indices"
  shows "\<exists>m\<in>set predict_proba_messages. predict_proba F A hw sched features probs n_threads tree_indices =
           Some (probs, Inl (PreconditionViolation m))"
proof -
  have len: "length predict_proba_messages = 4" by (simp add: predict_proba_messages_def)
  consider (a) "shape0 features \<noteq> shape0 probs"
    | (b) "shape0 features = shape0 probs" "shape1 features \<noteq> num_features (problem_spec F)"
    | (c) "shape0 features = shape0 probs" "shape1 features = num_features (problem_spec F)"
          "shape1 probs \<noteq> num_classes (problem_spec F)"
    | (d) "shape0 features = shape0 probs" "shape1 features = num_features (problem_spec F)"
          "shape1 probs = num_classes (problem_spec F)"
          "\<not> list_all (\<lambda>i. i < numRoots (graph F)) (std_set tree_indices)"
    using assms by (auto simp: predict_proba_pre_def)
  then show ?thesis
  proof cases
    case a
    then have "predict_proba F A hw sched features probs n_threads tree_indices =
        Some (probs, Inl (PreconditionViolation (predict_proba_messages ! 0)))"
      by (simp add: predict_proba_def predict_proba_messages_def)
    moreover have "predict_proba_messages ! 0 \<in> set predict_proba_messages"
      by (rule nth_mem) (simp add: len)
    ultimately show ?thesis by blast
  next
    case b
    then have "predict_proba F A hw sched features probs n_threads tree_indices =
        Some (probs, Inl (PreconditionViolation (predict_proba_messages ! 1)))"
      by (simp add: predict_proba_def predict_proba_messages_def)
    moreover have "predict_proba_messages ! 1 \<in> set predict_proba_messages"
      by (rule nth_mem) (simp add: len)
    ultimately show ?thesis by blast
  next
    case c
    then have "predict_proba F A hw sched features probs n_threads tree_indices =
        Some (probs, Inl (PreconditionViolation (predict_proba_messages ! 2)))"
      by (simp add: predict_proba_def predict_proba_messages_def)
    moreover have "predict_proba_messages ! 2 \<in> set predict_proba_messages"
      by (rule nth_mem) (simp add: len)
    ultimately show ?thesis by blast
  next
    case d
    then have "predict_proba F A hw sched features probs n_threads tree_indices =
        Some (probs, Inl (PreconditionViolation (predict_proba_messages ! 3)))"
      by (simp add: predict_proba_def predict_proba_messages_def)
    moreover have "predict_proba_messages ! 3 \<in> set predict_proba_messages"
      by (rule nth_mem) (simp add: len)
    ultimately show ?thesis by blast
  qed
qed

lemma tree_results_loop_error_kind:
  "tree_results_loop responses ids i ks acc = Inl e \<Longrightarrow> e = OutOfRange"
  by (induction ks arbitrary: acc) (auto simp: pm_at_def split: option.splits sum.splits)

lemma proba_loop_error_kind:
  "proba_loop acc responses ids ks samples st probs = (probs', Inl e) \<Longrightarrow> e = OutOfRange"
proof (induction samples arbitrary: st probs)
  case Nil
  then show ?case by simp
next
  case (Cons i samples)
  show ?case
  proof (cases "tree_results_loop responses ids i ks []")
    case (Inl e')
    with Cons.prems have "e' = e" by simp
    with tree_results_loop_error_kind[OF Inl] show ?thesis by simp
  next
    case (Inr tree_results)
    obtain st' sub_probs where a: "acc st tree_results (bind0 probs i) = (st', sub_probs)"
      by (cases "acc st tree_results (bind0 probs i)")
    from Cons.prems Inr a
    have "proba_loop acc responses ids ks samples st' (set_row probs i sub_probs) = (probs', Inl e)"
      by simp
    from Cons.IH[OF this] show ?thesis .
  qed
qed

lemma predict_proba_violation_untouched:
  assumes "predict_proba F A hw sched features probs n_threads tree_indices
             = Some (probs', Inl (PreconditionViolation m))"
  shows "probs' = probs"
proof (cases "predict_proba_pre F features probs tree_indices")
  case False
  from predict_proba_failed_message[OF False, of A hw sched n_threads] assms show ?thesis by auto
next
  case True
  show ?thesis
  proof (cases "leaf_ids size_t_cell F hw sched features (new_matrix (shape0 features) (numRoots (graph F)))
             n_threads (resolved_tree_indices (graph F) tree_indices)")
    case None
    with assms show ?thesis by (simp add: predict_proba_unfold[OF True])
  next
    case (Some y)
    obtain ids r where y: "y = (ids, r)" by (cases y)
    show ?thesis
    proof (cases r)
      case (Inl e)
      with assms Some y show ?thesis by (simp add: predict_proba_unfold[OF True])
    next
      case (Inr avg)
      obtain p2 r2 where pl: "proba_loop (acc_call A) (node_responses F) ids
                  (resolved_tree_indices (graph F) tree_indices)
                  [0..<shape0 features] (acc_init A) probs = (p2, r2)"
        by (cases "proba_loop (acc_call A) (node_responses F) ids
                  (resolved_tree_indices (graph F) tree_indices)
                  [0..<shape0 features] (acc_init A) probs")
      show ?thesis
      proof (cases r2)
        case (Inl e)
        with proba_loop_error_kind[of "acc_call A" "node_responses F" ids _ _ "acc_init A" probs p2 e] pl
        have "e = OutOfRange" by simp
        with assms Some y Inr pl Inl show ?thesis by (simp add: predict_proba_unfold[OF True])
      next
        case (Inr u)
        with assms Some y \<open>r = Inr avg\<close> pl show ?thesis by (simp add: predict_proba_unfold[OF True])
      qed
    qed
  qed
qed

lemma predict_unfold:
  assumes "shape0 features = length labels" "shape1 features = num_features (problem_spec F)"
  shows "predict F A hw sched features labels n_threads tree_indices =
        (case predict_proba F A hw sched features
                (new_matrix (shape0 features) (num_classes (problem_spec F)))
                n_threads tree_indices of
           None \<Rightarrow> None
         | Some (probs, Inl e) \<Rightarrow> Some (labels, Inl e)
         | Some (probs, Inr average_split_counts) \<Rightarrow>
             (case label_loop (problem_spec F) probs [0..<shape0 features] labels of
                (labels', Inl e) \<Rightarrow> Some (labels', Inl e)
              | (labels', Inr u) \<Rightarrow> Some (labels', Inr average_split_counts)))"
  using assms by (simp add: predict_def)

lemma predict_proba_pre_new_matrix:
  "predict_proba_pre F features (new_matrix (shape0 features) (num_classes (problem_spec F)) :: 'p::zero matrix)
     tree_indices \<longleftrightarrow>
   shape1 features = num_features (problem_spec F) \<and>
   list_all (\<lambda>k. k < numRoots (graph F)) tree_indices"
  by (simp add: predict_proba_pre_def new_matrix_def)

lemma predict_failed_message:
  assumes "\<not> predict_pre F features labels tree_indices"
  shows "\<exists>m\<in>set (predict_messages @ predict_proba_messages).
           predict F (A :: ('s, 'r, 'p::{linorder,zero}) accumulator) hw sched features labels
               n_threads tree_indices =
             Some (labels, Inl (PreconditionViolation m))"
proof -
  have len: "length predict_messages = 2" by (simp add: predict_messages_def)
  consider (a) "shape0 features \<noteq> length labels"
    | (b) "shape0 features = length labels" "shape1 features \<noteq> num_features (problem_spec F)"
    | (c) "shape0 features = length labels" "shape1 features = num_features (problem_spec F)"
          "\<not> list_all (\<lambda>k. k < numRoots (graph F)) tree_indices"
    using assms by (auto simp: predict_pre_def)
  then show ?thesis
  proof cases
    case a
    then have "predict F A hw sched features labels n_threads tree_indices =
        Some (labels, Inl (PreconditionViolation (predict_messages ! 0)))"
      by (simp add: predict_def predict_messages_def)
    moreover have "predict_messages ! 0 \<in> set predict_messages"
      by (rule nth_mem) (simp add: len)
    ultimately show ?thesis by auto
  next
    case b
    then have "predict F A hw sched features labels n_threads tree_indices =
        Some (labels, Inl (PreconditionViolation (predict_messages ! 1)))"
      by (simp add: predict_def predict_messages_def)
    moreover have "predict_messages ! 1 \<in> set predict_messages"
      by (rule nth_mem) (simp add: len)
    ultimately show ?thesis by auto
  next
    case c
    have "\<not> predict_proba_pre F features
        (new_matrix (shape0 features) (num_classes (problem_spec F)) :: 'p matrix) tree_indices"
      unfolding predict_proba_pre_new_matrix using c(3) by simp
    from predict_proba_failed_message[OF this, of A hw sched n_threads] obtain m where
      m: "m \<in> set predict_proba_messages"
         "predict_proba F A hw sched features
            (new_matrix (shape0 features) (num_classes (problem_spec F))) n_threads tree_indices =
          Some (new_matrix (shape0 features) (num_classes (problem_spec F)),
                Inl (PreconditionViolation m))"
      by blast
    have "predict F A hw sched features labels n_threads tree_indices =
        Some (labels, Inl (PreconditionViolation m))"
      using c(1,2) m(2) by (simp add: predict_unfold)
    with m(1) show ?thesis by auto
  qed
qed

lemma label_loop_error_kind:
  "label_loop spec probs samples labels = (labels', Inl e) \<Longrightarrow> e = OutOfBounds"
  by (induction samples arbitrary: labels) (auto simp: Let_def split: if_splits)

lemma predict_violation_untouched:
  assumes "predict F A hw sched features labels n_threads tree_indices
             = Some (labels', Inl (PreconditionViolation m))"
  shows "labels' = labels"
proof (cases "shape0 features = length labels \<and> shape1 features = num_features (problem_spec F)")
  case False
  with assms show ?thesis by (auto simp: predict_def split: if_splits)
next
  case True
  then have u: "shape0 features = length labels" "shape1 features = num_features (problem_spec F)"
    by simp_all
  show ?thesis
  proof (cases "predict_proba F A hw sched features
                (new_matrix (shape0 features) (num_classes (problem_spec F)))
                n_threads tree_indices")
    case None
    with assms show ?thesis by (simp add: predict_unfold[OF u])
  next
    case (Some y)
    obtain probs r where y: "y = (probs, r)" by (cases y)
    show ?thesis
    proof (cases r)
      case (Inl e)
      with assms Some y show ?thesis by (simp add: predict_unfold[OF u])
    next
      case (Inr avg)
      obtain l2 r2 where ll: "label_loop (problem_spec F) probs [0..<shape0 features] labels = (l2, r2)"
        by (cases "label_loop (problem_spec F) probs [0..<shape0 features] labels")
      show ?thesis
      proof (cases r2)
        case (Inl e)
        with label_loop_error_kind[of "problem_spec F" probs _ labels l2 e] ll
        have "e = OutOfBounds" by simp
        with assms Some y Inr ll Inl show ?thesis by (simp add: predict_unfold[OF u])
      next
        case (Inr u2)
        with assms Some y \<open>r = Inr avg\<close> ll show ?thesis by (simp add: predict_unfold[OF u])
      qed
    qed
  qed
qed

lemma merge_failed_message:
  assumes "problem_spec F \<noteq> problem_spec other"
  shows "\<exists>m\<in>set merge_messages. merge F other = (F, Inl (PreconditionViolation m))"
  using assms by (simp add: merge_def merge_messages_def)

lemma merge_failure_untouched: "merge F other = (F', Inl e) \<Longrightarrow> F' = F"
  by (auto simp: merge_def Let_def split: if_splits)

lemma wide_leaf_ids:
  "leaf_ids to_cell test_forest 4 one_worker_schedule wide_x (new_matrix 8 1) 1 [] =
     Some (new_matrix 8 1, Inl (PreconditionViolation
       ''RandomForest::leaf_ids(): Number of features in prediction differs from training.''))"
  by (simp add: leaf_ids_def wide_x_def new_matrix_def test_forest_def)

lemma wide_predict_proba:
  "predict_proba test_forest vote_acc 4 one_worker_schedule wide_x (new_matrix 8 4) 1 [] =
     Some (new_matrix 8 4, Inl (PreconditionViolation
       ''RandomForest::predict_proba(): Number of features in prediction differs from training.''))"
  by (simp add: predict_proba_def wide_x_def new_matrix_def test_forest_def)

lemma wide_predict:
  "predict test_forest vote_acc 4 one_worker_schedule wide_x (replicate 8 0) 1 [] =
     Some (replicate 8 0, Inl (PreconditionViolation
       ''RandomForest::predict(): Number of features in prediction differs from training.''))"
  by (simp add: predict_def wide_x_def new_matrix_def test_forest_def)

lemma other_spec_merge:
  "merge test_forest other_spec_forest =
     (test_forest, Inl (PreconditionViolation
       ''RandomForest::merge(): You cannot merge with different problem specs.''))"
  by (simp add: merge_def test_forest_def other_spec_forest_def single_leaf_forest_def)

section \<open>Lemmas about probabilities and labels\<close>

lemma tree_results_loop_closed_form:
  "tree_results_loop responses ids i ks acc =
     (if \<forall>k\<in>set ks. map_of responses (cell ids i k) \<noteq> None
      then Inr (acc @ map (\<lambda>k. the (map_of responses (cell ids i k))) ks)
      else Inl OutOfRange)"
proof (induction ks arbitrary: acc)
  case Nil
  then show ?case by simp
next
  case (Cons k ks)
  show ?case
  proof (cases "map_of responses (cell ids i k)")
    case None
    then show ?thesis by (simp add: pm_at_def)
  next
    case (Some v)
    then show ?thesis by (simp add: pm_at_def Cons.IH)
  qed
qed

lemma proba_loop_cong:
  assumes "\<forall>i\<in>set samples.
     tree_results_loop R ids i ks [] = tree_results_loop R' ids' i ks' []"
  shows "proba_loop acc R ids ks samples st probs = proba_loop acc R' ids' ks' samples st probs"
  using assms
proof (induction samples arbitrary: st probs)
  case Nil
  then show ?case by simp
next
  case (Cons i samples)
  have here: "tree_results_loop R ids i ks [] = tree_results_loop R' ids' i ks' []"
    using Cons.prems by simp
  have rest: "\<forall>i\<in>set samples.
     tree_results_loop R ids i ks [] = tree_results_loop R' ids' i ks' []"
    using Cons.prems by simp
  show ?case
    by (simp add: here Cons.IH[OF rest] split: sum.splits prod.splits)
qed

lemma proba_loop_success:
  "proba_loop acc R ids ks samples st probs = (probs', Inr u) \<Longrightarrow>
     \<forall>i\<in>set samples. \<exists>rs. tree_results_loop R ids i ks [] = Inr rs"
proof (induction samples arbitrary: st probs)
  case Nil
  then show ?case by simp
next
  case (Cons i samples)
  from Cons.prems obtain rs where rs: "tree_results_loop R ids i ks [] = Inr rs"
    by (cases "tree_results_loop R ids i ks []") auto
  obtain st' sub_probs where a: "acc st rs (bind0 probs i) = (st', sub_probs)"
    by (cases "acc st rs (bind0 probs i)")
  from Cons.prems rs a
  have "proba_loop acc R ids ks samples st' (set_row probs i sub_probs) = (probs', Inr u)"
    by simp
  from Cons.IH[OF this] rs show ?case by simp
qed

lemma proba_loop_returns:
  assumes "\<forall>i\<in>set samples. \<exists>rs. tree_results_loop R ids i ks [] = Inr rs"
  shows "\<exists>probs'. proba_loop acc R ids ks samples st probs = (probs', Inr ())"
  using assms
proof (induction samples arbitrary: st probs)
  case Nil
  then show ?case by simp
next
  case (Cons i samples)
  from Cons.prems obtain rs where rs: "tree_results_loop R ids i ks [] = Inr rs"
    by auto
  obtain st' sub_probs where a: "acc st rs (bind0 probs i) = (st', sub_probs)"
    by (cases "acc st rs (bind0 probs i)")
  have "\<forall>i\<in>set samples. \<exists>rs. tree_results_loop R ids i ks [] = Inr rs"
    using Cons.prems by simp
  from Cons.IH[OF this, of st' "set_row probs i sub_probs"] rs a show ?case by simp
qed

lemma proba_loop_closed_form:
  assumes "\<forall>i<n. tree_results_loop R ids i ks [] = Inr (rs i)" and "m \<le> n"
  shows "proba_loop (acc_call A) R ids ks [m..<n] (acc_state_before A rs probs m)
           (proba_matrix A rs probs m) =
         (proba_matrix A rs probs n, Inr ())"
  using assms(2)
proof (induction "n - m" arbitrary: m)
  case 0
  then show ?case by simp
next
  case (Suc d)
  then have m: "m < n" and d: "d = n - Suc m" and le: "Suc m \<le> n" by simp_all
  have here: "tree_results_loop R ids m ks [] = Inr (rs m)" using assms(1) m by simp
  have row: "bind0 (proba_matrix A rs probs m) m = bind0 probs m"
    by (simp add: proba_matrix_def bind0_def)
  obtain st' sub_probs where
    a: "acc_call A (acc_state_before A rs probs m) (rs m) (bind0 probs m) = (st', sub_probs)"
    by (cases "acc_call A (acc_state_before A rs probs m) (rs m) (bind0 probs m)")
  have st': "st' = acc_state_before A rs probs (Suc m)" using a by simp
  have next_matrix: "set_row (proba_matrix A rs probs m) m sub_probs = proba_matrix A rs probs (Suc m)"
    using a by (auto simp: set_row_def proba_matrix_def fun_eq_iff bind0_def less_Suc_eq)
  have "proba_loop (acc_call A) R ids ks [m..<n] (acc_state_before A rs probs m)
           (proba_matrix A rs probs m) =
        proba_loop (acc_call A) R ids ks [Suc m..<n] st'
           (set_row (proba_matrix A rs probs m) m sub_probs)"
    using m here row a by (simp add: upt_conv_Cons)
  also have "\<dots> = (proba_matrix A rs probs n, Inr ())"
    unfolding st' next_matrix using Suc.hyps(1)[OF d le] .
  finally show ?case .
qed

lemma size_t_leaf_id_cell:
  assumes "i < n" "k \<in> set ks" "k < c"
  shows "cell (leaf_id_matrix size_t_cell F features (new_matrix n c) ks) i k =
           leaf_of F (bind0 features i) k"
  using assms by (simp add: leaf_id_matrix_def new_matrix_def)

lemma tree_results_loop_leaf_ids:
  assumes "i < shape0 features"
    and "\<forall>k\<in>set ks. k < c"
    and "\<forall>k\<in>set ks. map_of (node_responses F) (leaf_of F (bind0 features i) k) \<noteq> None"
  shows "tree_results_loop (node_responses F)
           (leaf_id_matrix size_t_cell F features (new_matrix (shape0 features) c) ks) i ks [] =
         Inr (tree_responses F features ks i)"
proof -
  have "\<forall>k\<in>set ks. cell (leaf_id_matrix size_t_cell F features (new_matrix (shape0 features) c) ks) i k
          = leaf_of F (bind0 features i) k"
    using assms(1,2) by (simp add: size_t_leaf_id_cell)
  then show ?thesis
    using assms(3) by (simp add: tree_results_loop_closed_form tree_responses_def)
qed

lemma proba_matrix_0: "proba_matrix A rs probs 0 = probs"
  by (simp add: proba_matrix_def)

lemma resolved_all_in_range:
  "list_all (\<lambda>k. k < numRoots g) tis \<Longrightarrow> \<forall>k\<in>set (resolved_tree_indices g tis). k < numRoots g"
  using resolved_in_range by blast

lemma predict_proba_closed_form:
  assumes pre: "predict_proba_pre F features probs tree_indices"
    and sched: "valid_schedule (resolve_threads hw n_threads) (shape0 features) sched"
    and ret: "all_returning F features (resolved_tree_indices (graph F) tree_indices)"
    and resp: "responses_defined F features (resolved_tree_indices (graph F) tree_indices)"
  shows "predict_proba F A hw sched features probs n_threads tree_indices =
           Some (proba_matrix A
                   (tree_responses F features (resolved_tree_indices (graph F) tree_indices))
                   probs (shape0 features),
                 Inr (Quotient
                   (total_comparisons F features (resolved_tree_indices (graph F) tree_indices))
                   (shape0 features)))"
proof -
  define ks where "ks = resolved_tree_indices (graph F) tree_indices"
  define ids0 :: "nat matrix" where "ids0 = new_matrix (shape0 features) (numRoots (graph F))"
  have pre': "leaf_ids_pre F features ids0 ks"
    unfolding ids0_def ks_def using pre by (rule leaf_ids_pre_new_matrix)
  have ret': "all_returning F features (resolved_tree_indices (graph F) ks)"
    using ret by (simp add: ks_def)
  have run: "leaf_ids size_t_cell F hw sched features ids0 n_threads ks =
      Some (leaf_id_matrix size_t_cell F features ids0 ks,
            Inr (Quotient (total_comparisons F features ks) (shape0 features)))"
    using leaf_ids_closed_form[OF pre' sched ret'] by (simp add: ks_def)
  have range: "\<forall>k\<in>set ks. k < numRoots (graph F)"
    unfolding ks_def using pre by (intro resolved_all_in_range) (simp add: predict_proba_pre_def)
  have gather: "\<forall>i<shape0 features.
      tree_results_loop (node_responses F) (leaf_id_matrix size_t_cell F features ids0 ks) i ks [] =
        Inr (tree_responses F features ks i)"
  proof (intro allI impI)
    fix i assume i: "i < shape0 features"
    have "\<forall>k\<in>set ks. map_of (node_responses F) (leaf_of F (bind0 features i) k) \<noteq> None"
      using resp i by (simp add: responses_defined_def list_all_iff ks_def)
    from tree_results_loop_leaf_ids[OF i range this]
    show "tree_results_loop (node_responses F) (leaf_id_matrix size_t_cell F features ids0 ks) i ks [] =
        Inr (tree_responses F features ks i)"
      by (simp add: ids0_def)
  qed
  have loop: "proba_loop (acc_call A) (node_responses F) (leaf_id_matrix size_t_cell F features ids0 ks) ks
      [0..<shape0 features] (acc_init A) probs =
      (proba_matrix A (tree_responses F features ks) probs (shape0 features), Inr ())"
    using proba_loop_closed_form[OF gather, of 0 A probs] by (simp add: proba_matrix_0)
  show ?thesis
    unfolding predict_proba_unfold[OF pre] ks_def[symmetric] ids0_def[symmetric]
    by (simp add: run loop)
qed

lemma upt_8: "[0..<8] = [0, 1, 2, 3, 4, 5, 6, 7::nat]"
  by (simp add: upt_rec)

lemma shape_test_x: "shape0 test_x = 8" "shape1 test_x = 2"
  by (simp_all add: test_x_def matrix_of_def)

lemma resolved_test: "resolved_tree_indices (graph test_forest) [] = [0]"
  by (simp add: resolved_tree_indices_def std_set_def test_forest_def test_graph_def numRoots_def)

lemma reached_test:
  "reached test_forest (bind0 test_x 0) 0 = (3, 2)"
  "reached test_forest (bind0 test_x (Suc 0)) 0 = (3, 2)"
  "reached test_forest (bind0 test_x 2) 0 = (4, 2)"
  "reached test_forest (bind0 test_x 3) 0 = (4, 2)"
  "reached test_forest (bind0 test_x 4) 0 = (5, 2)"
  "reached test_forest (bind0 test_x 5) 0 = (5, 2)"
  "reached test_forest (bind0 test_x 6) 0 = (6, 2)"
  "reached test_forest (bind0 test_x 7) 0 = (6, 2)"
  by (simp_all add: reached_def test_forest_def test_graph_def test_x_def matrix_of_def
      LessEqualSplitTest_def getRoot_def bind0_def traverse.simps outDegree_def pm_at_def
      getChild_def)

lemma walkable_test: "all_walkable test_forest test_x [0]"
  by (simp add: all_walkable_def walkable_def shape_test_x upt_8)
     (simp add: test_forest_def test_graph_def num_nodes_def numNodes_def getRoot_def
        eval_nat_numeral LessEqualSplitTest_def test_x_def matrix_of_def bind0_def)

lemma responses_test: "responses_defined test_forest test_x [0]"
  by (simp add: responses_defined_def shape_test_x upt_8 leaf_of_def reached_test)
     (simp add: test_forest_def)

lemma total_test: "total_comparisons test_forest test_x [0] = 16"
  by (simp add: total_comparisons_def shape_test_x upt_8 comparisons_def reached_test)

lemma tree_responses_test:
  "tree_responses test_forest test_x [0] 0 = [0]"
  "tree_responses test_forest test_x [0] (Suc 0) = [0]"
  "tree_responses test_forest test_x [0] 2 = [1]"
  "tree_responses test_forest test_x [0] 3 = [1]"
  "tree_responses test_forest test_x [0] 4 = [2]"
  "tree_responses test_forest test_x [0] 5 = [2]"
  "tree_responses test_forest test_x [0] 6 = [3]"
  "tree_responses test_forest test_x [0] 7 = [3]"
  by (simp_all add: tree_responses_def leaf_of_def reached_test, simp_all add: test_forest_def)

lemma max_element_first_max:
  assumes "0 < n"
  shows "first_max sub_probs n (max_element sub_probs n)"
proof -
  define step where "step = (\<lambda>j largest. if sub_probs largest < sub_probs j then j else largest)"
  have "first_max sub_probs (Suc m) (fold step [1..<Suc m] 0)" for m
  proof (induction m)
    case 0
    show ?case by (simp add: first_max_def)
  next
    case (Suc m)
    define j where "j = fold step [1..<Suc m] 0"
    have "first_max sub_probs (Suc m) j"
      using Suc.IH unfolding j_def .
    then have fm: "j < Suc m" "\<forall>j'<Suc m. sub_probs j' \<le> sub_probs j"
      "\<forall>j'<j. sub_probs j' < sub_probs j"
      by (simp_all add: first_max_def)
    have "[1..<Suc (Suc m)] = [1..<Suc m] @ [Suc m]" by simp
    then have unfold: "fold step [1..<Suc (Suc m)] 0 = step (Suc m) j"
      by (simp only: fold_append fold_simps comp_apply j_def id_apply)
    show ?case
    proof (cases "sub_probs j < sub_probs (Suc m)")
      case True
      then have "step (Suc m) j = Suc m" by (simp add: step_def)
      moreover have "first_max sub_probs (Suc (Suc m)) (Suc m)"
        unfolding first_max_def
      proof (intro conjI allI impI)
        show "Suc m < Suc (Suc m)" by simp
      next
        fix j' assume "j' < Suc (Suc m)"
        then consider "j' < Suc m" | "j' = Suc m" by linarith
        then show "sub_probs j' \<le> sub_probs (Suc m)"
          using fm(2) True by cases (auto intro: order.trans less_imp_le)
      next
        fix j' assume "j' < Suc m"
        then show "sub_probs j' < sub_probs (Suc m)"
          using fm(2) True by (auto intro: le_less_trans)
      qed
      ultimately show ?thesis by (simp only: unfold)
    next
      case False
      then have "step (Suc m) j = j" by (simp add: step_def)
      moreover have "first_max sub_probs (Suc (Suc m)) j"
        unfolding first_max_def
      proof (intro conjI allI impI)
        show "j < Suc (Suc m)" using fm(1) by simp
      next
        fix j' assume "j' < Suc (Suc m)"
        then consider "j' < Suc m" | "j' = Suc m" by linarith
        then show "sub_probs j' \<le> sub_probs j"
          using fm(2) False by cases auto
      next
        fix j' assume "j' < j"
        then show "sub_probs j' < sub_probs j" using fm(3) by simp
      qed
      ultimately show ?thesis by (simp only: unfold)
    qed
  qed
  from this[of "n - 1"] assms show ?thesis
    by (simp add: max_element_def step_def)
qed

lemma label_loop_closed_form:
  assumes "\<forall>i\<in>set samples. i < length labels"
    and "\<forall>i\<in>set samples. max_element (bind0 probs i) (shape1 probs) < length (distinct_classes spec)"
  shows "\<exists>labels'. label_loop spec probs samples labels = (labels', Inr ()) \<and>
           length labels' = length labels \<and>
           (\<forall>i<length labels. labels' ! i =
              (if i \<in> set samples
               then distinct_classes spec ! max_element (bind0 probs i) (shape1 probs)
               else labels ! i))"
  using assms
proof (induction samples arbitrary: labels)
  case Nil
  then show ?case by simp
next
  case (Cons i samples)
  define label where "label = max_element (bind0 probs i) (shape1 probs)"
  define labels1 where "labels1 = labels[i := distinct_classes spec ! label]"
  have ok: "label < length (distinct_classes spec)" "i < length labels"
    using Cons.prems by (simp_all add: label_def)
  have p1: "\<forall>i\<in>set samples. i < length labels1"
    using Cons.prems(1) by (simp add: labels1_def)
  have p2: "\<forall>i\<in>set samples. max_element (bind0 probs i) (shape1 probs) < length (distinct_classes spec)"
    using Cons.prems(2) by simp
  from Cons.IH[OF p1 p2] obtain labels' where
    r: "label_loop spec probs samples labels1 = (labels', Inr ())"
       "length labels' = length labels1"
       "\<forall>j<length labels1. labels' ! j =
              (if j \<in> set samples
               then distinct_classes spec ! max_element (bind0 probs j) (shape1 probs)
               else labels1 ! j)"
    by blast
  have run: "label_loop spec probs (i # samples) labels = (labels', Inr ())"
    using ok r(1) by (simp add: label_def[symmetric] labels1_def Let_def)
  have "\<forall>j<length labels. labels' ! j =
              (if j \<in> set (i # samples)
               then distinct_classes spec ! max_element (bind0 probs j) (shape1 probs)
               else labels ! j)"
    using r(3) ok(2) by (auto simp: labels1_def label_def nth_list_update)
  with run r(2) show ?case by (auto simp: labels1_def)
qed

lemma shape_proba_matrix [simp]:
  "shape0 (proba_matrix A rs probs n) = shape0 probs"
  "shape1 (proba_matrix A rs probs n) = shape1 probs"
  by (simp_all add: proba_matrix_def)

lemma predict_closed_form:
  assumes pre: "predict_pre F features labels tree_indices"
    and sched: "valid_schedule (resolve_threads hw n_threads) (shape0 features) sched"
    and ret: "all_returning F features (resolved_tree_indices (graph F) tree_indices)"
    and resp: "responses_defined F features (resolved_tree_indices (graph F) tree_indices)"
    and classes: "0 < num_classes (problem_spec F)"
      "num_classes (problem_spec F) \<le> length (distinct_classes (problem_spec F))"
    and probs: "probs = proba_matrix A
        (tree_responses F features (resolved_tree_indices (graph F) tree_indices))
        (new_matrix (shape0 features) (num_classes (problem_spec F))) (shape0 features)"
  shows "predict F A hw sched features labels n_threads tree_indices =
           Some (map (\<lambda>i. distinct_classes (problem_spec F) !
                           max_element (bind0 probs i) (num_classes (problem_spec F)))
                   [0..<shape0 features],
                 Inr (Quotient
                   (total_comparisons F features (resolved_tree_indices (graph F) tree_indices))
                   (shape0 features)))"
proof -
  have u: "shape0 features = length labels" "shape1 features = num_features (problem_spec F)"
    "list_all (\<lambda>k. k < numRoots (graph F)) tree_indices"
    using pre by (simp_all add: predict_pre_def)
  have pre': "predict_proba_pre F features
      (new_matrix (shape0 features) (num_classes (problem_spec F)) :: 'd matrix) tree_indices"
    unfolding predict_proba_pre_new_matrix using u by simp
  have pp: "predict_proba F A hw sched features
      (new_matrix (shape0 features) (num_classes (problem_spec F))) n_threads tree_indices =
      Some (probs, Inr (Quotient
                   (total_comparisons F features (resolved_tree_indices (graph F) tree_indices))
                   (shape0 features)))"
    using predict_proba_closed_form[OF pre' sched ret resp] by (simp add: probs)
  have nc: "shape1 probs = num_classes (problem_spec F)"
    by (simp add: probs new_matrix_def)
  have a1: "\<forall>i\<in>set [0..<shape0 features]. i < length labels"
    using u(1) by simp
  have a2: "\<forall>i\<in>set [0..<shape0 features].
      max_element (bind0 probs i) (shape1 probs) < length (distinct_classes (problem_spec F))"
    using max_element_first_max[OF classes(1)] classes(2)
    by (auto simp: nc first_max_def intro: less_le_trans)
  from label_loop_closed_form[OF a1 a2] obtain labels' where
    r: "label_loop (problem_spec F) probs [0..<shape0 features] labels = (labels', Inr ())"
       "length labels' = length labels"
       "\<forall>i<length labels. labels' ! i =
              (if i \<in> set [0..<shape0 features]
               then distinct_classes (problem_spec F) ! max_element (bind0 probs i) (shape1 probs)
               else labels ! i)"
    by blast
  have "labels' = map (\<lambda>i. distinct_classes (problem_spec F) !
                           max_element (bind0 probs i) (num_classes (problem_spec F)))
                   [0..<shape0 features]"
    using r(2,3) u(1) by (intro nth_equalityI) (simp_all add: nc)
  with r(1) pp show ?thesis
    by (simp add: predict_unfold[OF u(1,2)])
qed

lemma predict_success_parts:
  assumes "predict F A hw sched features labels n_threads tree_indices = Some (labels', Inr avg)"
  shows "predict_pre F features labels tree_indices"
    and "\<exists>probs. predict_proba F A hw sched features
               (new_matrix (shape0 features) (num_classes (problem_spec F)))
               n_threads tree_indices = Some (probs, Inr avg)"
proof -
  show pre: "predict_pre F features labels tree_indices"
    using assms predict_failed_message[of F features labels tree_indices A hw sched n_threads]
    by auto
  then have u: "shape0 features = length labels" "shape1 features = num_features (problem_spec F)"
    by (simp_all add: predict_pre_def)
  from assms show "\<exists>probs. predict_proba F A hw sched features
               (new_matrix (shape0 features) (num_classes (problem_spec F)))
               n_threads tree_indices = Some (probs, Inr avg)"
    unfolding predict_unfold[OF u]
    by (auto split: option.splits sum.splits prod.splits)
qed

lemma predict_proba_success_parts:
  assumes "predict_proba F A hw sched features probs n_threads tree_indices
             = Some (probs', Inr avg)"
  shows "predict_proba_pre F features probs tree_indices"
    and "\<exists>ids. leaf_ids size_t_cell F hw sched features
                  (new_matrix (shape0 features) (numRoots (graph F))) n_threads
                  (resolved_tree_indices (graph F) tree_indices) = Some (ids, Inr avg) \<and>
               proba_loop (acc_call A) (node_responses F) ids
                  (resolved_tree_indices (graph F) tree_indices)
                  [0..<shape0 features] (acc_init A) probs = (probs', Inr ())"
proof -
  show pre: "predict_proba_pre F features probs tree_indices"
    using assms predict_proba_failed_message[of F features probs tree_indices A hw sched n_threads]
    by auto
  from assms show "\<exists>ids. leaf_ids size_t_cell F hw sched features
                  (new_matrix (shape0 features) (numRoots (graph F))) n_threads
                  (resolved_tree_indices (graph F) tree_indices) = Some (ids, Inr avg) \<and>
               proba_loop (acc_call A) (node_responses F) ids
                  (resolved_tree_indices (graph F) tree_indices)
                  [0..<shape0 features] (acc_init A) probs = (probs', Inr ())"
    unfolding predict_proba_unfold[OF pre]
    by (auto split: option.splits sum.splits prod.splits)
qed

lemma predict_proba_success_any_probs:
  assumes run: "predict_proba F A hw sched features probs n_threads tree_indices
             = Some (probs', Inr avg)"
    and sched: "valid_schedule (resolve_threads hw n_threads) (shape0 features) sched"
    and sched2: "valid_schedule (resolve_threads hw n_threads2) (shape0 features) sched2"
    and shape: "shape0 probs2 = shape0 features" "shape1 probs2 = num_classes (problem_spec F)"
  shows "\<exists>probs2'. predict_proba F A2 hw sched2 features probs2 n_threads2 tree_indices
             = Some (probs2', Inr avg)"
proof -
  define ks where "ks = resolved_tree_indices (graph F) tree_indices"
  define ids0 :: "nat matrix" where "ids0 = new_matrix (shape0 features) (numRoots (graph F))"
  note parts = predict_proba_success_parts[OF run]
  from parts(2) obtain ids where
    li: "leaf_ids size_t_cell F hw sched features ids0 n_threads ks = Some (ids, Inr avg)"
    and pl: "proba_loop (acc_call A) (node_responses F) ids ks
                  [0..<shape0 features] (acc_init A) probs = (probs', Inr ())"
    by (auto simp: ks_def ids0_def)
  have li2: "leaf_ids size_t_cell F hw sched2 features ids0 n_threads2 ks = Some (ids, Inr avg)"
    using leaf_ids_closed_form[OF leaf_ids_success(1)[OF li sched] sched2
        leaf_ids_success(2)[OF li sched]]
      leaf_ids_closed_form[OF leaf_ids_success(1)[OF li sched] sched
        leaf_ids_success(2)[OF li sched]] li
    by simp
  have pre2: "predict_proba_pre F features probs2 tree_indices"
    using parts(1) shape by (simp add: predict_proba_pre_def)
  from proba_loop_returns[OF proba_loop_success[OF pl],
      of "acc_call A2" "acc_init A2" probs2]
  obtain probs2' where
    "proba_loop (acc_call A2) (node_responses F) ids ks
                  [0..<shape0 features] (acc_init A2) probs2 = (probs2', Inr ())"
    by blast
  with li2 show ?thesis
    unfolding predict_proba_unfold[OF pre2] ks_def[symmetric] ids0_def[symmetric]
    by simp
qed

lemma one_worker_valid: "valid_schedule (resolve_threads 4 1) (shape0 test_x) one_worker_schedule"
  by (auto simp: valid_schedule_def resolve_threads_def shape_test_x one_worker_schedule_def)

lemma two_worker_valid: "valid_schedule (resolve_threads 4 2) (shape0 test_x) two_worker_schedule"
  by (auto simp: valid_schedule_def resolve_threads_def shape_test_x two_worker_schedule_def)

lemma predict_test_on:
  assumes resolved: "resolved_tree_indices (graph test_forest) tis = [0]"
    and range: "list_all (\<lambda>k. k < numRoots (graph test_forest)) tis"
  shows "predict test_forest vote_acc 4 one_worker_schedule test_x (replicate 8 0) 1 tis =
     Some ([0, 0, 1, 1, - 7, - 7, 3, 3], Inr (Quotient 16 8))"
proof -
  have "num_features (problem_spec test_forest) = 2" by (simp add: test_forest_def)
  then have pre: "predict_pre test_forest test_x (replicate 8 (0::int)) tis"
    using range by (simp add: predict_pre_def shape_test_x)
  have ret: "all_returning test_forest test_x (resolved_tree_indices (graph test_forest) tis)"
    using walkable_test by (simp add: resolved all_walkable_returning)
  have resp: "responses_defined test_forest test_x (resolved_tree_indices (graph test_forest) tis)"
    using responses_test by (simp add: resolved)
  have nc: "num_classes (problem_spec test_forest) = 4"
    "distinct_classes (problem_spec test_forest) = [0, 1, - 7, 3]"
    by (simp_all add: test_forest_def)
  have rows: "bind0 (proba_matrix vote_acc (tree_responses test_forest test_x [0])
      (new_matrix 8 4) 8) i = (\<lambda>j. real (count_list (tree_responses test_forest test_x [0] i) j) /
         real (length (tree_responses test_forest test_x [0] i)))" if "i < 8" for i
    using that by (simp add: bind0_def proba_matrix_def vote_acc_def)
  have m: "max_element (\<lambda>j. real (count_list [c] j) / real (length [c])) 4 = c" if "c < 4" for c :: nat
  proof -
    from that consider "c = 0" | "c = 1" | "c = 2" | "c = 3" by linarith
    then show ?thesis
      by cases (simp_all add: max_element_def upt_rec)
  qed
  define P where "P = proba_matrix vote_acc (tree_responses test_forest test_x [0])
      (new_matrix 8 4 :: real matrix) 8"
  have lab: "max_element (bind0 P i) 4 = c"
    if "i < 8" "tree_responses test_forest test_x [0] i = [c]" "c < 4" for i c
    unfolding P_def rows[OF that(1)] that(2) by (rule m[OF that(3)])
  have L: "max_element (bind0 P 0) 4 = 0" "max_element (bind0 P 1) 4 = 0"
    "max_element (bind0 P 2) 4 = 1" "max_element (bind0 P 3) 4 = 1"
    "max_element (bind0 P 4) 4 = 2" "max_element (bind0 P 5) 4 = 2"
    "max_element (bind0 P 6) 4 = 3" "max_element (bind0 P 7) 4 = 3"
    by (rule lab; simp add: tree_responses_test)+
  have labels: "map (\<lambda>i. [0, 1, - 7, 3 :: int] ! max_element (bind0 P i) 4) [0..<8] =
      [0, 0, 1, 1, - 7, - 7, 3, 3]"
    by (simp only: upt_8 list.map L) simp
  have c: "0 < num_classes (problem_spec test_forest)"
    "num_classes (problem_spec test_forest) \<le> length (distinct_classes (problem_spec test_forest))"
    by (simp_all add: nc)
  have "predict test_forest vote_acc 4 one_worker_schedule test_x (replicate 8 0) 1 tis =
      Some (map (\<lambda>i. [0, 1, - 7, 3 :: int] ! max_element (bind0 P i) 4) [0..<8],
            Inr (Quotient 16 8))"
    using predict_closed_form[OF pre one_worker_valid ret resp c refl, where A = vote_acc]
    by (simp only: nc resolved shape_test_x total_test P_def)
  then show ?thesis by (simp only: labels)
qed

lemma predict_test:
  "predict test_forest vote_acc 4 one_worker_schedule test_x (replicate 8 0) 1 [] =
     Some ([0, 0, 1, 1, - 7, - 7, 3, 3], Inr (Quotient 16 8))"
  by (rule predict_test_on) (simp_all add: resolved_test)

lemma resolved_test_tree0: "resolved_tree_indices (graph test_forest) [0] = [0]"
  by (simp add: resolved_tree_indices_def std_set_def)

lemma predict_test_tree0:
  "predict test_forest vote_acc 4 one_worker_schedule test_x (replicate 8 0) 1 [0] =
     Some ([0, 0, 1, 1, - 7, - 7, 3, 3], Inr (Quotient 16 8))"
  by (rule predict_test_on)
     (simp_all add: resolved_test_tree0, simp add: test_forest_def test_graph_def numRoots_def)

lemma predict_proba_test_tree0:
  "predict_proba test_forest vote_acc 4 one_worker_schedule test_x (new_matrix 8 4) 1 [0] =
     Some (proba_matrix vote_acc (tree_responses test_forest test_x [0]) (new_matrix 8 4) 8,
           Inr (Quotient 16 8))"
proof -
  have "num_features (problem_spec test_forest) = 2" "num_classes (problem_spec test_forest) = 4"
    "numRoots (graph test_forest) = 1"
    by (simp_all add: test_forest_def test_graph_def numRoots_def)
  then have pre: "predict_proba_pre test_forest test_x (new_matrix 8 4 :: real matrix) [0]"
    by (simp add: predict_proba_pre_def shape_test_x new_matrix_def)
  have ret: "all_returning test_forest test_x (resolved_tree_indices (graph test_forest) [0])"
    using walkable_test by (simp add: resolved_test_tree0 all_walkable_returning)
  have resp: "responses_defined test_forest test_x (resolved_tree_indices (graph test_forest) [0])"
    using responses_test by (simp add: resolved_test_tree0)
  show ?thesis
    using predict_proba_closed_form[OF pre one_worker_valid ret resp, where A = vote_acc]
    by (simp only: resolved_test_tree0 shape_test_x total_test)
qed

section \<open>Lemmas about merging\<close>

lemma map_of_pm_insert:
  "map_of (pm_insert k v m) k' = (if k' = k then Some v else map_of m k')"
  by (simp add: pm_insert_def update_conv')

lemma map_of_fold_insert:
  assumes "distinct (map fst xs)"
  shows "map_of (fold (\<lambda>p m. pm_insert (fst p + off) (snd p) m) xs m0) k =
           (if off \<le> k \<and> map_of xs (k - off) \<noteq> None then map_of xs (k - off)
            else map_of m0 k)"
  using assms
proof (induction xs arbitrary: m0)
  case Nil
  then show ?case by simp
next
  case (Cons x xs)
  have d: "distinct (map fst xs)" and fresh: "map_of xs (fst x) = None"
    using Cons.prems by (simp_all add: map_of_eq_None_iff)
  let ?f = "\<lambda>p m. pm_insert (fst p + off) (snd p) m"
  let ?m1 = "pm_insert (fst x + off) (snd x) m0"
  have unfold: "fold ?f (x # xs) m0 = fold ?f xs ?m1" by simp
  have IH: "map_of (fold ?f xs ?m1) k =
      (if off \<le> k \<and> map_of xs (k - off) \<noteq> None then map_of xs (k - off)
       else map_of ?m1 k)"
    by (rule Cons.IH[OF d])
  have head: "map_of (x # xs) j = (if j = fst x then Some (snd x) else map_of xs j)" for j
    by (cases x) simp
  show ?case
  proof (cases "off \<le> k \<and> k - off = fst x")
    case True
    then have k: "k = fst x + off" by linarith
    show ?thesis
      unfolding unfold IH head using fresh by (simp add: k map_of_pm_insert)
  next
    case False
    then have "k \<noteq> fst x + off" by auto
    with False show ?thesis
      unfolding unfold IH head by (auto simp: map_of_pm_insert)
  qed
qed

lemma merge_unfold:
  assumes "problem_spec A = problem_spec B"
  shows "merge A B =
     (A\<lparr>graph := graph_merge (graph A) (graph B),
        split_tests :=
          fold (\<lambda>p m. pm_insert (fst p + num_nodes A) (snd p) m) (split_tests B) (split_tests A),
        node_responses :=
          fold (\<lambda>p m. pm_insert (fst p + num_nodes A) (snd p) m)
            (node_responses B) (node_responses A)\<rparr>,
      Inr ())"
  using assms by (simp add: merge_def Let_def)

lemma children_graph_merge_shifted:
  "children (graph_merge g h) (n + node_count g) =
     map_option (\<lambda>(l, r). (l + node_count g, r + node_count g)) (children h n)"
  by (simp add: graph_merge_def)

lemma traverse_shifted:
  assumes run: "traverse gB tB row n sc = Some y"
    and ch: "\<And>n. children gM (n + off) = map_option (\<lambda>(l, r). (l + off, r + off)) (children gB n)"
    and st: "\<And>n t. map_of tB n = Some t \<Longrightarrow> map_of tM (n + off) = Some t"
  shows "case y of
           Inl e \<Rightarrow> True
         | Inr (leaf, c) \<Rightarrow> traverse gM tM row (n + off) sc = Some (Inr (leaf + off, c))"
  using run ch st
proof (induction gB tB row n sc y rule: traverse.raw_induct[rotated 1, consumes 1, case_names step])
  case (step trav gB tB row n sc y)
  note ch = step.prems(1) and st = step.prems(2)
  show ?case
  proof (cases "children gB n")
    case None
    then have "outDegree gB n = 0" by (simp add: outDegree_def)
    with step.hyps have y: "y = Inr (n, sc)" by simp
    have "children gM (n + off) = None" using ch[of n] None by simp
    then have "traverse gM tM row (n + off) sc = Some (Inr (n + off, sc))"
      by (subst traverse.simps) (simp add: outDegree_def)
    then show ?thesis by (simp add: y)
  next
    case (Some lr)
    obtain l r where lr: "lr = (l, r)" by (cases lr)
    have od: "outDegree gB n > 0" using Some by (simp add: outDegree_def)
    have chM: "children gM (n + off) = Some (l + off, r + off)"
      using ch[of n] Some lr by simp
    then have odM: "outDegree gM (n + off) > 0" by (simp add: outDegree_def)
    show ?thesis
    proof (cases "map_of tB n")
      case None
      with step.hyps od have "y = Inl OutOfRange" by (simp add: pm_at_def)
      then show ?thesis by simp
    next
      case (Some t)
      note t = Some
      have tM: "map_of tM (n + off) = Some t" using st[OF t] .
      show ?thesis
      proof (cases "getChild gB n (t row)")
        case None
        with step.hyps od t have "y = Inl InvalidChild" by (simp add: pm_at_def)
        then show ?thesis by simp
      next
        case (Some m)
        with step.hyps od t have rec: "trav gB tB row m (sc + 1) = Some y"
          by (simp add: pm_at_def)
        have childM: "getChild gM (n + off) (t row) = Some (m + off)"
          using Some \<open>children gB n = Some lr\<close> lr chM
          by (auto simp: getChild_def split: if_splits)
        have unfold: "traverse gM tM row (n + off) sc = traverse gM tM row (m + off) (sc + 1)"
          using odM tM childM by (subst traverse.simps) (simp add: pm_at_def)
        from step.IH[OF rec ch st] show ?thesis
          by (simp add: unfold split: sum.splits prod.splits)
      qed
    qed
  qed
qed

lemma merged_parts:
  assumes "problem_spec A = problem_spec B"
  shows "merge A B = (merged A B, Inr ())"
    and "graph (merged A B) = graph_merge (graph A) (graph B)"
    and "split_tests (merged A B) =
          fold (\<lambda>p m. pm_insert (fst p + num_nodes A) (snd p) m) (split_tests B) (split_tests A)"
    and "node_responses (merged A B) =
          fold (\<lambda>p m. pm_insert (fst p + num_nodes A) (snd p) m)
            (node_responses B) (node_responses A)"
    and "problem_spec (merged A B) = problem_spec A"
  by (simp_all add: merged_def merge_unfold[OF assms])

lemma merged_counts:
  assumes "problem_spec A = problem_spec B"
  shows "num_nodes (merged A B) = num_nodes A + num_nodes B"
    and "num_trees (merged A B) = num_trees A + num_trees B"
    and "numRoots (graph (merged A B)) = numRoots (graph A) + numRoots (graph B)"
  by (simp_all add: merged_parts(2)[OF assms] num_nodes_def num_trees_def numNodes_def
      numRoots_def graph_merge_def)

lemma merged_root:
  assumes "problem_spec A = problem_spec B" "k < numRoots (graph B)"
  shows "getRoot (graph (merged A B)) (numRoots (graph A) + k) =
           getRoot (graph B) k + num_nodes A"
  using assms(2)
  by (simp add: merged_parts(2)[OF assms(1)] getRoot_def graph_merge_def numRoots_def
      nth_append num_nodes_def numNodes_def)

lemma merged_returns_leaf:
  assumes eq: "problem_spec A = problem_spec B"
    and d: "distinct (map fst (split_tests B))"
    and k: "k < numRoots (graph B)"
    and r: "returns_leaf B row k"
  shows "returns_leaf (merged A B) row (numRoots (graph A) + k)"
    and "leaf_of (merged A B) row (numRoots (graph A) + k) = leaf_of B row k + num_nodes A"
    and "comparisons (merged A B) row (numRoots (graph A) + k) = comparisons B row k"
proof -
  let ?M = "merged A B"
  let ?off = "num_nodes A"
  have run: "traverse (graph B) (split_tests B) row (getRoot (graph B) k) 0 =
      Some (Inr (leaf_of B row k, comparisons B row k))"
    using traverse_returns_leaf[OF r, of 0] by simp
  have ch: "children (graph ?M) (n + ?off) =
      map_option (\<lambda>(l, r). (l + ?off, r + ?off)) (children (graph B) n)" for n
    by (simp add: merged_parts(2)[OF eq] num_nodes_def numNodes_def children_graph_merge_shifted)
  have st: "map_of (split_tests B) n = Some t \<Longrightarrow> map_of (split_tests ?M) (n + ?off) = Some t"
    for n t
    by (simp add: merged_parts(3)[OF eq] map_of_fold_insert[OF d])
  from traverse_shifted[OF run ch st]
  have "traverse (graph ?M) (split_tests ?M) row (getRoot (graph B) k + ?off) 0 =
      Some (Inr (leaf_of B row k + ?off, comparisons B row k))"
    by simp
  then have t: "traverse (graph ?M) (split_tests ?M) row
      (getRoot (graph ?M) (numRoots (graph A) + k)) 0 =
      Some (Inr (leaf_of B row k + ?off, comparisons B row k))"
    by (simp add: merged_root[OF eq k])
  show "returns_leaf ?M row (numRoots (graph A) + k)"
    using t by (simp add: returns_leaf_def)
  have "reached ?M row (numRoots (graph A) + k) = (leaf_of B row k + ?off, comparisons B row k)"
    using t by (simp add: reached_def)
  then show "leaf_of ?M row (numRoots (graph A) + k) = leaf_of B row k + ?off"
    and "comparisons ?M row (numRoots (graph A) + k) = comparisons B row k"
    by (simp_all add: leaf_of_def comparisons_def)
qed

lemma std_set_shift:
  "std_set (shift_tree_indices c tis) = shift_tree_indices c (std_set tis)"
proof (rule sorted_distinct_set_unique)
  show "sorted (std_set (shift_tree_indices c tis))" by simp
  show "distinct (std_set (shift_tree_indices c tis))" by simp
  show "sorted (shift_tree_indices c (std_set tis))"
    unfolding shift_tree_indices_def
    by (rule sorted_map_mono) (auto simp: mono_on_def)
  show "distinct (shift_tree_indices c (std_set tis))"
    by (simp add: shift_tree_indices_def distinct_map inj_on_def)
  show "set (std_set (shift_tree_indices c tis)) = set (shift_tree_indices c (std_set tis))"
    by (simp add: shift_tree_indices_def)
qed

lemma resolved_shift:
  assumes "tis \<noteq> []"
  shows "resolved_tree_indices gM (shift_tree_indices c tis) =
           shift_tree_indices c (resolved_tree_indices gB tis)"
  using assms by (simp add: resolved_tree_indices_def std_set_shift) (simp add: shift_tree_indices_def)

lemma merged_predict_proba:
  assumes eq: "problem_spec A = problem_spec B"
    and dS: "distinct (map fst (split_tests B))"
    and dR: "distinct (map fst (node_responses B))"
    and ne: "tree_indices \<noteq> []"
    and sched: "valid_schedule (resolve_threads hw n_threads) (shape0 features) sched"
    and run: "predict_proba B Acc hw sched features probs n_threads tree_indices =
                Some (probs', Inr avg)"
  shows "predict_proba (merged A B) Acc hw sched features probs n_threads
           (shift_tree_indices (numRoots (graph A)) tree_indices) = Some (probs', Inr avg)"
proof -
  let ?M = "merged A B"
  let ?roff = "numRoots (graph A)"
  let ?off = "num_nodes A"
  let ?n = "shape0 features"
  define ksB where "ksB = resolved_tree_indices (graph B) tree_indices"
  define ksM where "ksM = shift_tree_indices ?roff ksB"
  define ids0B :: "nat matrix" where "ids0B = new_matrix ?n (numRoots (graph B))"
  define ids0M :: "nat matrix" where "ids0M = new_matrix ?n (numRoots (graph ?M))"
  define idsB where "idsB = leaf_id_matrix size_t_cell B features ids0B ksB"
  define idsM where "idsM = leaf_id_matrix size_t_cell ?M features ids0M ksM"
  note parts = predict_proba_success_parts[OF run]
  have preB: "shape0 features = shape0 probs" "shape1 features = num_features (problem_spec B)"
    "shape1 probs = num_classes (problem_spec B)"
    "list_all (\<lambda>k. k < numRoots (graph B)) tree_indices"
    using parts(1) by (simp_all add: predict_proba_pre_def)
  from parts(2) obtain ids1 where
    liB: "leaf_ids size_t_cell B hw sched features ids0B n_threads ksB = Some (ids1, Inr avg)"
    and plB: "proba_loop (acc_call Acc) (node_responses B) ids1 ksB [0..<?n] (acc_init Acc) probs =
                (probs', Inr ())"
    by (auto simp: ksB_def ids0B_def)
  note okB = leaf_ids_success[OF liB sched]
  have retB: "all_returning B features ksB"
    using okB(2) by (simp add: ksB_def)
  have closedB: "ids1 = idsB" "avg = Quotient (total_comparisons B features ksB) ?n"
    using leaf_ids_closed_form[OF okB(1) sched okB(2)] liB by (simp_all add: ksB_def idsB_def)
  have rangeB: "\<forall>k\<in>set ksB. k < numRoots (graph B)"
    unfolding ksB_def using preB(4) by (rule resolved_all_in_range)
  have retB': "returns_leaf B (bind0 features i) k" if "i < ?n" "k \<in> set ksB" for i k
    using retB that by (simp add: all_returning_def list_all_iff)
  have nrM: "numRoots (graph ?M) = ?roff + numRoots (graph B)"
    by (rule merged_counts(3)[OF eq])
  have specM: "problem_spec ?M = problem_spec B"
    using merged_parts(5)[OF eq] eq by simp
  have preM: "predict_proba_pre ?M features probs (shift_tree_indices ?roff tree_indices)"
    using preB by (auto simp: predict_proba_pre_def specM nrM shift_tree_indices_def list_all_iff)
  have ksM: "resolved_tree_indices (graph ?M) (shift_tree_indices ?roff tree_indices) = ksM"
    unfolding ksM_def ksB_def using ne by (rule resolved_shift)
  have set_ksM: "set ksM = (\<lambda>k. ?roff + k) ` set ksB"
    by (simp add: ksM_def shift_tree_indices_def)
  have retM: "all_returning ?M features ksM"
    using merged_returns_leaf(1)[OF eq dS] rangeB retB'
    by (auto simp: all_returning_def list_all_iff set_ksM)
  have preM': "leaf_ids_pre ?M features ids0M ksM"
    using leaf_ids_pre_new_matrix[OF preM] by (simp add: ksM ids0M_def)
  have retM': "all_returning ?M features (resolved_tree_indices (graph ?M) ksM)"
    using retM ksM resolved_idem[of "graph ?M" "shift_tree_indices ?roff tree_indices"] by simp
  have res_ksM: "resolved_tree_indices (graph ?M) ksM = ksM"
    using ksM resolved_idem[of "graph ?M" "shift_tree_indices ?roff tree_indices"] by simp
  have total: "total_comparisons ?M features ksM = total_comparisons B features ksB"
  proof -
    have "sum_list (map (comparisons ?M (bind0 features i)) ksM) =
          sum_list (map (comparisons B (bind0 features i)) ksB)" if "i < ?n" for i
    proof -
      have "map (comparisons ?M (bind0 features i)) ksM =
            map (\<lambda>k. comparisons ?M (bind0 features i) (?roff + k)) ksB"
        by (simp add: ksM_def shift_tree_indices_def comp_def)
      also have "\<dots> = map (comparisons B (bind0 features i)) ksB"
        using merged_returns_leaf(3)[OF eq dS] rangeB retB'[OF that]
        by (intro map_cong) auto
      finally show ?thesis by simp
    qed
    then have "map (\<lambda>i. sum_list (map (comparisons ?M (bind0 features i)) ksM)) [0..<?n] =
               map (\<lambda>i. sum_list (map (comparisons B (bind0 features i)) ksB)) [0..<?n]"
      by simp
    then show ?thesis
      by (simp only: total_comparisons_def)
  qed
  have liM: "leaf_ids size_t_cell ?M hw sched features ids0M n_threads ksM = Some (idsM, Inr avg)"
    using leaf_ids_closed_form[OF preM' sched retM']
    by (simp add: res_ksM idsM_def total closedB(2))
  have gather: "tree_results_loop (node_responses ?M) idsM i ksM [] =
                tree_results_loop (node_responses B) idsB i ksB []" if i: "i < ?n" for i
  proof -
    have "i \<in> set [0..<?n]" using i by simp
    with proba_loop_success[OF plB] obtain rs where
      rs: "tree_results_loop (node_responses B) idsB i ksB [] = Inr rs"
      unfolding closedB(1) by blast
    have cellB: "cell idsB i k = leaf_of B (bind0 features i) k" if "k \<in> set ksB" for k
      using that rangeB i by (simp add: idsB_def ids0B_def size_t_leaf_id_cell)
    have defB: "map_of (node_responses B) (leaf_of B (bind0 features i) k) \<noteq> None"
      if "k \<in> set ksB" for k
    proof -
      have "\<forall>k\<in>set ksB. map_of (node_responses B) (cell idsB i k) \<noteq> None"
        using rs unfolding tree_results_loop_closed_form by (auto split: if_splits)
      with that cellB show ?thesis by auto
    qed
    have cellM: "cell idsM i (?roff + k) = leaf_of B (bind0 features i) k + ?off"
      if "k \<in> set ksB" for k
    proof -
      have "?roff + k \<in> set ksM" using that by (simp add: set_ksM)
      moreover have "?roff + k < numRoots (graph ?M)" using that rangeB by (simp add: nrM)
      ultimately have "cell idsM i (?roff + k) = leaf_of ?M (bind0 features i) (?roff + k)"
        using i by (simp add: idsM_def ids0M_def size_t_leaf_id_cell)
      also have "\<dots> = leaf_of B (bind0 features i) k + ?off"
        using merged_returns_leaf(2)[OF eq dS] rangeB retB'[OF i] that by simp
      finally show ?thesis .
    qed
    have lookM: "map_of (node_responses ?M) (cell idsM i (?roff + k)) =
                 map_of (node_responses B) (cell idsB i k)" if "k \<in> set ksB" for k
      using defB[OF that]
      by (simp add: cellM[OF that] cellB[OF that] merged_parts(4)[OF eq] map_of_fold_insert[OF dR])
    have "tree_results_loop (node_responses ?M) idsM i ksM [] =
          Inr (map (\<lambda>k. the (map_of (node_responses B) (cell idsB i k))) ksB)"
      unfolding tree_results_loop_closed_form
      using lookM defB cellB
      by (auto simp: ksM_def shift_tree_indices_def comp_def)
    moreover have "tree_results_loop (node_responses B) idsB i ksB [] =
          Inr (map (\<lambda>k. the (map_of (node_responses B) (cell idsB i k))) ksB)"
      unfolding tree_results_loop_closed_form
      using defB cellB by auto
    ultimately show ?thesis by simp
  qed
  have plM: "proba_loop (acc_call Acc) (node_responses ?M) idsM ksM [0..<?n] (acc_init Acc) probs =
               (probs', Inr ())"
    using proba_loop_cong[of "[0..<?n]" "node_responses ?M" idsM ksM "node_responses B" idsB ksB
        "acc_call Acc" "acc_init Acc" probs] gather plB
    by (simp add: closedB(1))
  show ?thesis
    unfolding predict_proba_unfold[OF preM] ksM ids0M_def[symmetric]
    by (simp add: liM plM)
qed

lemma merged_predict:
  assumes eq: "problem_spec A = problem_spec B"
    and dS: "distinct (map fst (split_tests B))"
    and dR: "distinct (map fst (node_responses B))"
    and ne: "tree_indices \<noteq> []"
    and sched: "valid_schedule (resolve_threads hw n_threads) (shape0 features) sched"
    and run: "predict B Acc hw sched features labels n_threads tree_indices =
                Some (labels', Inr avg)"
  shows "predict (merged A B) Acc hw sched features labels n_threads
           (shift_tree_indices (numRoots (graph A)) tree_indices) = Some (labels', Inr avg)"
proof -
  let ?M = "merged A B"
  have specM: "problem_spec ?M = problem_spec B"
    using merged_parts(5)[OF eq] eq by simp
  note p = predict_success_parts[OF run]
  have u: "shape0 features = length labels" "shape1 features = num_features (problem_spec B)"
    using p(1) by (simp_all add: predict_pre_def)
  from p(2) obtain probs0 where
    pp: "predict_proba B Acc hw sched features
               (new_matrix (shape0 features) (num_classes (problem_spec B)))
               n_threads tree_indices = Some (probs0, Inr avg)"
    by blast
  have ll: "label_loop (problem_spec B) probs0 [0..<shape0 features] labels = (labels', Inr ())"
    using run unfolding predict_unfold[OF u] pp
    by (auto split: sum.splits prod.splits)
  have ppM: "predict_proba ?M Acc hw sched features
               (new_matrix (shape0 features) (num_classes (problem_spec B)))
               n_threads (shift_tree_indices (numRoots (graph A)) tree_indices) =
             Some (probs0, Inr avg)"
    using merged_predict_proba[OF eq dS dR ne sched pp] .
  have uM: "shape0 features = length labels" "shape1 features = num_features (problem_spec ?M)"
    using u by (simp_all add: specM)
  show ?thesis
    unfolding predict_unfold[OF uM] specM ppM by (simp add: ll)
qed

lemma dom_fold_insert:
  assumes "distinct (map fst xs)"
  shows "dom (map_of (fold (\<lambda>p m. pm_insert (fst p + off) (snd p) m) xs m0)) =
           dom (map_of m0) \<union> (\<lambda>n. n + off) ` dom (map_of xs)"
proof (rule set_eqI)
  fix k
  show "k \<in> dom (map_of (fold (\<lambda>p m. pm_insert (fst p + off) (snd p) m) xs m0)) \<longleftrightarrow>
        k \<in> dom (map_of m0) \<union> (\<lambda>n. n + off) ` dom (map_of xs)"
  proof (cases "off \<le> k \<and> map_of xs (k - off) \<noteq> None")
    case True
    then have "k - off \<in> dom (map_of xs)" "k = (k - off) + off" by auto
    then have "k \<in> (\<lambda>n. n + off) ` dom (map_of xs)" by (rule_tac image_eqI)
    with True show ?thesis
      by (simp add: dom_def map_of_fold_insert[OF assms])
  next
    case False
    then have "k \<notin> (\<lambda>n. n + off) ` dom (map_of xs)" by auto
    with False show ?thesis
      by (auto simp: dom_def map_of_fold_insert[OF assms])
  qed
qed

section \<open>Lemmas about the two-tree forest\<close>

lemma resolved_two_tree:
  "resolved_tree_indices (graph two_tree_forest) [0] = [0]"
  "resolved_tree_indices (graph two_tree_forest) [Suc 0] = [Suc 0]"
  "resolved_tree_indices (graph two_tree_forest) [] = [0, Suc 0]"
  by (simp_all add: resolved_tree_indices_def std_set_def two_tree_forest_def numRoots_def
      upt_rec)

lemma reached_two_tree:
  "reached two_tree_forest (bind0 test_x 0) 0 = (3, 2)"
  "reached two_tree_forest (bind0 test_x (Suc 0)) 0 = (3, 2)"
  "reached two_tree_forest (bind0 test_x 2) 0 = (4, 2)"
  "reached two_tree_forest (bind0 test_x 3) 0 = (4, 2)"
  "reached two_tree_forest (bind0 test_x 4) 0 = (5, 2)"
  "reached two_tree_forest (bind0 test_x 5) 0 = (5, 2)"
  "reached two_tree_forest (bind0 test_x 6) 0 = (6, 2)"
  "reached two_tree_forest (bind0 test_x 7) 0 = (6, 2)"
  "reached two_tree_forest row (Suc 0) = (7, 0)"
  by (simp_all add: reached_def two_tree_forest_def test_x_def matrix_of_def
      LessEqualSplitTest_def getRoot_def bind0_def traverse.simps outDegree_def pm_at_def
      getChild_def)

lemma walkable_two_tree: "all_walkable two_tree_forest test_x [0, Suc 0]"
  by (simp add: all_walkable_def walkable_def shape_test_x upt_8)
     (simp add: two_tree_forest_def num_nodes_def numNodes_def getRoot_def
        eval_nat_numeral LessEqualSplitTest_def test_x_def matrix_of_def bind0_def)

lemma walkable_two_tree_each:
  "all_walkable two_tree_forest test_x [0]" "all_walkable two_tree_forest test_x [Suc 0]"
  using walkable_two_tree by (simp_all add: all_walkable_def list_all_iff)

lemma leaf_ids_pre_two_tree:
  "leaf_ids_pre two_tree_forest test_x (stale_ids :: nat matrix) [0]"
  "leaf_ids_pre two_tree_forest test_x (stale_ids :: int matrix) [Suc 0]"
  "leaf_ids_pre two_tree_forest test_x (stale_ids :: int matrix) []"
  by (simp_all add: leaf_ids_pre_def shape_test_x stale_ids_def two_tree_forest_def numRoots_def)

lemma total_two_tree:
  "total_comparisons two_tree_forest test_x [0] = 16"
  "total_comparisons two_tree_forest test_x [Suc 0] = 0"
  "total_comparisons two_tree_forest test_x [0, Suc 0] = 16"
  by (simp_all add: total_comparisons_def shape_test_x upt_8 comparisons_def reached_two_tree)

lemma replicate_8: "replicate 8 x = [x, x, x, x, x, x, x, x]"
  by (simp add: eval_nat_numeral)

section \<open>The claims\<close>

text \<open>
  Claim C1. For a feature matrix of the right shape, a sample \<open>i\<close> and a tree index \<open>k\<close>
  in range, \<^verbatim>\<open>leaf_ids_impl\<close> on that sample and tree starts at the root of tree \<open>k\<close>
  and follows the walk of section 4.1: while the node has two children it takes the child
  the split test names and counts one comparison, and it stops at the first node without
  children, whose id it stores in cell \<open>(i, k)\<close>, leaving every other cell as it was;
  the count is the number of moves. This holds when the tree below the root is well
  formed. A root without children gives zero comparisons and its own id, whatever the
  split-test map holds, so no split test is evaluated.
\<close>

theorem traversal_reaches_first_leaf:
  assumes "leaf_ids_pre F features ids [k]" and "i < shape0 features"
  shows "(walkable F (bind0 features i) k \<longrightarrow>
            (\<exists>leaf c ids'.
                leaf_ids_impl to_cell F features ids i (i + 1) [k] = Some (ids', Inr c) \<and>
                ids' = set_cell ids i k (to_cell (int leaf)) \<and>
                (\<forall>i' k'. cell ids' i' k' =
                   (if i' = i \<and> k' = k then to_cell (int leaf) else cell ids i' k')) \<and>
                descends (graph F) (split_tests F) (bind0 features i)
                  (getRoot (graph F) k) c leaf \<and>
                outDegree (graph F) leaf = 0)) \<and>
         (outDegree (graph F) (getRoot (graph F) k) = 0 \<longrightarrow>
            (\<forall>tests. \<exists>ids'.
                leaf_ids_impl to_cell (F\<lparr>split_tests := tests\<rparr>) features ids i (i + 1) [k] =
                  Some (ids', Inr 0) \<and>
                ids' = set_cell ids i k (to_cell (int (getRoot (graph F) k))) \<and>
                (\<forall>i' k'. cell ids' i' k' =
                   (if i' = i \<and> k' = k then to_cell (int (getRoot (graph F) k))
                    else cell ids i' k'))))"
proof (intro conjI impI allI)
  assume w: "walkable F (bind0 features i) k"
  define leaf where "leaf = leaf_of F (bind0 features i) k"
  define c where "c = comparisons F (bind0 features i) k"
  have p: "shape0 features = shape0 ids" "shape1 features = num_features (problem_spec F)"
    "shape1 ids = numRoots (graph F)"
    using assms(1) by (simp_all add: leaf_ids_pre_def)
  have run: "leaf_ids_impl to_cell F features ids i (i + 1) [k] =
          Some (set_cell ids i k (to_cell (int leaf)), Inr c)"
    using leaf_ids_impl_single[OF p assms(2), of "[k]"] walkable_returns_leaf(1)[OF w]
    by (simp add: leaf_def c_def)
  have cells: "\<forall>i' k'. cell (set_cell ids i k (to_cell (int leaf))) i' k' =
                   (if i' = i \<and> k' = k then to_cell (int leaf) else cell ids i' k')"
    by (simp add: cell_set_cell)
  have walk: "descends (graph F) (split_tests F) (bind0 features i) (getRoot (graph F) k) c leaf"
    using walkable_returns_leaf(2)[OF w] by (simp add: leaf_def c_def)
  have stop: "outDegree (graph F) leaf = 0"
    using walkable_returns_leaf(3)[OF w] by (simp add: outDegree_def leaf_def)
  show "\<exists>leaf c ids'.
                leaf_ids_impl to_cell F features ids i (i + 1) [k] = Some (ids', Inr c) \<and>
                ids' = set_cell ids i k (to_cell (int leaf)) \<and>
                (\<forall>i' k'. cell ids' i' k' =
                   (if i' = i \<and> k' = k then to_cell (int leaf) else cell ids i' k')) \<and>
                descends (graph F) (split_tests F) (bind0 features i)
                  (getRoot (graph F) k) c leaf \<and>
                outDegree (graph F) leaf = 0"
    apply (rule exI[of _ leaf])
    apply (rule exI[of _ c])
    apply (rule exI[of _ "set_cell ids i k (to_cell (int leaf))"])
    apply (intro conjI run refl cells walk stop)
    done
next
  fix tests
  assume "outDegree (graph F) (getRoot (graph F) k) = 0"
  then have run: "leaf_ids_impl to_cell (F\<lparr>split_tests := tests\<rparr>) features ids i (i + 1) [k] =
      Some (set_cell ids i k (to_cell (int (getRoot (graph F) k))), Inr 0)"
    using leaf_ids_impl_leaf_root[OF assms] by simp
  have cells: "\<forall>i' k'. cell (set_cell ids i k (to_cell (int (getRoot (graph F) k)))) i' k' =
                   (if i' = i \<and> k' = k then to_cell (int (getRoot (graph F) k))
                    else cell ids i' k')"
    by (simp add: cell_set_cell)
  show "\<exists>ids'.
                leaf_ids_impl to_cell (F\<lparr>split_tests := tests\<rparr>) features ids i (i + 1) [k] =
                  Some (ids', Inr 0) \<and>
                ids' = set_cell ids i k (to_cell (int (getRoot (graph F) k))) \<and>
                (\<forall>i' k'. cell ids' i' k' =
                   (if i' = i \<and> k' = k then to_cell (int (getRoot (graph F) k))
                    else cell ids i' k'))"
    apply (rule exI[of _ "set_cell ids i k (to_cell (int (getRoot (graph F) k)))"])
    apply (intro conjI run refl cells)
    done
qed

theorem traversal_reaches_first_leaf_witness:
  "leaf_ids_pre test_forest test_x (new_matrix 8 1 :: int matrix) [0] \<and>
   (0::nat) < shape0 test_x \<and>
   walkable test_forest (bind0 test_x 0) 0 \<and>
   (\<exists>ids'. leaf_ids_impl signed_cell test_forest test_x (new_matrix 8 1) 0 (0 + 1) [0] =
             Some (ids', Inr 2) \<and>
           (\<forall>i' k'. cell ids' i' k' = (if i' = 0 \<and> k' = 0 then 3 else 0)) \<and>
           descends (graph test_forest) (split_tests test_forest) (bind0 test_x 0)
             (getRoot (graph test_forest) 0) 2 3 \<and>
           outDegree (graph test_forest) 3 = 0) \<and>
   leaf_ids_pre single_leaf_forest test_x (new_matrix 8 1 :: nat matrix) [0] \<and>
   outDegree (graph single_leaf_forest) (getRoot (graph single_leaf_forest) 0) = 0 \<and>
   (\<forall>tests. \<exists>ids'.
      leaf_ids_impl size_t_cell (single_leaf_forest\<lparr>split_tests := tests\<rparr>) test_x
          (new_matrix 8 1) 0 (0 + 1) [0] =
        Some (ids', Inr 0) \<and>
      (\<forall>i' k'. cell ids' i' k' = 0))"
proof -
  have pre: "leaf_ids_pre test_forest test_x (new_matrix 8 1 :: int matrix) [0]"
    by (simp add: leaf_ids_pre_def test_forest_def test_graph_def test_x_def matrix_of_def
        new_matrix_def numRoots_def)
  have i: "(0::nat) < shape0 test_x"
    by (simp add: test_x_def matrix_of_def)
  have w: "walkable test_forest (bind0 test_x 0) 0"
    by (simp add: walkable_def test_forest_def test_graph_def num_nodes_def numNodes_def
        getRoot_def eval_nat_numeral LessEqualSplitTest_def)
  have pre': "leaf_ids_pre single_leaf_forest test_x (new_matrix 8 1 :: nat matrix) [0]"
    by (simp add: leaf_ids_pre_def single_leaf_forest_def test_x_def matrix_of_def
        new_matrix_def numRoots_def)
  have od: "outDegree (graph single_leaf_forest) (getRoot (graph single_leaf_forest) 0) = 0"
    by (simp add: single_leaf_forest_def outDegree_def getRoot_def)
  have root: "getRoot (graph single_leaf_forest) 0 = 0"
    by (simp add: single_leaf_forest_def getRoot_def)
  note t = traversal_reaches_first_leaf[OF pre i, of signed_cell, THEN conjunct1, THEN mp, OF w]
  note t' = traversal_reaches_first_leaf[OF pre' i, of size_t_cell, THEN conjunct2, THEN mp, OF od]
  have first: "\<exists>ids'. leaf_ids_impl signed_cell test_forest test_x (new_matrix 8 1) 0 (0 + 1) [0] =
             Some (ids', Inr 2) \<and>
           (\<forall>i' k'. cell ids' i' k' = (if i' = 0 \<and> k' = 0 then 3 else 0)) \<and>
           descends (graph test_forest) (split_tests test_forest) (bind0 test_x 0)
             (getRoot (graph test_forest) 0) 2 3 \<and>
           outDegree (graph test_forest) 3 = 0"
  proof -
    from t obtain leaf c ids' where
      run: "leaf_ids_impl signed_cell test_forest test_x (new_matrix 8 1) 0 (0 + 1) [0] =
              Some (ids', Inr c)"
      and cells: "\<forall>i' k'. cell ids' i' k' =
              (if i' = 0 \<and> k' = 0 then signed_cell (int leaf) else cell (new_matrix 8 1) i' k')"
      and walk: "descends (graph test_forest) (split_tests test_forest) (bind0 test_x 0)
              (getRoot (graph test_forest) 0) c leaf"
      and stop: "outDegree (graph test_forest) leaf = 0"
      apply (elim exE conjE)
      apply (rule that)
      apply assumption+
      done
    have "leaf_ids_impl signed_cell test_forest test_x (new_matrix 8 1) 0 (Suc 0) [0] =
      Some (fold (\<lambda>k m. set_cell m 0 k (signed_cell (int (leaf_of test_forest (bind0 test_x 0) k)))) [0]
              (new_matrix 8 1),
            Inr (sum_list (map (comparisons test_forest (bind0 test_x 0)) [0])))"
      using pre i walkable_returns_leaf(1)[OF w]
      by (intro leaf_ids_impl_single) (simp_all add: leaf_ids_pre_def)
    then have known: "leaf_ids_impl signed_cell test_forest test_x (new_matrix 8 1) 0 (0 + 1) [0] =
        Some (set_cell (new_matrix 8 1) 0 0 3, Inr 2)"
      by (simp add: leaf_of_def comparisons_def reached_test)
    from run known have c: "c = 2" and ids': "ids' = set_cell (new_matrix 8 1) 0 0 3"
      by simp_all
    have "cell ids' 0 0 = signed_cell (int leaf)"
      using cells by simp
    then have leaf: "leaf = 3"
      by (simp add: ids' cell_set_cell)
    have r1: "leaf_ids_impl signed_cell test_forest test_x (new_matrix 8 1) 0 (0 + 1) [0] =
             Some (ids', Inr 2)"
      using run c by simp
    have r2: "\<forall>i' k'. cell ids' i' k' = (if i' = 0 \<and> k' = 0 then 3 else 0)"
      using cells by (simp add: leaf new_matrix_def)
    have r3: "descends (graph test_forest) (split_tests test_forest) (bind0 test_x 0)
             (getRoot (graph test_forest) 0) 2 3"
      using walk by (simp only: c leaf)
    have r4: "outDegree (graph test_forest) 3 = 0"
      using stop by (simp only: leaf)
    show ?thesis
      by (rule exI[of _ ids'], intro conjI r1 r2 r3 r4)
  qed
  have second: "\<forall>tests. \<exists>ids'.
      leaf_ids_impl size_t_cell (single_leaf_forest\<lparr>split_tests := tests\<rparr>) test_x
          (new_matrix 8 1) 0 (0 + 1) [0] =
        Some (ids', Inr 0) \<and>
      (\<forall>i' k'. cell ids' i' k' = 0)"
  proof
    fix tests
    from t'[rule_format, of tests] obtain ids' where
      run: "leaf_ids_impl size_t_cell (single_leaf_forest\<lparr>split_tests := tests\<rparr>) test_x
              (new_matrix 8 1) 0 (0 + 1) [0] = Some (ids', Inr 0)"
      and cells: "\<forall>i' k'. cell ids' i' k' =
              (if i' = 0 \<and> k' = 0 then size_t_cell (int (getRoot (graph single_leaf_forest) 0))
               else cell (new_matrix 8 1) i' k')"
      apply (elim exE conjE)
      apply (rule that)
      apply assumption+
      done
    have "\<forall>i' k'. cell ids' i' k' = 0"
      using cells by (simp add: root new_matrix_def)
    with run show "\<exists>ids'.
      leaf_ids_impl size_t_cell (single_leaf_forest\<lparr>split_tests := tests\<rparr>) test_x
          (new_matrix 8 1) 0 (0 + 1) [0] =
        Some (ids', Inr 0) \<and>
      (\<forall>i' k'. cell ids' i' k' = 0)"
      by (intro exI[of _ ids'] conjI)
  qed
  show ?thesis
    apply (rule conjI, rule pre)
    apply (rule conjI, rule i)
    apply (rule conjI, rule w)
    apply (rule conjI, rule first)
    apply (rule conjI, rule pre')
    apply (rule conjI, rule od)
    apply (rule second)
    done
qed

text \<open>
  Claim C2. A call of \<^verbatim>\<open>leaf_ids\<close> that meets the preconditions, on a forest whose
  requested trees are well formed, returns. For every sample \<open>i\<close> and requested tree
  \<open>k\<close> the walk of section 4.1 from the root of tree \<open>k\<close> ends, after some number of
  comparisons, in a node without children, and cell \<open>(i, k)\<close> of the id matrix holds the
  id of that node. The cell of every other tree holds \<open>-1\<close> as a value of the cell type,
  whatever the matrix held before. An empty index list stands for all trees. The returned
  value is the sum of the comparison counts of these walks, over all samples and
  requested trees, divided by the number of samples.
\<close>

theorem leaf_ids_fills_requested_cells:
  assumes "leaf_ids_pre F features ids tree_indices"
    and "valid_schedule (resolve_threads hw n_threads) (shape0 features) sched"
    and "all_walkable F features (resolved_tree_indices (graph F) tree_indices)"
  shows "\<exists>ids' leaf count.
           leaf_ids to_cell F hw sched features ids n_threads tree_indices =
             Some (ids', Inr (Quotient
               (\<Sum>i<shape0 features.
                  \<Sum>k\<in>set (resolved_tree_indices (graph F) tree_indices). count i k)
               (shape0 features))) \<and>
           shape0 ids' = shape0 ids \<and> shape1 ids' = shape1 ids \<and>
           (\<forall>i<shape0 features. \<forall>k\<in>set (resolved_tree_indices (graph F) tree_indices).
              descends (graph F) (split_tests F) (bind0 features i) (getRoot (graph F) k)
                (count i k) (leaf i k) \<and>
              outDegree (graph F) (leaf i k) = 0 \<and>
              leaf i k = leaf_of F (bind0 features i) k \<and>
              count i k = comparisons F (bind0 features i) k \<and>
              traverse (graph F) (split_tests F) (bind0 features i) (getRoot (graph F) k) 0 =
                Some (Inr (leaf i k, count i k))) \<and>
           (\<forall>i<shape0 features. \<forall>k<num_trees F.
              cell ids' i k =
                (if k \<in> set (resolved_tree_indices (graph F) tree_indices)
                 then to_cell (int (leaf i k)) else to_cell (- 1))) \<and>
           set (resolved_tree_indices (graph F) tree_indices) =
             (if set tree_indices = {} then {..<num_trees F} else set tree_indices) \<and>
           total_comparisons F features (resolved_tree_indices (graph F) tree_indices) =
             (\<Sum>i<shape0 features.
                \<Sum>k\<in>set (resolved_tree_indices (graph F) tree_indices). count i k)"
proof -
  define ks where "ks = resolved_tree_indices (graph F) tree_indices"
  define leaf where "leaf = (\<lambda>i k. leaf_of F (bind0 features i) k)"
  define count where "count = (\<lambda>i k. comparisons F (bind0 features i) k)"
  have ret: "all_returning F features ks"
    using assms(3) by (simp add: ks_def all_walkable_returning)
  have dist: "distinct ks"
    by (simp add: ks_def resolved_tree_indices_def)
  have total: "total_comparisons F features ks = (\<Sum>i<shape0 features. \<Sum>k\<in>set ks. count i k)"
    using dist
    by (simp add: total_comparisons_def count_def sum_list_distinct_conv_sum_set
        interv_sum_list_conv_sum_set_nat atLeast0LessThan)
  have run: "leaf_ids to_cell F hw sched features ids n_threads tree_indices =
      Some (leaf_id_matrix to_cell F features ids ks,
            Inr (Quotient (\<Sum>i<shape0 features. \<Sum>k\<in>set ks. count i k) (shape0 features)))"
    using leaf_ids_closed_form[OF assms(1,2)] ret total by (simp add: ks_def)
  have p: "shape0 features = shape0 ids" "shape1 ids = numRoots (graph F)"
    using assms(1) by (simp_all add: leaf_ids_pre_def)
  have cells: "\<forall>i<shape0 features. \<forall>k<num_trees F.
      cell (leaf_id_matrix to_cell F features ids ks) i k =
        (if k \<in> set ks then to_cell (int (leaf i k)) else to_cell (- 1))"
    using p by (simp add: leaf_id_matrix_def num_trees_def leaf_def)
  have walks: "\<forall>i<shape0 features. \<forall>k\<in>set ks.
      descends (graph F) (split_tests F) (bind0 features i) (getRoot (graph F) k)
        (count i k) (leaf i k) \<and>
      outDegree (graph F) (leaf i k) = 0 \<and>
      leaf i k = leaf_of F (bind0 features i) k \<and>
      count i k = comparisons F (bind0 features i) k \<and>
      traverse (graph F) (split_tests F) (bind0 features i) (getRoot (graph F) k) 0 =
        Some (Inr (leaf i k, count i k))"
  proof (intro allI impI ballI)
    fix i k assume i: "i < shape0 features" and k: "k \<in> set ks"
    have w: "walkable F (bind0 features i) k"
      using assms(3) i k by (simp add: all_walkable_def list_all_iff ks_def)
    have "traverse (graph F) (split_tests F) (bind0 features i) (getRoot (graph F) k) 0 =
        Some (Inr (leaf i k, count i k))"
      using traverse_returns_leaf[OF walkable_returns_leaf(1)[OF w], of 0]
      by (simp add: leaf_def count_def)
    then show "descends (graph F) (split_tests F) (bind0 features i) (getRoot (graph F) k)
        (count i k) (leaf i k) \<and>
      outDegree (graph F) (leaf i k) = 0 \<and>
      leaf i k = leaf_of F (bind0 features i) k \<and>
      count i k = comparisons F (bind0 features i) k \<and>
      traverse (graph F) (split_tests F) (bind0 features i) (getRoot (graph F) k) 0 =
        Some (Inr (leaf i k, count i k))"
      using walkable_returns_leaf(2,3)[OF w]
      by (simp add: leaf_def count_def outDegree_def)
  qed
  have shapes: "shape0 (leaf_id_matrix to_cell F features ids ks) = shape0 ids"
    "shape1 (leaf_id_matrix to_cell F features ids ks) = shape1 ids"
    by (simp_all add: leaf_id_matrix_def)
  have res: "set ks = (if set tree_indices = {} then {..<num_trees F} else set tree_indices)"
    by (simp add: ks_def set_resolved num_trees_def)
  show ?thesis
    unfolding ks_def [symmetric]
    apply (rule exI[of _ "leaf_id_matrix to_cell F features ids ks"])
    apply (rule exI[of _ leaf])
    apply (rule exI[of _ count])
    apply (intro conjI run shapes walks cells res total)
    done
qed

theorem leaf_ids_fills_requested_cells_witness:
  "leaf_ids_pre two_tree_forest test_x (stale_ids :: nat matrix) [0] \<and>
   valid_schedule (resolve_threads 4 2) (shape0 test_x) two_worker_schedule \<and>
   all_walkable two_tree_forest test_x (resolved_tree_indices (graph two_tree_forest) [0]) \<and>
   (\<exists>ids'. leaf_ids size_t_cell two_tree_forest 4 two_worker_schedule test_x stale_ids 2 [0] =
             Some (ids', Inr (Quotient 16 8)) \<and>
           map (\<lambda>i. cell ids' i 0) [0..<8] = [3, 3, 4, 4, 5, 5, 6, 6] \<and>
           map (\<lambda>i. cell ids' i 1) [0..<8] = replicate 8 18446744073709551615) \<and>
   leaf_ids_pre two_tree_forest test_x (stale_ids :: int matrix) [1] \<and>
   valid_schedule (resolve_threads 4 1) (shape0 test_x) one_worker_schedule \<and>
   all_walkable two_tree_forest test_x (resolved_tree_indices (graph two_tree_forest) [1]) \<and>
   (\<exists>ids'. leaf_ids signed_cell two_tree_forest 4 one_worker_schedule test_x stale_ids 1 [1] =
             Some (ids', Inr (Quotient 0 8)) \<and>
           map (\<lambda>i. cell ids' i 0) [0..<8] = replicate 8 (- 1) \<and>
           map (\<lambda>i. cell ids' i 1) [0..<8] = replicate 8 7) \<and>
   leaf_ids_pre two_tree_forest test_x (stale_ids :: int matrix) [] \<and>
   all_walkable two_tree_forest test_x (resolved_tree_indices (graph two_tree_forest) []) \<and>
   (\<exists>ids'. leaf_ids signed_cell two_tree_forest 4 one_worker_schedule test_x stale_ids 1 [] =
             Some (ids', Inr (Quotient 16 8)) \<and>
           map (\<lambda>i. cell ids' i 0) [0..<8] = [3, 3, 4, 4, 5, 5, 6, 6] \<and>
           map (\<lambda>i. cell ids' i 1) [0..<8] = replicate 8 7)"
proof -
  have n: "shape0 test_x = 8" "num_trees two_tree_forest = 2"
    by (simp_all add: shape_test_x num_trees_def numRoots_def two_tree_forest_def)
  have w0: "all_walkable two_tree_forest test_x (resolved_tree_indices (graph two_tree_forest) [0])"
    using walkable_two_tree_each(1) by (simp add: resolved_two_tree)
  have w1: "all_walkable two_tree_forest test_x (resolved_tree_indices (graph two_tree_forest) [1])"
    using walkable_two_tree_each(2) by (simp add: resolved_two_tree)
  have w2: "all_walkable two_tree_forest test_x (resolved_tree_indices (graph two_tree_forest) [])"
    using walkable_two_tree by (simp add: resolved_two_tree)
  have p1: "leaf_ids_pre two_tree_forest test_x (stale_ids :: int matrix) [1]"
    using leaf_ids_pre_two_tree(2) by simp
  have first: "\<exists>ids'. leaf_ids size_t_cell two_tree_forest 4 two_worker_schedule test_x stale_ids 2 [0] =
             Some (ids', Inr (Quotient 16 8)) \<and>
           map (\<lambda>i. cell ids' i 0) [0..<8] = [3, 3, 4, 4, 5, 5, 6, 6] \<and>
           map (\<lambda>i. cell ids' i 1) [0..<8] = replicate 8 18446744073709551615"
  proof -
    from leaf_ids_fills_requested_cells[OF leaf_ids_pre_two_tree(1) two_worker_valid w0,
        of size_t_cell]
    obtain ids' leaf count where
      run: "leaf_ids size_t_cell two_tree_forest 4 two_worker_schedule test_x stale_ids 2 [0] =
             Some (ids', Inr (Quotient
               (\<Sum>i<shape0 test_x.
                  \<Sum>k\<in>set (resolved_tree_indices (graph two_tree_forest) [0]). count i k)
               (shape0 test_x)))"
      and walks: "\<forall>i<shape0 test_x. \<forall>k\<in>set (resolved_tree_indices (graph two_tree_forest) [0]).
              descends (graph two_tree_forest) (split_tests two_tree_forest) (bind0 test_x i)
                (getRoot (graph two_tree_forest) k) (count i k) (leaf i k) \<and>
              outDegree (graph two_tree_forest) (leaf i k) = 0 \<and>
              leaf i k = leaf_of two_tree_forest (bind0 test_x i) k \<and>
              count i k = comparisons two_tree_forest (bind0 test_x i) k \<and>
              traverse (graph two_tree_forest) (split_tests two_tree_forest) (bind0 test_x i)
                  (getRoot (graph two_tree_forest) k) 0 =
                Some (Inr (leaf i k, count i k))"
      and cells: "\<forall>i<shape0 test_x. \<forall>k<num_trees two_tree_forest.
              cell ids' i k =
                (if k \<in> set (resolved_tree_indices (graph two_tree_forest) [0])
                 then size_t_cell (int (leaf i k)) else size_t_cell (- 1))"
      and total: "total_comparisons two_tree_forest test_x
                    (resolved_tree_indices (graph two_tree_forest) [0]) =
             (\<Sum>i<shape0 test_x.
                \<Sum>k\<in>set (resolved_tree_indices (graph two_tree_forest) [0]). count i k)"
      apply (elim exE conjE)
      apply (rule that)
      apply assumption+
      done
    have sum: "(\<Sum>i<shape0 test_x.
                  \<Sum>k\<in>set (resolved_tree_indices (graph two_tree_forest) [0]). count i k) = 16"
      using total by (simp add: resolved_two_tree total_two_tree)
    have l: "\<forall>i<8. leaf i 0 = leaf_of two_tree_forest (bind0 test_x i) 0"
      using walks by (simp add: n resolved_two_tree)
    have c0: "\<forall>i<8. cell ids' i 0 = leaf_of two_tree_forest (bind0 test_x i) 0"
      using cells l by (simp add: n resolved_two_tree)
    have c1: "\<forall>i<8. cell ids' i 1 = 18446744073709551615"
      using cells by (simp add: n resolved_two_tree)
    have r1: "leaf_ids size_t_cell two_tree_forest 4 two_worker_schedule test_x stale_ids 2 [0] =
             Some (ids', Inr (Quotient 16 8))"
      using run unfolding sum by (simp only: n)
    have r2: "map (\<lambda>i. cell ids' i 0) [0..<8] = [3, 3, 4, 4, 5, 5, 6, 6]"
      using c0 by (simp add: upt_8 leaf_of_def reached_two_tree)
    have r3: "map (\<lambda>i. cell ids' i 1) [0..<8] = replicate 8 18446744073709551615"
      using c1 by (simp add: upt_8 replicate_8)
    show ?thesis
      by (rule exI[of _ ids'], intro conjI r1 r2 r3)
  qed
  have second: "\<exists>ids'. leaf_ids signed_cell two_tree_forest 4 one_worker_schedule test_x stale_ids 1 [1] =
             Some (ids', Inr (Quotient 0 8)) \<and>
           map (\<lambda>i. cell ids' i 0) [0..<8] = replicate 8 (- 1) \<and>
           map (\<lambda>i. cell ids' i 1) [0..<8] = replicate 8 7"
  proof -
    from leaf_ids_fills_requested_cells[OF p1 one_worker_valid w1, of signed_cell]
    obtain ids' leaf count where
      run: "leaf_ids signed_cell two_tree_forest 4 one_worker_schedule test_x stale_ids 1 [1] =
             Some (ids', Inr (Quotient
               (\<Sum>i<shape0 test_x.
                  \<Sum>k\<in>set (resolved_tree_indices (graph two_tree_forest) [1]). count i k)
               (shape0 test_x)))"
      and walks: "\<forall>i<shape0 test_x. \<forall>k\<in>set (resolved_tree_indices (graph two_tree_forest) [1]).
              descends (graph two_tree_forest) (split_tests two_tree_forest) (bind0 test_x i)
                (getRoot (graph two_tree_forest) k) (count i k) (leaf i k) \<and>
              outDegree (graph two_tree_forest) (leaf i k) = 0 \<and>
              leaf i k = leaf_of two_tree_forest (bind0 test_x i) k \<and>
              count i k = comparisons two_tree_forest (bind0 test_x i) k \<and>
              traverse (graph two_tree_forest) (split_tests two_tree_forest) (bind0 test_x i)
                  (getRoot (graph two_tree_forest) k) 0 =
                Some (Inr (leaf i k, count i k))"
      and cells: "\<forall>i<shape0 test_x. \<forall>k<num_trees two_tree_forest.
              cell ids' i k =
                (if k \<in> set (resolved_tree_indices (graph two_tree_forest) [1])
                 then signed_cell (int (leaf i k)) else signed_cell (- 1))"
      and total: "total_comparisons two_tree_forest test_x
                    (resolved_tree_indices (graph two_tree_forest) [1]) =
             (\<Sum>i<shape0 test_x.
                \<Sum>k\<in>set (resolved_tree_indices (graph two_tree_forest) [1]). count i k)"
      apply (elim exE conjE)
      apply (rule that)
      apply assumption+
      done
    have sum: "(\<Sum>i<shape0 test_x.
                  \<Sum>k\<in>set (resolved_tree_indices (graph two_tree_forest) [1]). count i k) = 0"
      using total by (simp add: resolved_two_tree total_two_tree)
    have l: "\<forall>i<8. leaf i (Suc 0) = leaf_of two_tree_forest (bind0 test_x i) (Suc 0)"
      using walks by (simp add: n resolved_two_tree)
    have c0: "\<forall>i<8. cell ids' i 0 = - 1"
      using cells by (simp add: n resolved_two_tree)
    have c1: "\<forall>i<8. cell ids' i (Suc 0) = int (leaf_of two_tree_forest (bind0 test_x i) (Suc 0))"
      using cells l by (simp add: n resolved_two_tree)
    have r1: "leaf_ids signed_cell two_tree_forest 4 one_worker_schedule test_x stale_ids 1 [1] =
             Some (ids', Inr (Quotient 0 8))"
      using run unfolding sum by (simp only: n)
    have r2: "map (\<lambda>i. cell ids' i 0) [0..<8] = replicate 8 (- 1)"
      using c0 by (simp add: upt_8 replicate_8)
    have r3: "map (\<lambda>i. cell ids' i 1) [0..<8] = replicate 8 7"
      using c1 by (simp add: upt_8 replicate_8 leaf_of_def reached_two_tree)
    show ?thesis
      by (rule exI[of _ ids'], intro conjI r1 r2 r3)
  qed
  have third: "\<exists>ids'. leaf_ids signed_cell two_tree_forest 4 one_worker_schedule test_x stale_ids 1 [] =
             Some (ids', Inr (Quotient 16 8)) \<and>
           map (\<lambda>i. cell ids' i 0) [0..<8] = [3, 3, 4, 4, 5, 5, 6, 6] \<and>
           map (\<lambda>i. cell ids' i 1) [0..<8] = replicate 8 7"
  proof -
    from leaf_ids_fills_requested_cells[OF leaf_ids_pre_two_tree(3) one_worker_valid w2,
        of signed_cell]
    obtain ids' leaf count where
      run: "leaf_ids signed_cell two_tree_forest 4 one_worker_schedule test_x stale_ids 1 [] =
             Some (ids', Inr (Quotient
               (\<Sum>i<shape0 test_x.
                  \<Sum>k\<in>set (resolved_tree_indices (graph two_tree_forest) []). count i k)
               (shape0 test_x)))"
      and walks: "\<forall>i<shape0 test_x. \<forall>k\<in>set (resolved_tree_indices (graph two_tree_forest) []).
              descends (graph two_tree_forest) (split_tests two_tree_forest) (bind0 test_x i)
                (getRoot (graph two_tree_forest) k) (count i k) (leaf i k) \<and>
              outDegree (graph two_tree_forest) (leaf i k) = 0 \<and>
              leaf i k = leaf_of two_tree_forest (bind0 test_x i) k \<and>
              count i k = comparisons two_tree_forest (bind0 test_x i) k \<and>
              traverse (graph two_tree_forest) (split_tests two_tree_forest) (bind0 test_x i)
                  (getRoot (graph two_tree_forest) k) 0 =
                Some (Inr (leaf i k, count i k))"
      and cells: "\<forall>i<shape0 test_x. \<forall>k<num_trees two_tree_forest.
              cell ids' i k =
                (if k \<in> set (resolved_tree_indices (graph two_tree_forest) [])
                 then signed_cell (int (leaf i k)) else signed_cell (- 1))"
      and total: "total_comparisons two_tree_forest test_x
                    (resolved_tree_indices (graph two_tree_forest) []) =
             (\<Sum>i<shape0 test_x.
                \<Sum>k\<in>set (resolved_tree_indices (graph two_tree_forest) []). count i k)"
      apply (elim exE conjE)
      apply (rule that)
      apply assumption+
      done
    have sum: "(\<Sum>i<shape0 test_x.
                  \<Sum>k\<in>set (resolved_tree_indices (graph two_tree_forest) []). count i k) = 16"
      using total by (simp add: resolved_two_tree total_two_tree)
    have l: "\<forall>i<8. leaf i 0 = leaf_of two_tree_forest (bind0 test_x i) 0 \<and>
                   leaf i (Suc 0) = leaf_of two_tree_forest (bind0 test_x i) (Suc 0)"
      using walks by (simp add: n resolved_two_tree)
    have c0: "\<forall>i<8. cell ids' i 0 = int (leaf_of two_tree_forest (bind0 test_x i) 0)"
      using cells l by (simp add: n resolved_two_tree)
    have c1: "\<forall>i<8. cell ids' i (Suc 0) = int (leaf_of two_tree_forest (bind0 test_x i) (Suc 0))"
      using cells l by (simp add: n resolved_two_tree)
    have r1: "leaf_ids signed_cell two_tree_forest 4 one_worker_schedule test_x stale_ids 1 [] =
             Some (ids', Inr (Quotient 16 8))"
      using run unfolding sum by (simp only: n)
    have r2: "map (\<lambda>i. cell ids' i 0) [0..<8] = [3, 3, 4, 4, 5, 5, 6, 6]"
      using c0 by (simp add: upt_8 leaf_of_def reached_two_tree)
    have r3: "map (\<lambda>i. cell ids' i 1) [0..<8] = replicate 8 7"
      using c1 by (simp add: upt_8 replicate_8 leaf_of_def reached_two_tree)
    show ?thesis
      by (rule exI[of _ ids'], intro conjI r1 r2 r3)
  qed
  show ?thesis
    by (intro conjI leaf_ids_pre_two_tree(1) two_worker_valid w0 first p1 one_worker_valid w1
        second leaf_ids_pre_two_tree(3) w2 third)
qed

text \<open>
  Claim C8. Two calls of \<^verbatim>\<open>leaf_ids\<close> on the same forest, features, id matrix and tree
  indices that differ in the worker count, and in how the executor hands the samples to
  the workers, give the same id matrix and the same average: if one of them returns a
  result, the other returns that very result.
\<close>

theorem leaf_ids_independent_of_worker_count:
  assumes "valid_schedule (resolve_threads hw n_threads) (shape0 features) sched"
    and "valid_schedule (resolve_threads hw n_threads') (shape0 features) sched'"
    and "leaf_ids to_cell F hw sched features ids n_threads tree_indices = Some (ids', Inr avg)"
  shows "leaf_ids to_cell F hw sched' features ids n_threads' tree_indices = Some (ids', Inr avg)"
proof -
  note ok = leaf_ids_success[OF assms(3) assms(1)]
  from leaf_ids_closed_form[OF ok(1) assms(1) ok(2)] assms(3)
  have "ids' = leaf_id_matrix to_cell F features ids (resolved_tree_indices (graph F) tree_indices)"
    "avg = Quotient (total_comparisons F features (resolved_tree_indices (graph F) tree_indices))
             (shape0 features)"
    by simp_all
  with leaf_ids_closed_form[OF ok(1) assms(2) ok(2)] show ?thesis by simp
qed

theorem leaf_ids_independent_of_worker_count_witness:
  "valid_schedule (resolve_threads 4 1) (shape0 test_x) one_worker_schedule \<and>
   valid_schedule (resolve_threads 4 2) (shape0 test_x) two_worker_schedule \<and>
   leaf_ids signed_cell test_forest 4 one_worker_schedule test_x (new_matrix 8 1) 1 [] =
     Some (leaf_id_matrix signed_cell test_forest test_x (new_matrix 8 1) [0],
           Inr (Quotient (total_comparisons test_forest test_x [0]) 8)) \<and>
   leaf_ids signed_cell test_forest 4 two_worker_schedule test_x (new_matrix 8 1) 2 [] =
     Some (leaf_id_matrix signed_cell test_forest test_x (new_matrix 8 1) [0],
           Inr (Quotient (total_comparisons test_forest test_x [0]) 8))"
proof -
  have s1: "valid_schedule (resolve_threads 4 1) (shape0 test_x) one_worker_schedule"
    by (auto simp: valid_schedule_def resolve_threads_def test_x_def matrix_of_def
        one_worker_schedule_def)
  have s2: "valid_schedule (resolve_threads 4 2) (shape0 test_x) two_worker_schedule"
    by (auto simp: valid_schedule_def resolve_threads_def test_x_def matrix_of_def
        two_worker_schedule_def)
  have pre: "leaf_ids_pre test_forest test_x (new_matrix 8 1 :: int matrix) []"
    by (simp add: leaf_ids_pre_def test_forest_def test_graph_def test_x_def matrix_of_def
        new_matrix_def numRoots_def)
  have ks: "resolved_tree_indices (graph test_forest) [] = [0]"
    by (simp add: resolved_tree_indices_def std_set_def test_forest_def test_graph_def numRoots_def)
  have walk: "all_walkable test_forest test_x [0]"
    by (simp add: all_walkable_def walkable_def
        test_forest_def test_graph_def num_nodes_def numNodes_def numRoots_def getRoot_def
        eval_nat_numeral LessEqualSplitTest_def test_x_def matrix_of_def bind0_def upt_rec[of 0])
  have n: "shape0 test_x = 8" by (simp add: test_x_def matrix_of_def)
  have run: "leaf_ids signed_cell test_forest 4 one_worker_schedule test_x (new_matrix 8 1) 1 [] =
     Some (leaf_id_matrix signed_cell test_forest test_x (new_matrix 8 1) [0],
           Inr (Quotient (total_comparisons test_forest test_x [0]) 8))"
    using leaf_ids_closed_form[OF pre s1] all_walkable_returning[OF walk] by (simp add: ks n)
  show ?thesis
    using leaf_ids_independent_of_worker_count[OF s1 s2 run] s1 s2 run by simp
qed

text \<open>
  Claim C10. A feature matrix without rows passes every precondition check of
  \<^verbatim>\<open>leaf_ids\<close>; the call returns, the id matrix is what it was, and the returned value
  is the quotient of the comparison total 0 by the sample count 0: the division is not
  guarded.
\<close>

theorem leaf_ids_zero_rows:
  assumes "leaf_ids_pre F features ids tree_indices" and "shape0 features = 0"
    and "valid_schedule (resolve_threads hw n_threads) (shape0 features) sched"
  shows "leaf_ids to_cell F hw sched features ids n_threads tree_indices =
           Some (ids, Inr (Quotient 0 0))"
proof -
  have "sched = []" using assms(2,3) by (simp add: valid_schedule_def)
  moreover have "fill ids (to_cell (- 1)) = ids"
    using assms(1,2) by (simp add: fill_no_rows leaf_ids_pre_def)
  ultimately show ?thesis
    using assms(2) by (simp add: leaf_ids_unfold[OF assms(1)])
qed

theorem leaf_ids_zero_rows_witness:
  "leaf_ids_pre test_forest (new_matrix 0 2 :: real matrix) (new_matrix 0 1 :: int matrix) [0] \<and>
   shape0 (new_matrix 0 2 :: real matrix) = 0 \<and>
   valid_schedule (resolve_threads 4 (- 1)) (shape0 (new_matrix 0 2 :: real matrix)) [] \<and>
   leaf_ids signed_cell test_forest 4 [] (new_matrix 0 2 :: real matrix) (new_matrix 0 1) (- 1) [0] =
     Some (new_matrix 0 1, Inr (Quotient 0 0))"
proof -
  have pre: "leaf_ids_pre test_forest (new_matrix 0 2 :: real matrix) (new_matrix 0 1 :: int matrix) [0]"
    by (simp add: leaf_ids_pre_def test_forest_def test_graph_def new_matrix_def numRoots_def)
  have n: "shape0 (new_matrix 0 2 :: real matrix) = 0"
    by (simp add: new_matrix_def)
  have s: "valid_schedule (resolve_threads 4 (- 1)) (shape0 (new_matrix 0 2 :: real matrix)) []"
    by (simp add: valid_schedule_def new_matrix_def)
  show ?thesis
    using leaf_ids_zero_rows[OF pre n s, of signed_cell] pre n s by simp
qed

text \<open>
  Claim C7. When a shape or range precondition of \<^verbatim>\<open>leaf_ids\<close>, \<^verbatim>\<open>predict_proba\<close>,
  \<^verbatim>\<open>predict\<close> or \<^verbatim>\<open>merge\<close> does not hold, the call returns a precondition violation
  and the caller's output (id matrix, probability matrix, label vector, forest) is what it
  was, whatever the forest's trees look like. Conversely a call that ends in a
  precondition violation has written nothing, so no such check comes after a write.
\<close>

theorem violated_precondition_leaves_output_untouched:
  "(\<not> leaf_ids_pre F features ids tree_indices \<longrightarrow>
      (\<exists>m. leaf_ids to_cell F hw sched features ids n_threads tree_indices =
             Some (ids, Inl (PreconditionViolation m)))) \<and>
   (\<not> predict_proba_pre F features probs tree_indices \<longrightarrow>
      (\<exists>m. predict_proba F A hw sched features probs n_threads tree_indices =
             Some (probs, Inl (PreconditionViolation m)))) \<and>
   (\<not> predict_pre F features labels tree_indices \<longrightarrow>
      (\<exists>m. predict F A hw sched features labels n_threads tree_indices =
             Some (labels, Inl (PreconditionViolation m)))) \<and>
   (problem_spec F \<noteq> problem_spec other \<longrightarrow>
      (\<exists>m. merge F other = (F, Inl (PreconditionViolation m)))) \<and>
   (valid_schedule (resolve_threads hw n_threads) (shape0 features) sched \<longrightarrow>
    leaf_ids to_cell F hw sched features ids n_threads tree_indices =
      Some (ids', Inl (PreconditionViolation m1)) \<longrightarrow> ids' = ids) \<and>
   (predict_proba F A hw sched features probs n_threads tree_indices =
      Some (probs', Inl (PreconditionViolation m2)) \<longrightarrow> probs' = probs) \<and>
   (predict F A hw sched features labels n_threads tree_indices =
      Some (labels', Inl (PreconditionViolation m3)) \<longrightarrow> labels' = labels) \<and>
   (merge F other = (F', Inl e) \<longrightarrow> F' = F)"
proof (intro conjI impI)
  assume "\<not> leaf_ids_pre F features ids tree_indices"
  from leaf_ids_failed_message[OF this]
  show "\<exists>m. leaf_ids to_cell F hw sched features ids n_threads tree_indices =
             Some (ids, Inl (PreconditionViolation m))" by blast
next
  assume "\<not> predict_proba_pre F features probs tree_indices"
  from predict_proba_failed_message[OF this]
  show "\<exists>m. predict_proba F A hw sched features probs n_threads tree_indices =
             Some (probs, Inl (PreconditionViolation m))" by blast
next
  assume "\<not> predict_pre F features labels tree_indices"
  from predict_failed_message[OF this, of A hw sched n_threads]
  show "\<exists>m. predict F A hw sched features labels n_threads tree_indices =
             Some (labels, Inl (PreconditionViolation m))" by blast
next
  assume "problem_spec F \<noteq> problem_spec other"
  from merge_failed_message[OF this]
  show "\<exists>m. merge F other = (F, Inl (PreconditionViolation m))" by blast
next
  assume "valid_schedule (resolve_threads hw n_threads) (shape0 features) sched"
    and "leaf_ids to_cell F hw sched features ids n_threads tree_indices =
      Some (ids', Inl (PreconditionViolation m1))"
  then show "ids' = ids" by (rule leaf_ids_violation_untouched[rotated])
next
  assume "predict_proba F A hw sched features probs n_threads tree_indices =
      Some (probs', Inl (PreconditionViolation m2))"
  then show "probs' = probs" by (rule predict_proba_violation_untouched)
next
  assume "predict F A hw sched features labels n_threads tree_indices =
      Some (labels', Inl (PreconditionViolation m3))"
  then show "labels' = labels" by (rule predict_violation_untouched)
next
  assume "merge F other = (F', Inl e)"
  then show "F' = F" by (rule merge_failure_untouched)
qed

theorem violated_precondition_leaves_output_untouched_witness:
  "\<not> leaf_ids_pre test_forest wide_x (new_matrix 8 1 :: int matrix) [] \<and>
   (\<exists>m. leaf_ids signed_cell test_forest 4 one_worker_schedule wide_x (new_matrix 8 1) 1 [] =
          Some (new_matrix 8 1, Inl (PreconditionViolation m))) \<and>
   \<not> predict_proba_pre test_forest wide_x (new_matrix 8 4 :: real matrix) [] \<and>
   (\<exists>m. predict_proba test_forest vote_acc 4 one_worker_schedule wide_x (new_matrix 8 4) 1 [] =
          Some (new_matrix 8 4, Inl (PreconditionViolation m))) \<and>
   \<not> predict_pre test_forest wide_x (replicate 8 (0::int)) [] \<and>
   (\<exists>m. predict test_forest vote_acc 4 one_worker_schedule wide_x (replicate 8 0) 1 [] =
          Some (replicate 8 0, Inl (PreconditionViolation m))) \<and>
   problem_spec test_forest \<noteq> problem_spec other_spec_forest \<and>
   (\<exists>m. merge test_forest other_spec_forest = (test_forest, Inl (PreconditionViolation m))) \<and>
   valid_schedule (resolve_threads 4 1) (shape0 wide_x) one_worker_schedule \<and>
   leaf_ids signed_cell test_forest 4 one_worker_schedule wide_x (new_matrix 8 1) 1 [] =
     Some (new_matrix 8 1, Inl (PreconditionViolation
       ''RandomForest::leaf_ids(): Number of features in prediction differs from training.'')) \<and>
   predict_proba test_forest vote_acc 4 one_worker_schedule wide_x (new_matrix 8 4) 1 [] =
     Some (new_matrix 8 4, Inl (PreconditionViolation
       ''RandomForest::predict_proba(): Number of features in prediction differs from training.'')) \<and>
   predict test_forest vote_acc 4 one_worker_schedule wide_x (replicate 8 0) 1 [] =
     Some (replicate 8 0, Inl (PreconditionViolation
       ''RandomForest::predict(): Number of features in prediction differs from training.'')) \<and>
   merge test_forest other_spec_forest =
     (test_forest, Inl (PreconditionViolation
       ''RandomForest::merge(): You cannot merge with different problem specs.''))"
proof -
  have h1: "\<not> leaf_ids_pre test_forest wide_x (new_matrix 8 1 :: int matrix) []"
    by (simp add: leaf_ids_pre_def wide_x_def new_matrix_def test_forest_def)
  have h2: "\<not> predict_proba_pre test_forest wide_x (new_matrix 8 4 :: real matrix) []"
    by (simp add: predict_proba_pre_def wide_x_def new_matrix_def test_forest_def)
  have h3: "\<not> predict_pre test_forest wide_x (replicate 8 (0::int)) []"
    by (simp add: predict_pre_def wide_x_def new_matrix_def test_forest_def)
  have h4: "problem_spec test_forest \<noteq> problem_spec other_spec_forest"
    by (simp add: test_forest_def other_spec_forest_def single_leaf_forest_def)
  have h5: "valid_schedule (resolve_threads 4 1) (shape0 wide_x) one_worker_schedule"
    by (auto simp: valid_schedule_def resolve_threads_def wide_x_def new_matrix_def
        one_worker_schedule_def)
  note t = violated_precondition_leaves_output_untouched
    [of test_forest wide_x "new_matrix 8 1" "[]" signed_cell 4 one_worker_schedule 1
        "new_matrix 8 4" vote_acc "replicate 8 0" other_spec_forest]
  from t h1 h2 h3 h4 h5 wide_leaf_ids wide_predict_proba wide_predict other_spec_merge
  show ?thesis by blast
qed

text \<open>
  Claim C9, as amended. When a precondition of one of the four operations does not hold,
  the caller receives a \<open>PreconditionViolation\<close> whose message is one of the fixed texts
  of that operation (for \<^verbatim>\<open>predict\<close> also those of the \<^verbatim>\<open>predict_proba\<close> it calls), and
  it is the text of the first check that fails, in the order sample count, feature count,
  column count, tree indices: each check has its own constant text. For \<^verbatim>\<open>predict\<close> a
  tree index out of range is found by \<^verbatim>\<open>predict_proba\<close> and reported with the text of
  \<^verbatim>\<open>predict_proba\<close>. No text contains the expected or the actual count.
\<close>

theorem violated_precondition_gives_fixed_message:
  "(\<not> leaf_ids_pre F features ids tree_indices \<longrightarrow>
      (\<exists>m\<in>set leaf_ids_messages.
         leaf_ids to_cell F hw sched features ids n_threads tree_indices =
           Some (ids, Inl (PreconditionViolation m)))) \<and>
   (\<not> predict_proba_pre F features probs tree_indices \<longrightarrow>
      (\<exists>m\<in>set predict_proba_messages.
         predict_proba F A hw sched features probs n_threads tree_indices =
           Some (probs, Inl (PreconditionViolation m)))) \<and>
   (\<not> predict_pre F features labels tree_indices \<longrightarrow>
      (\<exists>m\<in>set (predict_messages @ predict_proba_messages).
         predict F A hw sched features labels n_threads tree_indices =
           Some (labels, Inl (PreconditionViolation m)))) \<and>
   (problem_spec F \<noteq> problem_spec other \<longrightarrow>
      (\<exists>m\<in>set merge_messages. merge F other = (F, Inl (PreconditionViolation m)))) \<and>
   (shape0 features \<noteq> shape0 ids \<longrightarrow>
      leaf_ids to_cell F hw sched features ids n_threads tree_indices =
        Some (ids, Inl (PreconditionViolation
          ''RandomForest::leaf_ids(): Shape mismatch between features and probabilities.''))) \<and>
   (shape0 features = shape0 ids \<and> shape1 features \<noteq> num_features (problem_spec F) \<longrightarrow>
      leaf_ids to_cell F hw sched features ids n_threads tree_indices =
        Some (ids, Inl (PreconditionViolation
          ''RandomForest::leaf_ids(): Number of features in prediction differs from training.''))) \<and>
   (shape0 features = shape0 ids \<and> shape1 features = num_features (problem_spec F) \<and>
    shape1 ids \<noteq> num_trees F \<longrightarrow>
      leaf_ids to_cell F hw sched features ids n_threads tree_indices =
        Some (ids, Inl (PreconditionViolation
          ''RandomForest::leaf_ids(): Leaf array has wrong shape.''))) \<and>
   (shape0 features = shape0 ids \<and> shape1 features = num_features (problem_spec F) \<and>
    shape1 ids = num_trees F \<and> \<not> list_all (\<lambda>k. k < num_trees F) tree_indices \<longrightarrow>
      leaf_ids to_cell F hw sched features ids n_threads tree_indices =
        Some (ids, Inl (PreconditionViolation
          ''RandomForest::leaf_ids(): Tree index out of range.''))) \<and>
   (shape0 features \<noteq> shape0 probs \<longrightarrow>
      predict_proba F A hw sched features probs n_threads tree_indices =
        Some (probs, Inl (PreconditionViolation
          ''RandomForest::predict_proba(): Shape mismatch between features and probabilities.''))) \<and>
   (shape0 features = shape0 probs \<and> shape1 features \<noteq> num_features (problem_spec F) \<longrightarrow>
      predict_proba F A hw sched features probs n_threads tree_indices =
        Some (probs, Inl (PreconditionViolation
          ''RandomForest::predict_proba(): Number of features in prediction differs from training.''))) \<and>
   (shape0 features = shape0 probs \<and> shape1 features = num_features (problem_spec F) \<and>
    shape1 probs \<noteq> num_classes (problem_spec F) \<longrightarrow>
      predict_proba F A hw sched features probs n_threads tree_indices =
        Some (probs, Inl (PreconditionViolation
          ''RandomForest::predict_proba(): Number of labels in probabilities differs from training.''))) \<and>
   (shape0 features = shape0 probs \<and> shape1 features = num_features (problem_spec F) \<and>
    shape1 probs = num_classes (problem_spec F) \<and> \<not> list_all (\<lambda>k. k < num_trees F) tree_indices \<longrightarrow>
      predict_proba F A hw sched features probs n_threads tree_indices =
        Some (probs, Inl (PreconditionViolation
          ''RandomForest::predict_proba(): Tree index out of range.''))) \<and>
   (shape0 features \<noteq> length labels \<longrightarrow>
      predict F A hw sched features labels n_threads tree_indices =
        Some (labels, Inl (PreconditionViolation
          ''RandomForest::predict(): Shape mismatch between features and labels.''))) \<and>
   (shape0 features = length labels \<and> shape1 features \<noteq> num_features (problem_spec F) \<longrightarrow>
      predict F A hw sched features labels n_threads tree_indices =
        Some (labels, Inl (PreconditionViolation
          ''RandomForest::predict(): Number of features in prediction differs from training.''))) \<and>
   (shape0 features = length labels \<and> shape1 features = num_features (problem_spec F) \<and>
    \<not> list_all (\<lambda>k. k < num_trees F) tree_indices \<longrightarrow>
      predict F A hw sched features labels n_threads tree_indices =
        Some (labels, Inl (PreconditionViolation
          ''RandomForest::predict_proba(): Tree index out of range.''))) \<and>
   (problem_spec F \<noteq> problem_spec other \<longrightarrow>
      merge F other =
        (F, Inl (PreconditionViolation
          ''RandomForest::merge(): You cannot merge with different problem specs.'')))"
proof (intro conjI impI)
  assume a: "\<not> leaf_ids_pre F features ids tree_indices"
  from a show "\<exists>m\<in>set leaf_ids_messages.
         leaf_ids to_cell F hw sched features ids n_threads tree_indices =
           Some (ids, Inl (PreconditionViolation m))"
    by (rule leaf_ids_failed_message)
next
  assume a: "\<not> predict_proba_pre F features probs tree_indices"
  from a show "\<exists>m\<in>set predict_proba_messages.
         predict_proba F A hw sched features probs n_threads tree_indices =
           Some (probs, Inl (PreconditionViolation m))"
    by (rule predict_proba_failed_message)
next
  assume a: "\<not> predict_pre F features labels tree_indices"
  from a show "\<exists>m\<in>set (predict_messages @ predict_proba_messages).
         predict F A hw sched features labels n_threads tree_indices =
           Some (labels, Inl (PreconditionViolation m))"
    by (rule predict_failed_message)
next
  assume a: "problem_spec F \<noteq> problem_spec other"
  from a show "\<exists>m\<in>set merge_messages. merge F other = (F, Inl (PreconditionViolation m))"
    by (rule merge_failed_message)
next
  assume a: "shape0 features \<noteq> shape0 ids"
  show "leaf_ids to_cell F hw sched features ids n_threads tree_indices =
        Some (ids, Inl (PreconditionViolation
          ''RandomForest::leaf_ids(): Shape mismatch between features and probabilities.''))"
    using a by (simp add: leaf_ids_def num_trees_def)
next
  assume a: "shape0 features = shape0 ids \<and> shape1 features \<noteq> num_features (problem_spec F)"
  show "leaf_ids to_cell F hw sched features ids n_threads tree_indices =
        Some (ids, Inl (PreconditionViolation
          ''RandomForest::leaf_ids(): Number of features in prediction differs from training.''))"
    using a by (simp add: leaf_ids_def num_trees_def)
next
  assume a: "shape0 features = shape0 ids \<and> shape1 features = num_features (problem_spec F) \<and>
      shape1 ids \<noteq> num_trees F"
  show "leaf_ids to_cell F hw sched features ids n_threads tree_indices =
        Some (ids, Inl (PreconditionViolation
          ''RandomForest::leaf_ids(): Leaf array has wrong shape.''))"
    using a by (simp add: leaf_ids_def num_trees_def)
next
  assume a: "shape0 features = shape0 ids \<and> shape1 features = num_features (problem_spec F) \<and>
      shape1 ids = num_trees F \<and> \<not> list_all (\<lambda>k. k < num_trees F) tree_indices"
  show "leaf_ids to_cell F hw sched features ids n_threads tree_indices =
        Some (ids, Inl (PreconditionViolation
          ''RandomForest::leaf_ids(): Tree index out of range.''))"
    using a by (simp add: leaf_ids_def num_trees_def)
next
  assume a: "shape0 features \<noteq> shape0 probs"
  show "predict_proba F A hw sched features probs n_threads tree_indices =
        Some (probs, Inl (PreconditionViolation
          ''RandomForest::predict_proba(): Shape mismatch between features and probabilities.''))"
    using a by (simp add: predict_proba_def num_trees_def)
next
  assume a: "shape0 features = shape0 probs \<and> shape1 features \<noteq> num_features (problem_spec F)"
  show "predict_proba F A hw sched features probs n_threads tree_indices =
        Some (probs, Inl (PreconditionViolation
          ''RandomForest::predict_proba(): Number of features in prediction differs from training.''))"
    using a by (simp add: predict_proba_def num_trees_def)
next
  assume a: "shape0 features = shape0 probs \<and> shape1 features = num_features (problem_spec F) \<and>
      shape1 probs \<noteq> num_classes (problem_spec F)"
  show "predict_proba F A hw sched features probs n_threads tree_indices =
        Some (probs, Inl (PreconditionViolation
          ''RandomForest::predict_proba(): Number of labels in probabilities differs from training.''))"
    using a by (simp add: predict_proba_def num_trees_def)
next
  assume a: "shape0 features = shape0 probs \<and> shape1 features = num_features (problem_spec F) \<and>
      shape1 probs = num_classes (problem_spec F) \<and> \<not> list_all (\<lambda>k. k < num_trees F) tree_indices"
  show "predict_proba F A hw sched features probs n_threads tree_indices =
        Some (probs, Inl (PreconditionViolation
          ''RandomForest::predict_proba(): Tree index out of range.''))"
    using a by (simp add: predict_proba_def num_trees_def)
next
  assume a: "shape0 features \<noteq> length labels"
  show "predict F A hw sched features labels n_threads tree_indices =
        Some (labels, Inl (PreconditionViolation
          ''RandomForest::predict(): Shape mismatch between features and labels.''))"
    using a by (simp add: predict_def)
next
  assume a: "shape0 features = length labels \<and> shape1 features \<noteq> num_features (problem_spec F)"
  show "predict F A hw sched features labels n_threads tree_indices =
        Some (labels, Inl (PreconditionViolation
          ''RandomForest::predict(): Number of features in prediction differs from training.''))"
    using a by (simp add: predict_def)
next
  assume a: "shape0 features = length labels \<and> shape1 features = num_features (problem_spec F) \<and>
      \<not> list_all (\<lambda>k. k < num_trees F) tree_indices"
  show "predict F A hw sched features labels n_threads tree_indices =
        Some (labels, Inl (PreconditionViolation
          ''RandomForest::predict_proba(): Tree index out of range.''))"
    using a by (simp add: predict_def predict_proba_def new_matrix_def num_trees_def)
next
  assume a: "problem_spec F \<noteq> problem_spec other"
  show "merge F other =
        (F, Inl (PreconditionViolation
          ''RandomForest::merge(): You cannot merge with different problem specs.''))"
    using a by (simp add: merge_def)
qed

theorem violated_precondition_gives_fixed_message_witness:
  "\<not> leaf_ids_pre test_forest wide_x (new_matrix 8 1 :: int matrix) [] \<and>
   (\<exists>m\<in>set leaf_ids_messages.
         leaf_ids signed_cell test_forest 4 one_worker_schedule wide_x (new_matrix 8 1) 1 [] =
           Some (new_matrix 8 1, Inl (PreconditionViolation m))) \<and>
   \<not> predict_proba_pre test_forest wide_x (new_matrix 8 4 :: real matrix) [] \<and>
   (\<exists>m\<in>set predict_proba_messages.
         predict_proba test_forest vote_acc 4 one_worker_schedule wide_x (new_matrix 8 4) 1 [] =
           Some (new_matrix 8 4, Inl (PreconditionViolation m))) \<and>
   \<not> predict_pre test_forest wide_x (replicate 8 (0::int)) [] \<and>
   (\<exists>m\<in>set (predict_messages @ predict_proba_messages).
         predict test_forest vote_acc 4 one_worker_schedule wide_x (replicate 8 0) 1 [] =
           Some (replicate 8 0, Inl (PreconditionViolation m))) \<and>
   problem_spec test_forest \<noteq> problem_spec other_spec_forest \<and>
   (\<exists>m\<in>set merge_messages. merge test_forest other_spec_forest = (test_forest, Inl (PreconditionViolation m))) \<and>
   shape0 test_x \<noteq> shape0 (new_matrix 7 1 :: int matrix) \<and>
   leaf_ids signed_cell test_forest 4 one_worker_schedule test_x (new_matrix 7 1) 1 [] =
        Some (new_matrix 7 1, Inl (PreconditionViolation
          ''RandomForest::leaf_ids(): Shape mismatch between features and probabilities.'')) \<and>
   (shape0 wide_x = shape0 (new_matrix 8 1 :: int matrix) \<and> shape1 wide_x \<noteq> num_features (problem_spec test_forest)) \<and>
   leaf_ids signed_cell test_forest 4 one_worker_schedule wide_x (new_matrix 8 1) 1 [] =
        Some (new_matrix 8 1, Inl (PreconditionViolation
          ''RandomForest::leaf_ids(): Number of features in prediction differs from training.'')) \<and>
   (shape0 test_x = shape0 (new_matrix 8 2 :: int matrix) \<and> shape1 test_x = num_features (problem_spec test_forest) \<and>
    shape1 (new_matrix 8 2 :: int matrix) \<noteq> num_trees test_forest) \<and>
   leaf_ids signed_cell test_forest 4 one_worker_schedule test_x (new_matrix 8 2) 1 [] =
        Some (new_matrix 8 2, Inl (PreconditionViolation
          ''RandomForest::leaf_ids(): Leaf array has wrong shape.'')) \<and>
   (shape0 test_x = shape0 (new_matrix 8 1 :: int matrix) \<and> shape1 test_x = num_features (problem_spec test_forest) \<and>
    shape1 (new_matrix 8 1 :: int matrix) = num_trees test_forest \<and> \<not> list_all (\<lambda>k. k < num_trees test_forest) [1]) \<and>
   leaf_ids signed_cell test_forest 4 one_worker_schedule test_x (new_matrix 8 1) 1 [1] =
        Some (new_matrix 8 1, Inl (PreconditionViolation
          ''RandomForest::leaf_ids(): Tree index out of range.'')) \<and>
   shape0 test_x \<noteq> shape0 (new_matrix 7 4 :: real matrix) \<and>
   predict_proba test_forest vote_acc 4 one_worker_schedule test_x (new_matrix 7 4) 1 [] =
        Some (new_matrix 7 4, Inl (PreconditionViolation
          ''RandomForest::predict_proba(): Shape mismatch between features and probabilities.'')) \<and>
   (shape0 wide_x = shape0 (new_matrix 8 4 :: real matrix) \<and> shape1 wide_x \<noteq> num_features (problem_spec test_forest)) \<and>
   predict_proba test_forest vote_acc 4 one_worker_schedule wide_x (new_matrix 8 4) 1 [] =
        Some (new_matrix 8 4, Inl (PreconditionViolation
          ''RandomForest::predict_proba(): Number of features in prediction differs from training.'')) \<and>
   (shape0 test_x = shape0 (new_matrix 8 3 :: real matrix) \<and> shape1 test_x = num_features (problem_spec test_forest) \<and>
    shape1 (new_matrix 8 3 :: real matrix) \<noteq> num_classes (problem_spec test_forest)) \<and>
   predict_proba test_forest vote_acc 4 one_worker_schedule test_x (new_matrix 8 3) 1 [] =
        Some (new_matrix 8 3, Inl (PreconditionViolation
          ''RandomForest::predict_proba(): Number of labels in probabilities differs from training.'')) \<and>
   (shape0 test_x = shape0 (new_matrix 8 4 :: real matrix) \<and> shape1 test_x = num_features (problem_spec test_forest) \<and>
    shape1 (new_matrix 8 4 :: real matrix) = num_classes (problem_spec test_forest) \<and> \<not> list_all (\<lambda>k. k < num_trees test_forest) [1]) \<and>
   predict_proba test_forest vote_acc 4 one_worker_schedule test_x (new_matrix 8 4) 1 [1] =
        Some (new_matrix 8 4, Inl (PreconditionViolation
          ''RandomForest::predict_proba(): Tree index out of range.'')) \<and>
   shape0 test_x \<noteq> length (replicate 7 (0::int)) \<and>
   predict test_forest vote_acc 4 one_worker_schedule test_x (replicate 7 0) 1 [] =
        Some (replicate 7 0, Inl (PreconditionViolation
          ''RandomForest::predict(): Shape mismatch between features and labels.'')) \<and>
   (shape0 wide_x = length (replicate 8 (0::int)) \<and> shape1 wide_x \<noteq> num_features (problem_spec test_forest)) \<and>
   predict test_forest vote_acc 4 one_worker_schedule wide_x (replicate 8 0) 1 [] =
        Some (replicate 8 0, Inl (PreconditionViolation
          ''RandomForest::predict(): Number of features in prediction differs from training.'')) \<and>
   (shape0 test_x = length (replicate 8 (0::int)) \<and> shape1 test_x = num_features (problem_spec test_forest) \<and>
    \<not> list_all (\<lambda>k. k < num_trees test_forest) [1]) \<and>
   predict test_forest vote_acc 4 one_worker_schedule test_x (replicate 8 0) 1 [1] =
        Some (replicate 8 0, Inl (PreconditionViolation
          ''RandomForest::predict_proba(): Tree index out of range.'')) \<and>
   problem_spec test_forest \<noteq> problem_spec other_spec_forest \<and>
   merge test_forest other_spec_forest =
        (test_forest, Inl (PreconditionViolation
          ''RandomForest::merge(): You cannot merge with different problem specs.''))"
proof -
  note input_simps = leaf_ids_pre_def predict_proba_pre_def predict_pre_def shape_test_x
    wide_x_def new_matrix_def test_forest_def test_graph_def other_spec_forest_def
    single_leaf_forest_def num_trees_def numRoots_def
  have h1: "\<not> leaf_ids_pre test_forest wide_x (new_matrix 8 1 :: int matrix) []"
    by (simp add: input_simps)
  have c1: "\<exists>m\<in>set leaf_ids_messages.
         leaf_ids signed_cell test_forest 4 one_worker_schedule wide_x (new_matrix 8 1) 1 [] =
           Some (new_matrix 8 1, Inl (PreconditionViolation m))"
    by (rule violated_precondition_gives_fixed_message[THEN conjunct1, THEN mp])
       (rule h1)
  have h2: "\<not> predict_proba_pre test_forest wide_x (new_matrix 8 4 :: real matrix) []"
    by (simp add: input_simps)
  have c2: "\<exists>m\<in>set predict_proba_messages.
         predict_proba test_forest vote_acc 4 one_worker_schedule wide_x (new_matrix 8 4) 1 [] =
           Some (new_matrix 8 4, Inl (PreconditionViolation m))"
    by (rule violated_precondition_gives_fixed_message[THEN conjunct2, THEN conjunct1, THEN mp])
       (rule h2)
  have h3: "\<not> predict_pre test_forest wide_x (replicate 8 (0::int)) []"
    by (simp add: input_simps)
  have c3: "\<exists>m\<in>set (predict_messages @ predict_proba_messages).
         predict test_forest vote_acc 4 one_worker_schedule wide_x (replicate 8 0) 1 [] =
           Some (replicate 8 0, Inl (PreconditionViolation m))"
    by (rule violated_precondition_gives_fixed_message[THEN conjunct2, THEN conjunct2, THEN conjunct1, THEN mp])
       (rule h3)
  have h4: "problem_spec test_forest \<noteq> problem_spec other_spec_forest"
    by (simp add: input_simps)
  have c4: "\<exists>m\<in>set merge_messages. merge test_forest other_spec_forest = (test_forest, Inl (PreconditionViolation m))"
    by (rule violated_precondition_gives_fixed_message[THEN conjunct2, THEN conjunct2, THEN conjunct2, THEN conjunct1, THEN mp])
       (rule h4)
  have h5: "shape0 test_x \<noteq> shape0 (new_matrix 7 1 :: int matrix)"
    by (simp add: input_simps)
  have c5: "leaf_ids signed_cell test_forest 4 one_worker_schedule test_x (new_matrix 7 1) 1 [] =
        Some (new_matrix 7 1, Inl (PreconditionViolation
          ''RandomForest::leaf_ids(): Shape mismatch between features and probabilities.''))"
    by (rule violated_precondition_gives_fixed_message[THEN conjunct2, THEN conjunct2, THEN conjunct2, THEN conjunct2, THEN conjunct1, THEN mp])
       (rule h5)
  have h6: "shape0 wide_x = shape0 (new_matrix 8 1 :: int matrix) \<and> shape1 wide_x \<noteq> num_features (problem_spec test_forest)"
    by (simp add: input_simps)
  have c6: "leaf_ids signed_cell test_forest 4 one_worker_schedule wide_x (new_matrix 8 1) 1 [] =
        Some (new_matrix 8 1, Inl (PreconditionViolation
          ''RandomForest::leaf_ids(): Number of features in prediction differs from training.''))"
    by (rule violated_precondition_gives_fixed_message[THEN conjunct2, THEN conjunct2, THEN conjunct2, THEN conjunct2, THEN conjunct2, THEN conjunct1, THEN mp])
       (rule h6)
  have h7: "shape0 test_x = shape0 (new_matrix 8 2 :: int matrix) \<and> shape1 test_x = num_features (problem_spec test_forest) \<and>
    shape1 (new_matrix 8 2 :: int matrix) \<noteq> num_trees test_forest"
    by (simp add: input_simps)
  have c7: "leaf_ids signed_cell test_forest 4 one_worker_schedule test_x (new_matrix 8 2) 1 [] =
        Some (new_matrix 8 2, Inl (PreconditionViolation
          ''RandomForest::leaf_ids(): Leaf array has wrong shape.''))"
    by (rule violated_precondition_gives_fixed_message[THEN conjunct2, THEN conjunct2, THEN conjunct2, THEN conjunct2, THEN conjunct2, THEN conjunct2, THEN conjunct1, THEN mp])
       (rule h7)
  have h8: "shape0 test_x = shape0 (new_matrix 8 1 :: int matrix) \<and> shape1 test_x = num_features (problem_spec test_forest) \<and>
    shape1 (new_matrix 8 1 :: int matrix) = num_trees test_forest \<and> \<not> list_all (\<lambda>k. k < num_trees test_forest) [1]"
    by (simp add: input_simps)
  have c8: "leaf_ids signed_cell test_forest 4 one_worker_schedule test_x (new_matrix 8 1) 1 [1] =
        Some (new_matrix 8 1, Inl (PreconditionViolation
          ''RandomForest::leaf_ids(): Tree index out of range.''))"
    by (rule violated_precondition_gives_fixed_message[THEN conjunct2, THEN conjunct2, THEN conjunct2, THEN conjunct2, THEN conjunct2, THEN conjunct2, THEN conjunct2, THEN conjunct1, THEN mp])
       (rule h8)
  have h9: "shape0 test_x \<noteq> shape0 (new_matrix 7 4 :: real matrix)"
    by (simp add: input_simps)
  have c9: "predict_proba test_forest vote_acc 4 one_worker_schedule test_x (new_matrix 7 4) 1 [] =
        Some (new_matrix 7 4, Inl (PreconditionViolation
          ''RandomForest::predict_proba(): Shape mismatch between features and probabilities.''))"
    by (rule violated_precondition_gives_fixed_message[THEN conjunct2, THEN conjunct2, THEN conjunct2, THEN conjunct2, THEN conjunct2, THEN conjunct2, THEN conjunct2, THEN conjunct2, THEN conjunct1, THEN mp])
       (rule h9)
  have h10: "shape0 wide_x = shape0 (new_matrix 8 4 :: real matrix) \<and> shape1 wide_x \<noteq> num_features (problem_spec test_forest)"
    by (simp add: input_simps)
  have c10: "predict_proba test_forest vote_acc 4 one_worker_schedule wide_x (new_matrix 8 4) 1 [] =
        Some (new_matrix 8 4, Inl (PreconditionViolation
          ''RandomForest::predict_proba(): Number of features in prediction differs from training.''))"
    by (rule violated_precondition_gives_fixed_message[THEN conjunct2, THEN conjunct2, THEN conjunct2, THEN conjunct2, THEN conjunct2, THEN conjunct2, THEN conjunct2, THEN conjunct2, THEN conjunct2, THEN conjunct1, THEN mp])
       (rule h10)
  have h11: "shape0 test_x = shape0 (new_matrix 8 3 :: real matrix) \<and> shape1 test_x = num_features (problem_spec test_forest) \<and>
    shape1 (new_matrix 8 3 :: real matrix) \<noteq> num_classes (problem_spec test_forest)"
    by (simp add: input_simps)
  have c11: "predict_proba test_forest vote_acc 4 one_worker_schedule test_x (new_matrix 8 3) 1 [] =
        Some (new_matrix 8 3, Inl (PreconditionViolation
          ''RandomForest::predict_proba(): Number of labels in probabilities differs from training.''))"
    by (rule violated_precondition_gives_fixed_message[THEN conjunct2, THEN conjunct2, THEN conjunct2, THEN conjunct2, THEN conjunct2, THEN conjunct2, THEN conjunct2, THEN conjunct2, THEN conjunct2, THEN conjunct2, THEN conjunct1, THEN mp])
       (rule h11)
  have h12: "shape0 test_x = shape0 (new_matrix 8 4 :: real matrix) \<and> shape1 test_x = num_features (problem_spec test_forest) \<and>
    shape1 (new_matrix 8 4 :: real matrix) = num_classes (problem_spec test_forest) \<and> \<not> list_all (\<lambda>k. k < num_trees test_forest) [1]"
    by (simp add: input_simps)
  have c12: "predict_proba test_forest vote_acc 4 one_worker_schedule test_x (new_matrix 8 4) 1 [1] =
        Some (new_matrix 8 4, Inl (PreconditionViolation
          ''RandomForest::predict_proba(): Tree index out of range.''))"
    by (rule violated_precondition_gives_fixed_message[THEN conjunct2, THEN conjunct2, THEN conjunct2, THEN conjunct2, THEN conjunct2, THEN conjunct2, THEN conjunct2, THEN conjunct2, THEN conjunct2, THEN conjunct2, THEN conjunct2, THEN conjunct1, THEN mp])
       (rule h12)
  have h13: "shape0 test_x \<noteq> length (replicate 7 (0::int))"
    by (simp add: input_simps)
  have c13: "predict test_forest vote_acc 4 one_worker_schedule test_x (replicate 7 0) 1 [] =
        Some (replicate 7 0, Inl (PreconditionViolation
          ''RandomForest::predict(): Shape mismatch between features and labels.''))"
    by (rule violated_precondition_gives_fixed_message[THEN conjunct2, THEN conjunct2, THEN conjunct2, THEN conjunct2, THEN conjunct2, THEN conjunct2, THEN conjunct2, THEN conjunct2, THEN conjunct2, THEN conjunct2, THEN conjunct2, THEN conjunct2, THEN conjunct1, THEN mp])
       (rule h13)
  have h14: "shape0 wide_x = length (replicate 8 (0::int)) \<and> shape1 wide_x \<noteq> num_features (problem_spec test_forest)"
    by (simp add: input_simps)
  have c14: "predict test_forest vote_acc 4 one_worker_schedule wide_x (replicate 8 0) 1 [] =
        Some (replicate 8 0, Inl (PreconditionViolation
          ''RandomForest::predict(): Number of features in prediction differs from training.''))"
    by (rule violated_precondition_gives_fixed_message[THEN conjunct2, THEN conjunct2, THEN conjunct2, THEN conjunct2, THEN conjunct2, THEN conjunct2, THEN conjunct2, THEN conjunct2, THEN conjunct2, THEN conjunct2, THEN conjunct2, THEN conjunct2, THEN conjunct2, THEN conjunct1, THEN mp])
       (rule h14)
  have h15: "shape0 test_x = length (replicate 8 (0::int)) \<and> shape1 test_x = num_features (problem_spec test_forest) \<and>
    \<not> list_all (\<lambda>k. k < num_trees test_forest) [1]"
    by (simp add: input_simps)
  have c15: "predict test_forest vote_acc 4 one_worker_schedule test_x (replicate 8 0) 1 [1] =
        Some (replicate 8 0, Inl (PreconditionViolation
          ''RandomForest::predict_proba(): Tree index out of range.''))"
    by (rule violated_precondition_gives_fixed_message[THEN conjunct2, THEN conjunct2, THEN conjunct2, THEN conjunct2, THEN conjunct2, THEN conjunct2, THEN conjunct2, THEN conjunct2, THEN conjunct2, THEN conjunct2, THEN conjunct2, THEN conjunct2, THEN conjunct2, THEN conjunct2, THEN conjunct1, THEN mp])
       (rule h15)
  have h16: "problem_spec test_forest \<noteq> problem_spec other_spec_forest"
    by (simp add: input_simps)
  have c16: "merge test_forest other_spec_forest =
        (test_forest, Inl (PreconditionViolation
          ''RandomForest::merge(): You cannot merge with different problem specs.''))"
    by (rule violated_precondition_gives_fixed_message[THEN conjunct2, THEN conjunct2, THEN conjunct2, THEN conjunct2, THEN conjunct2, THEN conjunct2, THEN conjunct2, THEN conjunct2, THEN conjunct2, THEN conjunct2, THEN conjunct2, THEN conjunct2, THEN conjunct2, THEN conjunct2, THEN conjunct2, THEN mp])
       (rule h16)
  show ?thesis
    apply (rule conjI, rule h1)
    apply (rule conjI, rule c1)
    apply (rule conjI, rule h2)
    apply (rule conjI, rule c2)
    apply (rule conjI, rule h3)
    apply (rule conjI, rule c3)
    apply (rule conjI, rule h4)
    apply (rule conjI, rule c4)
    apply (rule conjI, rule h5)
    apply (rule conjI, rule c5)
    apply (rule conjI, rule h6)
    apply (rule conjI, rule c6)
    apply (rule conjI, rule h7)
    apply (rule conjI, rule c7)
    apply (rule conjI, rule h8)
    apply (rule conjI, rule c8)
    apply (rule conjI, rule h9)
    apply (rule conjI, rule c9)
    apply (rule conjI, rule h10)
    apply (rule conjI, rule c10)
    apply (rule conjI, rule h11)
    apply (rule conjI, rule c11)
    apply (rule conjI, rule h12)
    apply (rule conjI, rule c12)
    apply (rule conjI, rule h13)
    apply (rule conjI, rule c13)
    apply (rule conjI, rule h14)
    apply (rule conjI, rule c14)
    apply (rule conjI, rule h15)
    apply (rule conjI, rule c15)
    apply (rule conjI, rule h16)
    apply (rule c16)
    done
qed

text \<open>
  Claim C9 as stated fails: with the expected feature count 2, a matrix with 3 columns
  and a matrix with 5 columns are rejected with one and the same failure value, so the
  failure does not describe the offending value.
\<close>

theorem failure_describes_offending_values_counterexample:
  "shape1 wide_x = 3 \<and> shape1 wider_x = 5 \<and>
   num_features (problem_spec test_forest) = 2 \<and>
   leaf_ids signed_cell test_forest 4 one_worker_schedule wide_x (new_matrix 8 1) 1 [] =
     Some (new_matrix 8 1, Inl (PreconditionViolation
       ''RandomForest::leaf_ids(): Number of features in prediction differs from training.'')) \<and>
   leaf_ids signed_cell test_forest 4 one_worker_schedule wider_x (new_matrix 8 1) 1 [] =
     Some (new_matrix 8 1, Inl (PreconditionViolation
       ''RandomForest::leaf_ids(): Number of features in prediction differs from training.''))"
  by (simp add: leaf_ids_def wide_x_def wider_x_def new_matrix_def test_forest_def)

text \<open>
  Claim C3. A call of \<^verbatim>\<open>predict_proba\<close> that meets the preconditions, on a forest
  whose requested trees are well formed and whose reached leaves have responses, returns.
  The leaf ids come from \<^verbatim>\<open>leaf_ids\<close> called with the resolved tree indices, and the same
  resolved list, which is in ascending order without repetition, is used to gather the
  responses: for each sample the responses found under the leaf ids of these trees form
  one list in that order, the accumulator is called once with it, and what the call
  leaves in the sample's row is the row of the result. The average is the one
  \<^verbatim>\<open>leaf_ids\<close> returned.
\<close>

theorem predict_proba_gathers_ascending:
  assumes "predict_proba_pre F features probs tree_indices"
    and "valid_schedule (resolve_threads hw n_threads) (shape0 features) sched"
    and "all_walkable F features (resolved_tree_indices (graph F) tree_indices)"
    and "responses_defined F features (resolved_tree_indices (graph F) tree_indices)"
  shows "\<exists>probs' ids avg.
           predict_proba F A hw sched features probs n_threads tree_indices =
             Some (probs', Inr avg) \<and>
           leaf_ids size_t_cell F hw sched features (new_matrix (shape0 features) (num_trees F)) n_threads
               (resolved_tree_indices (graph F) tree_indices) =
             Some (ids, Inr avg) \<and>
           sorted (resolved_tree_indices (graph F) tree_indices) \<and>
           distinct (resolved_tree_indices (graph F) tree_indices) \<and>
           set (resolved_tree_indices (graph F) tree_indices) =
             (if set tree_indices = {} then {..<num_trees F} else set tree_indices) \<and>
           (\<forall>i<shape0 features.
              map (\<lambda>k. pm_at (node_responses F) ((cell ids i k)))
                  (resolved_tree_indices (graph F) tree_indices) =
                map Inr (tree_responses F features
                  (resolved_tree_indices (graph F) tree_indices) i) \<and>
              bind0 probs' i =
                snd (acc_call A
                  (acc_state_before A
                     (tree_responses F features (resolved_tree_indices (graph F) tree_indices))
                     probs i)
                  (tree_responses F features (resolved_tree_indices (graph F) tree_indices) i)
                  (bind0 probs i)))"
proof -
  define ks where "ks = resolved_tree_indices (graph F) tree_indices"
  define ids0 :: "nat matrix" where "ids0 = new_matrix (shape0 features) (numRoots (graph F))"
  define avg where "avg = Quotient (total_comparisons F features ks) (shape0 features)"
  have ret: "all_returning F features ks"
    using assms(3) by (simp add: ks_def all_walkable_returning)
  have pp: "predict_proba F A hw sched features probs n_threads tree_indices =
      Some (proba_matrix A (tree_responses F features ks) probs (shape0 features), Inr avg)"
    using predict_proba_closed_form[OF assms(1,2) ret[unfolded ks_def] assms(4)]
    by (simp add: ks_def avg_def)
  have pre': "leaf_ids_pre F features ids0 ks"
    unfolding ids0_def ks_def using assms(1) by (rule leaf_ids_pre_new_matrix)
  have li: "leaf_ids size_t_cell F hw sched features ids0 n_threads ks =
      Some (leaf_id_matrix size_t_cell F features ids0 ks, Inr avg)"
    using leaf_ids_closed_form[OF pre' assms(2)] ret by (simp add: ks_def avg_def)
  have range: "\<forall>k\<in>set ks. k < numRoots (graph F)"
    unfolding ks_def using assms(1)
    by (intro resolved_all_in_range) (simp add: predict_proba_pre_def)
  have rows: "\<forall>i<shape0 features.
      map (\<lambda>k. pm_at (node_responses F) ((cell (leaf_id_matrix size_t_cell F features ids0 ks) i k))) ks =
        map Inr (tree_responses F features ks i) \<and>
      bind0 (proba_matrix A (tree_responses F features ks) probs (shape0 features)) i =
        snd (acc_call A (acc_state_before A (tree_responses F features ks) probs i)
               (tree_responses F features ks i) (bind0 probs i))"
  proof (intro allI impI conjI)
    fix i assume i: "i < shape0 features"
    have d: "\<forall>k\<in>set ks. map_of (node_responses F) (leaf_of F (bind0 features i) k) \<noteq> None"
      using assms(4) i by (simp add: responses_defined_def list_all_iff ks_def)
    have c: "\<forall>k\<in>set ks. (cell (leaf_id_matrix size_t_cell F features ids0 ks) i k)
          = leaf_of F (bind0 features i) k"
      using i range by (simp add: size_t_leaf_id_cell ids0_def)
    show "map (\<lambda>k. pm_at (node_responses F) ((cell (leaf_id_matrix size_t_cell F features ids0 ks) i k))) ks =
        map Inr (tree_responses F features ks i)"
      using c d by (auto simp: tree_responses_def pm_at_def)
    show "bind0 (proba_matrix A (tree_responses F features ks) probs (shape0 features)) i =
        snd (acc_call A (acc_state_before A (tree_responses F features ks) probs i)
               (tree_responses F features ks i) (bind0 probs i))"
      using i by (simp add: proba_matrix_def bind0_def)
  qed
  have ord: "sorted ks" "distinct ks"
    by (simp_all add: ks_def resolved_tree_indices_def)
  have "set ks = (if set tree_indices = {} then {..<num_trees F} else set tree_indices)"
    by (simp add: ks_def set_resolved num_trees_def)
  with pp li rows ord show ?thesis
    unfolding ks_def[symmetric] ids0_def[symmetric] num_trees_def
    by blast
qed

theorem predict_proba_gathers_ascending_witness:
  "predict_proba_pre test_forest test_x (new_matrix 8 4 :: real matrix) [] \<and>
   valid_schedule (resolve_threads 4 1) (shape0 test_x) one_worker_schedule \<and>
   all_walkable test_forest test_x (resolved_tree_indices (graph test_forest) []) \<and>
   responses_defined test_forest test_x (resolved_tree_indices (graph test_forest) []) \<and>
   (\<exists>probs' ids avg.
      predict_proba test_forest vote_acc 4 one_worker_schedule test_x (new_matrix 8 4) 1 [] =
        Some (probs', Inr avg) \<and>
      leaf_ids size_t_cell test_forest 4 one_worker_schedule test_x
          (new_matrix (shape0 test_x) (num_trees test_forest)) 1
          (resolved_tree_indices (graph test_forest) []) =
        Some (ids, Inr avg) \<and>
      sorted (resolved_tree_indices (graph test_forest) []) \<and>
      distinct (resolved_tree_indices (graph test_forest) []) \<and>
      set (resolved_tree_indices (graph test_forest) []) =
        (if set ([] :: nat list) = {} then {..<num_trees test_forest} else set []) \<and>
      (\<forall>i<shape0 test_x.
         map (\<lambda>k. pm_at (node_responses test_forest) ((cell ids i k)))
             (resolved_tree_indices (graph test_forest) []) =
           map Inr (tree_responses test_forest test_x
             (resolved_tree_indices (graph test_forest) []) i) \<and>
         bind0 probs' i =
           snd (acc_call vote_acc
             (acc_state_before vote_acc
                (tree_responses test_forest test_x (resolved_tree_indices (graph test_forest) []))
                (new_matrix 8 4) i)
             (tree_responses test_forest test_x (resolved_tree_indices (graph test_forest) []) i)
             (bind0 (new_matrix 8 4) i))))"
proof -
  have h1: "predict_proba_pre test_forest test_x (new_matrix 8 4 :: real matrix) []"
    by (simp add: predict_proba_pre_def shape_test_x new_matrix_def) (simp add: test_forest_def)
  have h3: "all_walkable test_forest test_x (resolved_tree_indices (graph test_forest) [])"
    using walkable_test by (simp add: resolved_test)
  have h4: "responses_defined test_forest test_x (resolved_tree_indices (graph test_forest) [])"
    using responses_test by (simp add: resolved_test)
  from predict_proba_gathers_ascending[OF h1 one_worker_valid h3 h4, of vote_acc]
    h1 one_worker_valid h3 h4
  show ?thesis by blast
qed

text \<open>
  Claim C4. A call of \<^verbatim>\<open>predict\<close> that meets the preconditions (with at least one
  class, and a label for every class) returns, and the label of each sample is the entry
  of the distinct-label list at the first index at which the sample's probability row, as
  \<^verbatim>\<open>predict_proba\<close> computes it, takes its maximum. On the forest and the points of the
  unit test the labels are 0, 0, 1, 1, -7, -7, 3, 3.
\<close>

theorem predict_takes_first_maximum:
  assumes "predict_pre F features labels tree_indices"
    and "valid_schedule (resolve_threads hw n_threads) (shape0 features) sched"
    and "all_walkable F features (resolved_tree_indices (graph F) tree_indices)"
    and "responses_defined F features (resolved_tree_indices (graph F) tree_indices)"
    and "0 < num_classes (problem_spec F)"
    and "num_classes (problem_spec F) \<le> length (distinct_classes (problem_spec F))"
  shows "\<exists>probs avg labels'.
           predict_proba F A hw sched features
               (new_matrix (shape0 features) (num_classes (problem_spec F)))
               n_threads tree_indices =
             Some (probs, Inr avg) \<and>
           predict F A hw sched features labels n_threads tree_indices =
             Some (labels', Inr avg) \<and>
           length labels' = length labels \<and>
           (\<forall>i<shape0 features.
              \<exists>j. first_max (bind0 probs i) (num_classes (problem_spec F)) j \<and>
                  labels' ! i = distinct_classes (problem_spec F) ! j)"
proof -
  define ks where "ks = resolved_tree_indices (graph F) tree_indices"
  define probs where "probs = proba_matrix A (tree_responses F features ks)
        (new_matrix (shape0 features) (num_classes (problem_spec F))) (shape0 features)"
  define avg where "avg = Quotient (total_comparisons F features ks) (shape0 features)"
  define labels' where "labels' = map (\<lambda>i. distinct_classes (problem_spec F) !
                           max_element (bind0 probs i) (num_classes (problem_spec F)))
                   [0..<shape0 features]"
  have ret: "all_returning F features (resolved_tree_indices (graph F) tree_indices)"
    using assms(3) by (rule all_walkable_returning)
  have u: "shape0 features = length labels" "shape1 features = num_features (problem_spec F)"
    "list_all (\<lambda>k. k < numRoots (graph F)) tree_indices"
    using assms(1) by (simp_all add: predict_pre_def)
  have pre': "predict_proba_pre F features
      (new_matrix (shape0 features) (num_classes (problem_spec F)) :: 'd matrix) tree_indices"
    unfolding predict_proba_pre_new_matrix using u by simp
  have pp: "predict_proba F A hw sched features
      (new_matrix (shape0 features) (num_classes (problem_spec F))) n_threads tree_indices =
      Some (probs, Inr avg)"
    using predict_proba_closed_form[OF pre' assms(2) ret assms(4)]
    by (simp add: probs_def ks_def avg_def)
  have p: "predict F A hw sched features labels n_threads tree_indices =
      Some (labels', Inr avg)"
    using predict_closed_form[OF assms(1,2) ret assms(4,5,6) probs_def[unfolded ks_def]]
    by (simp add: labels'_def avg_def ks_def)
  have len: "length labels' = length labels"
    by (simp add: labels'_def u(1))
  have rows: "\<forall>i<shape0 features.
      \<exists>j. first_max (bind0 probs i) (num_classes (problem_spec F)) j \<and>
          labels' ! i = distinct_classes (problem_spec F) ! j"
  proof (intro allI impI)
    fix i assume "i < shape0 features"
    then have "labels' ! i = distinct_classes (problem_spec F) !
        max_element (bind0 probs i) (num_classes (problem_spec F))"
      by (simp add: labels'_def)
    with max_element_first_max[OF assms(5), of "bind0 probs i"]
    show "\<exists>j. first_max (bind0 probs i) (num_classes (problem_spec F)) j \<and>
          labels' ! i = distinct_classes (problem_spec F) ! j"
      by blast
  qed
  from pp p len rows show ?thesis by blast
qed

theorem predict_takes_first_maximum_witness:
  "predict_pre test_forest test_x (replicate 8 (0::int)) [] \<and>
   valid_schedule (resolve_threads 4 1) (shape0 test_x) one_worker_schedule \<and>
   all_walkable test_forest test_x (resolved_tree_indices (graph test_forest) []) \<and>
   responses_defined test_forest test_x (resolved_tree_indices (graph test_forest) []) \<and>
   0 < num_classes (problem_spec test_forest) \<and>
   num_classes (problem_spec test_forest) \<le> length (distinct_classes (problem_spec test_forest)) \<and>
   (\<exists>probs avg labels'.
      predict_proba test_forest vote_acc 4 one_worker_schedule test_x
          (new_matrix (shape0 test_x) (num_classes (problem_spec test_forest))) 1 [] =
        Some (probs, Inr avg) \<and>
      predict test_forest vote_acc 4 one_worker_schedule test_x (replicate 8 0) 1 [] =
        Some (labels', Inr avg) \<and>
      length labels' = length (replicate 8 (0::int)) \<and>
      (\<forall>i<shape0 test_x.
         \<exists>j. first_max (bind0 probs i) (num_classes (problem_spec test_forest)) j \<and>
             labels' ! i = distinct_classes (problem_spec test_forest) ! j)) \<and>
   predict test_forest vote_acc 4 one_worker_schedule test_x (replicate 8 0) 1 [] =
     Some ([0, 0, 1, 1, - 7, - 7, 3, 3], Inr (Quotient 16 8))"
proof -
  have h1: "predict_pre test_forest test_x (replicate 8 (0::int)) []"
    by (simp add: predict_pre_def shape_test_x) (simp add: test_forest_def)
  have h3: "all_walkable test_forest test_x (resolved_tree_indices (graph test_forest) [])"
    using walkable_test by (simp add: resolved_test)
  have h4: "responses_defined test_forest test_x (resolved_tree_indices (graph test_forest) [])"
    using responses_test by (simp add: resolved_test)
  have h5: "0 < num_classes (problem_spec test_forest)"
    "num_classes (problem_spec test_forest) \<le> length (distinct_classes (problem_spec test_forest))"
    by (simp_all add: test_forest_def)
  from predict_takes_first_maximum[OF h1 one_worker_valid h3 h4 h5, of vote_acc]
    h1 one_worker_valid h3 h4 h5 predict_test
  show ?thesis by blast
qed

text \<open>
  Claim C6. When \<^verbatim>\<open>predict\<close> returns an average for some features and tree indices,
  \<^verbatim>\<open>predict_proba\<close> and \<^verbatim>\<open>leaf_ids\<close> on the same forest, features and tree indices
  (with output arrays of the right shape, and any worker count) return that same
  average.
\<close>

theorem same_average_from_all_three:
  assumes "predict F A hw sched features labels n_threads tree_indices = Some (labels', Inr avg)"
    and "valid_schedule (resolve_threads hw n_threads) (shape0 features) sched"
    and "valid_schedule (resolve_threads hw n_threads2) (shape0 features) sched2"
    and "valid_schedule (resolve_threads hw n_threads3) (shape0 features) sched3"
    and "shape0 probs = shape0 features" and "shape1 probs = num_classes (problem_spec F)"
    and "shape0 ids = shape0 features" and "shape1 ids = num_trees F"
  shows "(\<exists>probs'. predict_proba F A hw sched2 features probs n_threads2 tree_indices =
                     Some (probs', Inr avg)) \<and>
         (\<exists>ids'. leaf_ids to_cell F hw sched3 features ids n_threads3 tree_indices =
                     Some (ids', Inr avg))"
proof -
  define ks where "ks = resolved_tree_indices (graph F) tree_indices"
  define ids0 :: "nat matrix" where "ids0 = new_matrix (shape0 features) (numRoots (graph F))"
  note p = predict_success_parts[OF assms(1)]
  from p(2) obtain probs0 where
    pp: "predict_proba F A hw sched features
               (new_matrix (shape0 features) (num_classes (problem_spec F)))
               n_threads tree_indices = Some (probs0, Inr avg)"
    by blast
  from predict_proba_success_any_probs[OF pp assms(2,3,5,6), of A]
  have first: "\<exists>probs'. predict_proba F A hw sched2 features probs n_threads2 tree_indices =
                     Some (probs', Inr avg)" .
  from predict_proba_success_parts(2)[OF pp] obtain ids1 where
    li: "leaf_ids size_t_cell F hw sched features ids0 n_threads ks = Some (ids1, Inr avg)"
    by (auto simp: ks_def ids0_def)
  note ok = leaf_ids_success[OF li assms(2)]
  have avg: "avg = Quotient (total_comparisons F features ks) (shape0 features)"
    using leaf_ids_closed_form[OF ok(1) assms(2) ok(2)] li by (simp add: ks_def)
  have pre3: "leaf_ids_pre F features ids tree_indices"
    using p(1) assms(7,8) by (simp add: leaf_ids_pre_def predict_pre_def num_trees_def)
  have ret3: "all_returning F features (resolved_tree_indices (graph F) tree_indices)"
    using ok(2) by (simp add: ks_def)
  have "leaf_ids to_cell F hw sched3 features ids n_threads3 tree_indices =
      Some (leaf_id_matrix to_cell F features ids ks, Inr avg)"
    using leaf_ids_closed_form[OF pre3 assms(4) ret3] by (simp add: ks_def avg)
  with first show ?thesis by blast
qed

theorem same_average_from_all_three_witness:
  "predict test_forest vote_acc 4 one_worker_schedule test_x (replicate 8 0) 1 [] =
     Some ([0, 0, 1, 1, - 7, - 7, 3, 3], Inr (Quotient 16 8)) \<and>
   valid_schedule (resolve_threads 4 1) (shape0 test_x) one_worker_schedule \<and>
   valid_schedule (resolve_threads 4 2) (shape0 test_x) two_worker_schedule \<and>
   shape0 (new_matrix 8 4 :: real matrix) = shape0 test_x \<and>
   shape1 (new_matrix 8 4 :: real matrix) = num_classes (problem_spec test_forest) \<and>
   shape0 (new_matrix 8 1 :: int matrix) = shape0 test_x \<and>
   shape1 (new_matrix 8 1 :: int matrix) = num_trees test_forest \<and>
   (\<exists>probs'. predict_proba test_forest vote_acc 4 two_worker_schedule test_x (new_matrix 8 4) 2 [] =
               Some (probs', Inr (Quotient 16 8))) \<and>
   (\<exists>ids'. leaf_ids signed_cell test_forest 4 two_worker_schedule test_x (new_matrix 8 1) 2 [] =
               Some (ids', Inr (Quotient 16 8)))"
proof -
  have h: "shape0 (new_matrix 8 4 :: real matrix) = shape0 test_x"
    "shape1 (new_matrix 8 4 :: real matrix) = num_classes (problem_spec test_forest)"
    "shape0 (new_matrix 8 1 :: int matrix) = shape0 test_x"
    "shape1 (new_matrix 8 1 :: int matrix) = num_trees test_forest"
    by (simp_all add: new_matrix_def shape_test_x num_trees_def numRoots_def,
        simp_all add: test_forest_def test_graph_def)
  from same_average_from_all_three[OF predict_test one_worker_valid two_worker_valid
      two_worker_valid h]
    predict_test one_worker_valid two_worker_valid h
  show ?thesis by blast
qed

text \<open>
  Claim C5. For forests \<open>A\<close> and \<open>B\<close> with equal problem specifications (the keys of
  each property map of \<open>B\<close> being distinct, as in any map), \<^verbatim>\<open>merge\<close> succeeds and the
  merged forest has the nodes of \<open>A\<close> plus those of \<open>B\<close>, and likewise the trees. Every
  split test and node response of \<open>B\<close> is found under its node id plus the node count
  of \<open>A\<close>, and the keys of the merged maps are those of \<open>A\<close> and the shifted ones of \<open>B\<close>.
  The nodes, map entries and roots of \<open>A\<close> are what they were; the trees of \<open>B\<close> follow,
  with node ids shifted. A prediction (\<^verbatim>\<open>predict_proba\<close> or \<^verbatim>\<open>predict\<close>) that \<open>B\<close> alone
  returns for an explicit list of its trees is returned by the merged forest for the same
  trees under their new indices.
\<close>

theorem merge_appends_other_forest:
  assumes "problem_spec A = problem_spec B"
    and "distinct (map fst (split_tests B))"
    and "distinct (map fst (node_responses B))"
  shows "\<exists>M. merge A B = (M, Inr ()) \<and>
           num_nodes M = num_nodes A + num_nodes B \<and>
           num_trees M = num_trees A + num_trees B \<and>
           problem_spec M = problem_spec A \<and>
           (\<forall>n t. map_of (split_tests B) n = Some t \<longrightarrow>
                  map_of (split_tests M) (n + num_nodes A) = Some t) \<and>
           (\<forall>n v. map_of (node_responses B) n = Some v \<longrightarrow>
                  map_of (node_responses M) (n + num_nodes A) = Some v) \<and>
           dom (map_of (split_tests M)) =
             dom (map_of (split_tests A)) \<union> (\<lambda>n. n + num_nodes A) ` dom (map_of (split_tests B)) \<and>
           dom (map_of (node_responses M)) =
             dom (map_of (node_responses A)) \<union>
             (\<lambda>n. n + num_nodes A) ` dom (map_of (node_responses B)) \<and>
           (\<forall>n<num_nodes A.
              children (graph M) n = children (graph A) n \<and>
              map_of (split_tests M) n = map_of (split_tests A) n \<and>
              map_of (node_responses M) n = map_of (node_responses A) n) \<and>
           (\<forall>k<num_trees A. getRoot (graph M) k = getRoot (graph A) k) \<and>
           (\<forall>k<num_trees B.
              getRoot (graph M) (num_trees A + k) = getRoot (graph B) k + num_nodes A) \<and>
           (\<forall>n. children (graph M) (n + num_nodes A) =
                  map_option (\<lambda>(l, r). (l + num_nodes A, r + num_nodes A)) (children (graph B) n)) \<and>
           (tree_indices \<noteq> [] \<and>
            valid_schedule (resolve_threads hw n_threads) (shape0 features) sched \<longrightarrow>
              (predict_proba B Acc hw sched features probs n_threads tree_indices =
                 Some (probs', Inr avg) \<longrightarrow>
               predict_proba M Acc hw sched features probs n_threads
                   (shift_tree_indices (num_trees A) tree_indices) =
                 Some (probs', Inr avg)) \<and>
              (predict B Acc hw sched features labels n_threads tree_indices =
                 Some (labels', Inr avg') \<longrightarrow>
               predict M Acc hw sched features labels n_threads
                   (shift_tree_indices (num_trees A) tree_indices) =
                 Some (labels', Inr avg')))"
proof (intro exI[of _ "merged A B"] conjI allI impI)
  note eq = assms(1) and dS = assms(2) and dR = assms(3)
  let ?M = "merged A B"
  show "merge A B = (?M, Inr ())" by (rule merged_parts(1)[OF eq])
  show "num_nodes ?M = num_nodes A + num_nodes B" by (rule merged_counts(1)[OF eq])
  show "num_trees ?M = num_trees A + num_trees B" by (rule merged_counts(2)[OF eq])
  show "problem_spec ?M = problem_spec A" by (rule merged_parts(5)[OF eq])
  show "map_of (split_tests ?M) (n + num_nodes A) = Some t"
    if "map_of (split_tests B) n = Some t" for n t
    using that by (simp add: merged_parts(3)[OF eq] map_of_fold_insert[OF dS])
  show "map_of (node_responses ?M) (n + num_nodes A) = Some v"
    if "map_of (node_responses B) n = Some v" for n v
    using that by (simp add: merged_parts(4)[OF eq] map_of_fold_insert[OF dR])
  show "dom (map_of (split_tests ?M)) =
      dom (map_of (split_tests A)) \<union> (\<lambda>n. n + num_nodes A) ` dom (map_of (split_tests B))"
    by (simp add: merged_parts(3)[OF eq] dom_fold_insert[OF dS])
  show "dom (map_of (node_responses ?M)) =
      dom (map_of (node_responses A)) \<union> (\<lambda>n. n + num_nodes A) ` dom (map_of (node_responses B))"
    by (simp add: merged_parts(4)[OF eq] dom_fold_insert[OF dR])
  show "children (graph ?M) n = children (graph A) n" if "n < num_nodes A" for n
    using that by (simp add: merged_parts(2)[OF eq] graph_merge_def num_nodes_def numNodes_def)
  show "map_of (split_tests ?M) n = map_of (split_tests A) n" if "n < num_nodes A" for n
    using that by (simp add: merged_parts(3)[OF eq] map_of_fold_insert[OF dS])
  show "map_of (node_responses ?M) n = map_of (node_responses A) n" if "n < num_nodes A" for n
    using that by (simp add: merged_parts(4)[OF eq] map_of_fold_insert[OF dR])
  show "getRoot (graph ?M) k = getRoot (graph A) k" if "k < num_trees A" for k
    using that
    by (simp add: merged_parts(2)[OF eq] graph_merge_def getRoot_def num_trees_def numRoots_def
        nth_append)
  show "getRoot (graph ?M) (num_trees A + k) = getRoot (graph B) k + num_nodes A"
    if "k < num_trees B" for k
    using merged_root[OF eq, of k] that by (simp add: num_trees_def)
  show "children (graph ?M) (n + num_nodes A) =
      map_option (\<lambda>(l, r). (l + num_nodes A, r + num_nodes A)) (children (graph B) n)" for n
    by (simp add: merged_parts(2)[OF eq] num_nodes_def numNodes_def children_graph_merge_shifted)
  show "predict_proba ?M Acc hw sched features probs n_threads
          (shift_tree_indices (num_trees A) tree_indices) = Some (probs', Inr avg)"
    if "tree_indices \<noteq> [] \<and>
        valid_schedule (resolve_threads hw n_threads) (shape0 features) sched"
      and "predict_proba B Acc hw sched features probs n_threads tree_indices =
        Some (probs', Inr avg)"
    using merged_predict_proba[OF eq dS dR _ _ that(2)] that(1) by (simp add: num_trees_def)
  show "predict ?M Acc hw sched features labels n_threads
          (shift_tree_indices (num_trees A) tree_indices) = Some (labels', Inr avg')"
    if "tree_indices \<noteq> [] \<and>
        valid_schedule (resolve_threads hw n_threads) (shape0 features) sched"
      and "predict B Acc hw sched features labels n_threads tree_indices =
        Some (labels', Inr avg')"
    using merged_predict[OF eq dS dR _ _ that(2)] that(1) by (simp add: num_trees_def)
qed

theorem merge_appends_other_forest_witness:
  "problem_spec test_forest = problem_spec test_forest \<and>
   distinct (map fst (split_tests test_forest)) \<and>
   distinct (map fst (node_responses test_forest)) \<and>
   [0::nat] \<noteq> [] \<and>
   valid_schedule (resolve_threads 4 1) (shape0 test_x) one_worker_schedule \<and>
   predict_proba test_forest vote_acc 4 one_worker_schedule test_x (new_matrix 8 4) 1 [0] =
     Some (proba_matrix vote_acc (tree_responses test_forest test_x [0]) (new_matrix 8 4) 8,
           Inr (Quotient 16 8)) \<and>
   predict test_forest vote_acc 4 one_worker_schedule test_x (replicate 8 0) 1 [0] =
     Some ([0, 0, 1, 1, - 7, - 7, 3, 3], Inr (Quotient 16 8)) \<and>
   (\<exists>M. merge test_forest test_forest = (M, Inr ()) \<and>
        num_nodes M = num_nodes test_forest + num_nodes test_forest \<and>
        num_trees M = num_trees test_forest + num_trees test_forest \<and>
        (\<forall>n t. map_of (split_tests test_forest) n = Some t \<longrightarrow>
               map_of (split_tests M) (n + num_nodes test_forest) = Some t) \<and>
        (\<forall>n v. map_of (node_responses test_forest) n = Some v \<longrightarrow>
               map_of (node_responses M) (n + num_nodes test_forest) = Some v) \<and>
        (\<forall>n<num_nodes test_forest.
           children (graph M) n = children (graph test_forest) n \<and>
           map_of (split_tests M) n = map_of (split_tests test_forest) n \<and>
           map_of (node_responses M) n = map_of (node_responses test_forest) n) \<and>
        predict_proba M vote_acc 4 one_worker_schedule test_x (new_matrix 8 4) 1
            (shift_tree_indices (num_trees test_forest) [0]) =
          Some (proba_matrix vote_acc (tree_responses test_forest test_x [0]) (new_matrix 8 4) 8,
                Inr (Quotient 16 8)) \<and>
        predict M vote_acc 4 one_worker_schedule test_x (replicate 8 0) 1
            (shift_tree_indices (num_trees test_forest) [0]) =
          Some ([0, 0, 1, 1, - 7, - 7, 3, 3], Inr (Quotient 16 8)))"
proof -
  have h1: "problem_spec test_forest = problem_spec test_forest" by simp
  have h2: "distinct (map fst (split_tests test_forest))"
    by (simp add: test_forest_def)
  have h3: "distinct (map fst (node_responses test_forest))"
    by (simp add: test_forest_def)
  have h4: "[0::nat] \<noteq> []" by simp
  from merge_appends_other_forest[OF h1 h2 h3,
      of "[0]" 4 1 test_x one_worker_schedule vote_acc "new_matrix 8 4"
         "proba_matrix vote_acc (tree_responses test_forest test_x [0]) (new_matrix 8 4) 8"
         "Quotient 16 8" "replicate 8 0" "[0, 0, 1, 1, - 7, - 7, 3, 3]" "Quotient 16 8"]
  obtain M where M: "merge test_forest test_forest = (M, Inr ())"
    "num_nodes M = num_nodes test_forest + num_nodes test_forest"
    "num_trees M = num_trees test_forest + num_trees test_forest"
    "\<forall>n t. map_of (split_tests test_forest) n = Some t \<longrightarrow>
               map_of (split_tests M) (n + num_nodes test_forest) = Some t"
    "\<forall>n v. map_of (node_responses test_forest) n = Some v \<longrightarrow>
               map_of (node_responses M) (n + num_nodes test_forest) = Some v"
    "\<forall>n<num_nodes test_forest.
           children (graph M) n = children (graph test_forest) n \<and>
           map_of (split_tests M) n = map_of (split_tests test_forest) n \<and>
           map_of (node_responses M) n = map_of (node_responses test_forest) n"
    "[0::nat] \<noteq> [] \<and> valid_schedule (resolve_threads 4 1) (shape0 test_x) one_worker_schedule \<longrightarrow>
       (predict_proba test_forest vote_acc 4 one_worker_schedule test_x (new_matrix 8 4) 1 [0] =
          Some (proba_matrix vote_acc (tree_responses test_forest test_x [0]) (new_matrix 8 4) 8,
                Inr (Quotient 16 8)) \<longrightarrow>
        predict_proba M vote_acc 4 one_worker_schedule test_x (new_matrix 8 4) 1
            (shift_tree_indices (num_trees test_forest) [0]) =
          Some (proba_matrix vote_acc (tree_responses test_forest test_x [0]) (new_matrix 8 4) 8,
                Inr (Quotient 16 8))) \<and>
       (predict test_forest vote_acc 4 one_worker_schedule test_x (replicate 8 0) 1 [0] =
          Some ([0, 0, 1, 1, - 7, - 7, 3, 3], Inr (Quotient 16 8)) \<longrightarrow>
        predict M vote_acc 4 one_worker_schedule test_x (replicate 8 0) 1
            (shift_tree_indices (num_trees test_forest) [0]) =
          Some ([0, 0, 1, 1, - 7, - 7, 3, 3], Inr (Quotient 16 8)))"
    apply (elim exE conjE)
    apply (rule that)
    apply assumption+
    done
  have prem: "[0::nat] \<noteq> [] \<and>
      valid_schedule (resolve_threads 4 1) (shape0 test_x) one_worker_schedule"
    using h4 one_worker_valid by (rule conjI)
  note both = M(7)[THEN mp, OF prem]
  note r1 = both[THEN conjunct1, THEN mp, OF predict_proba_test_tree0]
  note r2 = both[THEN conjunct2, THEN mp, OF predict_test_tree0]
  have "\<exists>M. merge test_forest test_forest = (M, Inr ()) \<and>
        num_nodes M = num_nodes test_forest + num_nodes test_forest \<and>
        num_trees M = num_trees test_forest + num_trees test_forest \<and>
        (\<forall>n t. map_of (split_tests test_forest) n = Some t \<longrightarrow>
               map_of (split_tests M) (n + num_nodes test_forest) = Some t) \<and>
        (\<forall>n v. map_of (node_responses test_forest) n = Some v \<longrightarrow>
               map_of (node_responses M) (n + num_nodes test_forest) = Some v) \<and>
        (\<forall>n<num_nodes test_forest.
           children (graph M) n = children (graph test_forest) n \<and>
           map_of (split_tests M) n = map_of (split_tests test_forest) n \<and>
           map_of (node_responses M) n = map_of (node_responses test_forest) n) \<and>
        predict_proba M vote_acc 4 one_worker_schedule test_x (new_matrix 8 4) 1
            (shift_tree_indices (num_trees test_forest) [0]) =
          Some (proba_matrix vote_acc (tree_responses test_forest test_x [0]) (new_matrix 8 4) 8,
                Inr (Quotient 16 8)) \<and>
        predict M vote_acc 4 one_worker_schedule test_x (replicate 8 0) 1
            (shift_tree_indices (num_trees test_forest) [0]) =
          Some ([0, 0, 1, 1, - 7, - 7, 3, 3], Inr (Quotient 16 8))"
    by (intro exI[of _ M] conjI M(1) M(2) M(3) M(4) M(5) M(6) r1 r2)
  then show ?thesis
    by (intro conjI h1 h2 h3 h4 one_worker_valid predict_proba_test_tree0 predict_test_tree0)
qed

end
